theory Spec2Isabelle
  imports Complex_Main
begin

section \<open>Data model\<close>

text \<open>
  The development follows \<^verbatim>\<open>Python3Code/Chapter8/LearningAlgorithmsTemporal.py\<close>, class
  \<^verbatim>\<open>TemporalClassificationAlgorithms\<close>.

  A pandas data frame of numbers is the list of its rows, in index order; every row lists
  the values of the columns in column order, and a column label is its position. A frame
  without rows carries no columns here. numpy vectors are lists and numpy matrices are lists
  of rows. Floating-point numbers are read as real numbers. A place where the source may
  produce \<^verbatim>\<open>inf\<close> or \<^verbatim>\<open>nan\<close> is a branch of its own: a division by zero has the outcome
  \<open>NonFinite\<close>, and a result of the arithmetic of \<^verbatim>\<open>normalize\<close> and \<^verbatim>\<open>denormalize\<close> beyond
  \<^verbatim>\<open>sys.float_info.max\<close> has the outcome \<open>Overflow\<close>. Rounding is modelled where the source
  truncates a floating-point product to an integer (the split point of the grid search) and
  nowhere else.

  The shapes of the numpy operands are taken to conform (the source builds the weight
  matrices with matching sizes); the list operations below are meant for such operands only.
\<close>

type_synonym vec = "real list"
type_synonym matrix = "real list list"
type_synonym table = "real list list"

text \<open>
  The Python exceptions that the modelled code can raise. \<open>NonFinite\<close> and \<open>Overflow\<close> are no
  exceptions: the source carries on with \<^verbatim>\<open>inf\<close> or \<^verbatim>\<open>nan\<close> values, which are no real
  numbers, and the model stops with this outcome.
\<close>

datatype failure =
    ValueError | IndexError | KeyError | TypeError | AttributeError | UnboundLocalError
  | LinAlgError | NonFinite | Overflow

text \<open>An exception leaves the rest of a computation undone.\<close>

definition then_do :: "failure + 'a \<Rightarrow> ('a \<Rightarrow> failure + 'b) \<Rightarrow> failure + 'b" where
  "then_do m f = (case m of Inl e \<Rightarrow> Inl e | Inr v \<Rightarrow> f v)"

text \<open>
  \<^verbatim>\<open>sys.float_info.max\<close>, the largest double. An arithmetic result beyond it is \<^verbatim>\<open>inf\<close>.
\<close>

definition float_max :: real where
  "float_max = (2 - 1 / 2 ^ 52) * 2 ^ 1023"

definition finite_double :: "real \<Rightarrow> bool" where
  "finite_double x \<longleftrightarrow> \<bar>x\<bar> \<le> float_max"

definition float_finite :: "real \<Rightarrow> failure + real" where
  "float_finite x = (if finite_double x then Inr x else Inl Overflow)"

definition series_finite :: "vec \<Rightarrow> failure + vec" where
  "series_finite v = (if list_all finite_double v then Inr v else Inl Overflow)"

definition np_finite :: "table \<Rightarrow> failure + table" where
  "np_finite t = (if list_all (list_all finite_double) t then Inr t else Inl Overflow)"

definition ncols :: "table \<Rightarrow> nat" where
  "ncols t = (case t of [] \<Rightarrow> 0 | r # _ \<Rightarrow> length r)"

definition column :: "table \<Rightarrow> nat \<Rightarrow> real list" where
  "column t j = map (\<lambda>r. r ! j) t"

text \<open>\<^verbatim>\<open>DataFrame.max()\<close> and \<^verbatim>\<open>DataFrame.min()\<close>: one value per column.\<close>

definition df_max :: "table \<Rightarrow> vec" where
  "df_max t = map (\<lambda>j. Max (set (column t j))) [0..<ncols t]"

definition df_min :: "table \<Rightarrow> vec" where
  "df_min t = map (\<lambda>j. Min (set (column t j))) [0..<ncols t]"

text \<open>
  Arithmetic of a frame with a vector aligned on the columns, of a frame with a scalar, of
  two series and of two floats. A division by zero gives \<^verbatim>\<open>inf\<close> or \<^verbatim>\<open>nan\<close>.
\<close>

definition df_sub_vec :: "table \<Rightarrow> vec \<Rightarrow> failure + table" where
  "df_sub_vec t v = np_finite (map (\<lambda>r. map2 (-) r v) t)"

definition df_div_vec :: "table \<Rightarrow> vec \<Rightarrow> failure + table" where
  "df_div_vec t v =
     (if list_ex (\<lambda>r. list_ex (\<lambda>(x, d). d = 0) (zip r v)) t then Inl NonFinite
      else np_finite (map (\<lambda>r. map2 (/) r v) t))"

definition df_mul_vec :: "table \<Rightarrow> vec \<Rightarrow> failure + table" where
  "df_mul_vec t v = np_finite (map (\<lambda>r. map2 (*) r v) t)"

definition df_add_vec :: "table \<Rightarrow> vec \<Rightarrow> failure + table" where
  "df_add_vec t v = np_finite (map (\<lambda>r. map2 (+) r v) t)"

definition df_sub_scalar :: "table \<Rightarrow> real \<Rightarrow> failure + table" where
  "df_sub_scalar t c = np_finite (map (map (\<lambda>x. x - c)) t)"

definition df_add_scalar :: "table \<Rightarrow> real \<Rightarrow> failure + table" where
  "df_add_scalar t c = np_finite (map (map (\<lambda>x. x + c)) t)"

definition df_mul_scalar :: "table \<Rightarrow> real \<Rightarrow> failure + table" where
  "df_mul_scalar t c = np_finite (map (map (\<lambda>x. x * c)) t)"

definition df_div_scalar :: "table \<Rightarrow> real \<Rightarrow> failure + table" where
  "df_div_scalar t c =
     (if c = 0 \<and> concat t \<noteq> [] then Inl NonFinite
      else np_finite (map (map (\<lambda>x. x / c)) t))"

definition series_sub :: "vec \<Rightarrow> vec \<Rightarrow> failure + vec" where
  "series_sub v w = series_finite (map2 (-) v w)"

definition float_sub :: "real \<Rightarrow> real \<Rightarrow> failure + real" where
  "float_sub x y = float_finite (x - y)"

text \<open>\<^verbatim>\<open>Series.replace(old, new)\<close>.\<close>

definition replace :: "real \<Rightarrow> real \<Rightarrow> vec \<Rightarrow> vec" where
  "replace old new v = map (\<lambda>d. if d = old then new else d) v"

section \<open>Normalization\<close>

text \<open>
  The expression \<^verbatim>\<open>(((frame - minimum) / difference) * (range_max - range_min)) + range_min\<close>
  that \<^verbatim>\<open>normalize\<close> evaluates for \<^verbatim>\<open>train\<close> and for \<^verbatim>\<open>test\<close>.
\<close>

definition scale_frame :: "table \<Rightarrow> vec \<Rightarrow> vec \<Rightarrow> real \<Rightarrow> real \<Rightarrow> failure + table" where
  "scale_frame frame minimum difference range_min range_max =
     then_do (df_sub_vec frame minimum) (\<lambda>centred.
     then_do (df_div_vec centred difference) (\<lambda>unit.
     then_do (float_sub range_max range_min) (\<lambda>width.
     then_do (df_mul_scalar unit width) (\<lambda>scaled.
     df_add_scalar scaled range_min))))"

text \<open>
  \<^verbatim>\<open>normalize(train, test, range_min, range_max)\<close>. The caller \<^verbatim>\<open>reservoir_computing\<close> passes
  \<^verbatim>\<open>None\<close> for \<^verbatim>\<open>test\<close> when it was given no test targets: \<^verbatim>\<open>append\<close> ignores it and
  \<^verbatim>\<open>test - minimum\<close> raises, whatever the values computed before it.
\<close>

definition normalize ::
  "table \<Rightarrow> table option \<Rightarrow> real \<Rightarrow> real \<Rightarrow> failure + (table \<times> table \<times> vec \<times> vec)" where
  "normalize train test range_min range_max =
     (let total = train @ (case test of None \<Rightarrow> [] | Some te \<Rightarrow> te);
          maximum = df_max total;
          minimum = df_min total
      in case test of
           None \<Rightarrow> Inl TypeError
         | Some te \<Rightarrow>
             then_do (series_sub maximum minimum) (\<lambda>difference.
             let difference = replace 0 1 difference
             in then_do (scale_frame train minimum difference range_min range_max)
                  (\<lambda>new_train.
                then_do (scale_frame te minimum difference range_min range_max)
                  (\<lambda>new_test.
                Inr (new_train, new_test, minimum, maximum)))))"

text \<open>
  \<^verbatim>\<open>denormalize(y, minimum, maximum, range_min, range_max)\<close>. The division by
  \<^verbatim>\<open>range_max - range_min\<close> is unguarded: with equal bounds every value of \<^verbatim>\<open>y\<close> becomes
  \<^verbatim>\<open>inf\<close> or \<^verbatim>\<open>nan\<close>.
\<close>

definition denormalize :: "table \<Rightarrow> vec \<Rightarrow> vec \<Rightarrow> real \<Rightarrow> real \<Rightarrow> failure + table" where
  "denormalize y minimum maximum range_min range_max =
     then_do (series_sub maximum minimum) (\<lambda>difference.
     let difference = replace 0 1 difference
     in then_do (df_sub_scalar y range_min) (\<lambda>y.
        then_do (float_sub range_max range_min) (\<lambda>width.
        then_do (df_div_scalar y width) (\<lambda>y.
        then_do (df_mul_vec y difference) (\<lambda>y.
        df_add_vec y minimum)))))"

text \<open>The rows of a frame all have the same columns.\<close>

definition rectangular :: "table \<Rightarrow> bool" where
  "rectangular t = list_all (\<lambda>r. length r = ncols t) t"

text \<open>
  The scaling in the words of the specification, for the frame \<open>both\<close> of the rows of
  \<^verbatim>\<open>train\<close> followed by those of \<^verbatim>\<open>test\<close>: the divisor of column \<open>j\<close> is the difference of the
  maximum and the minimum of the column, and 1 when they are equal; the value \<open>x\<close> of column
  \<open>j\<close> is scaled to \<open>(x - minimum) / divisor * (range_max - range_min) + range_min\<close>.
\<close>

definition divisor :: "table \<Rightarrow> nat \<Rightarrow> real" where
  "divisor both j =
     (if df_max both ! j = df_min both ! j then 1 else df_max both ! j - df_min both ! j)"

definition scaled :: "table \<Rightarrow> real \<Rightarrow> real \<Rightarrow> nat \<Rightarrow> real \<Rightarrow> real" where
  "scaled both range_min range_max j x =
     (x - df_min both ! j) / divisor both j * (range_max - range_min) + range_min"

definition scaled_rows :: "table \<Rightarrow> real \<Rightarrow> real \<Rightarrow> table \<Rightarrow> table" where
  "scaled_rows both range_min range_max t =
     map (\<lambda>r. map (\<lambda>j. scaled both range_min range_max j (r ! j)) [0..<ncols both]) t"

text \<open>
  No step of \<^verbatim>\<open>normalize\<close> overflows: the bounds, their difference and the range of every
  column are within the doubles.
\<close>

definition within_doubles :: "table \<Rightarrow> real \<Rightarrow> real \<Rightarrow> bool" where
  "within_doubles both range_min range_max \<longleftrightarrow>
     list_all finite_double (map2 (-) (df_max both) (df_min both)) \<and>
     finite_double (range_max - range_min) \<and> finite_double range_min \<and>
     finite_double range_max"


section \<open>Python, numpy and pandas operations\<close>

text \<open>A \<^verbatim>\<open>for\<close> loop over a list: the body updates the loop state or raises.\<close>

fun for_each :: "('a \<Rightarrow> 's \<Rightarrow> failure + 's) \<Rightarrow> 'a list \<Rightarrow> 's \<Rightarrow> failure + 's" where
  "for_each body [] s = Inr s"
| "for_each body (x # xs) s = then_do (body x s) (for_each body xs)"

text \<open>\<^verbatim>\<open>int(x)\<close> of a float: truncation towards zero.\<close>

definition py_int :: "real \<Rightarrow> int" where
  "py_int x = (if 0 \<le> x then \<lfloor>x\<rfloor> else \<lceil>x\<rceil>)"

text \<open>
  The double nearest to a real number, ties to the even significand: a double has 53
  significant bits, and the exponent of a normal double is at least -1022. \<open>fl x\<close> is the
  value of a floating-point operation whose exact result is \<open>x\<close>, as long as it does not
  overflow.
\<close>

definition round_half_even :: "real \<Rightarrow> int" where
  "round_half_even x =
     (let f = \<lfloor>x\<rfloor>;
          d = x - of_int f
      in if d < 1 / 2 then f else if 1 / 2 < d then f + 1 else if even f then f else f + 1)"

definition fl :: "real \<Rightarrow> real" where
  "fl x =
     (if x = 0 then 0
      else let e = max \<lfloor>log 2 \<bar>x\<bar>\<rfloor> (- 1022) - 52
           in of_int (round_half_even (x / 2 powi e)) * 2 powi e)"

text \<open>\<^verbatim>\<open>max(iterable)\<close> raises on an empty iterable.\<close>

definition py_max :: "real list \<Rightarrow> failure + real" where
  "py_max xs = (case xs of [] \<Rightarrow> Inl ValueError | x # rest \<Rightarrow> Inr (fold max rest x))"

text \<open>\<^verbatim>\<open>xs.index(x)\<close> and \<^verbatim>\<open>xs[i]\<close> for \<^verbatim>\<open>i \<ge> 0\<close>.\<close>

definition list_index :: "'a list \<Rightarrow> 'a \<Rightarrow> failure + nat" where
  "list_index xs x =
     (if x \<in> set xs then Inr (length (takeWhile (\<lambda>y. y \<noteq> x) xs)) else Inl ValueError)"

definition py_getitem :: "'a list \<Rightarrow> nat \<Rightarrow> failure + 'a" where
  "py_getitem xs i = (if i < length xs then Inr (xs ! i) else Inl IndexError)"

text \<open>The row slice \<^verbatim>\<open>df.iloc[start:stop, ]\<close> with Python's clipping of the bounds.\<close>

definition iloc_rows :: "'a list \<Rightarrow> int \<Rightarrow> int \<Rightarrow> 'a list" where
  "iloc_rows t start stop =
     (let n = int (length t);
          lo = (if start < 0 then max 0 (n + start) else min start n);
          hi = (if stop < 0 then max 0 (n + stop) else min stop n)
      in take (nat (hi - lo)) (drop (nat lo) t))"

text \<open>The row \<^verbatim>\<open>df.iloc[i, :].values\<close> for \<^verbatim>\<open>i \<ge> 0\<close>.\<close>

definition iloc_row :: "table \<Rightarrow> nat \<Rightarrow> failure + vec" where
  "iloc_row t i = (if i < length t then Inr (t ! i) else Inl IndexError)"

text \<open>\<^verbatim>\<open>np.zeros((rows, cols))\<close> rejects a negative dimension.\<close>

definition np_zeros :: "int \<Rightarrow> nat \<Rightarrow> failure + matrix" where
  "np_zeros rows cols =
     (if rows < 0 then Inl ValueError else Inr (replicate (nat rows) (replicate cols 0)))"

definition np_sub_scalar :: "matrix \<Rightarrow> real \<Rightarrow> matrix" where
  "np_sub_scalar M c = map (map (\<lambda>x. x - c)) M"

definition np_mul_scalar :: "matrix \<Rightarrow> real \<Rightarrow> matrix" where
  "np_mul_scalar M c = map (map (\<lambda>x. x * c)) M"

text \<open>
  \<^verbatim>\<open>np.dot\<close> of a matrix with a column vector and of two matrices, and \<^verbatim>\<open>np.transpose\<close>. A
  list of rows that is empty has lost its number of columns, so the last two take the number
  of columns of the matrix \<open>B\<close> as an argument.
\<close>

definition np_dot_vec :: "matrix \<Rightarrow> vec \<Rightarrow> vec" where
  "np_dot_vec M v = map (\<lambda>row. sum_list (map2 (*) row v)) M"

definition np_dot :: "matrix \<Rightarrow> matrix \<Rightarrow> nat \<Rightarrow> matrix" where
  "np_dot A B cols = map (\<lambda>row. map (\<lambda>j. sum_list (map2 (*) row (column B j))) [0..<cols]) A"

definition np_transpose :: "matrix \<Rightarrow> nat \<Rightarrow> matrix" where
  "np_transpose B cols = map (\<lambda>j. column B j) [0..<cols]"

text \<open>
  \<^verbatim>\<open>DataFrame.idxmax(axis=1)\<close>: for every row the label of the first column that holds the
  maximum of the row.
\<close>

definition idxmax_row :: "'c list \<Rightarrow> vec \<Rightarrow> failure + 'c" where
  "idxmax_row cols r =
     (if r = [] then Inl ValueError
      else Inr (cols ! length (takeWhile (\<lambda>v. v \<noteq> Max (set r)) r)))"

fun idxmax :: "'c list \<Rightarrow> table \<Rightarrow> failure + 'c list" where
  "idxmax cols [] = Inr []"
| "idxmax cols (r # rs) =
     then_do (idxmax_row cols r) (\<lambda>l. then_do (idxmax cols rs) (\<lambda>ls. Inr (l # ls)))"

section \<open>External collaborators\<close>

text \<open>
  The random generator of numpy, the eigenvalue and pseudo-inverse routines of scipy and the
  two evaluation metrics of \<^verbatim>\<open>Chapter7.Evaluation\<close> are not part of the modelled file. They
  are parameters: \<open>np_random_rand\<close> takes the generator state and the shape and returns the
  drawn matrix with the next state, \<open>linalg_eig\<close> returns the eigenvalues, \<open>linalg_pinv\<close> the
  pseudo-inverse of a matrix with the given number of columns; the scipy routines may raise.
\<close>

record 'g externals =
  np_random_rand :: "'g \<Rightarrow> nat \<Rightarrow> nat \<Rightarrow> matrix \<times> 'g"
  linalg_eig :: "matrix \<Rightarrow> failure + complex list"
  linalg_pinv :: "nat \<Rightarrow> matrix \<Rightarrow> failure + matrix"
  mean_squared_error :: "table \<Rightarrow> table \<Rightarrow> real"
  accuracy :: "table \<Rightarrow> nat list \<Rightarrow> real"

section \<open>Categorical encoder\<close>

text \<open>
  \<^verbatim>\<open>pd.get_dummies\<close> leaves the numeric columns of a frame as they are, and the frames of
  this model are numeric.
\<close>

definition create_numerical_single_dataset :: "table \<Rightarrow> table" where
  "create_numerical_single_dataset dataset = dataset"

definition create_numerical_multiple_dataset :: "table \<Rightarrow> table \<Rightarrow> table \<times> table" where
  "create_numerical_multiple_dataset train test =
     (let total_dataset = train @ test;
          new_train = iloc_rows total_dataset 0 (int (length train));
          new_test = iloc_rows total_dataset (int (length train))
                       (int (length train) + int (length test))
      in (new_train, new_test))"

section \<open>Echo state network\<close>

text \<open>
  \<^verbatim>\<open>initialize_echo_state_network(inputs, outputs, reservoir)\<close>. The scaling factor
  \<^verbatim>\<open>1.25 / rhoW\<close> is \<^verbatim>\<open>inf\<close> when \<^verbatim>\<open>rhoW\<close> is zero, and \<^verbatim>\<open>W\<close> then holds \<^verbatim>\<open>nan\<close> or \<^verbatim>\<open>inf\<close>
  only: the returned \<open>W\<close> is \<open>None\<close> in that case.
\<close>

definition initialize_echo_state_network ::
  "'g externals \<Rightarrow> 'g \<Rightarrow> nat \<Rightarrow> nat \<Rightarrow> nat \<Rightarrow>
     failure + ((matrix \<times> matrix option \<times> matrix) \<times> 'g)" where
  "initialize_echo_state_network E g inputs outputs reservoir =
     (let (R1, g) = np_random_rand E g reservoir (1 + inputs);
          Win = np_mul_scalar (np_sub_scalar R1 0.5) 1;
          (R2, g) = np_random_rand E g reservoir reservoir;
          W = np_sub_scalar R2 0.5;
          (R3, g) = np_random_rand E g reservoir outputs;
          Wback = np_mul_scalar (np_sub_scalar R3 0.5) 1
      in then_do (linalg_eig E W) (\<lambda>eigenvalues.
         then_do (py_max (map cmod eigenvalues)) (\<lambda>rhoW.
         Inr ((Win, (if rhoW = 0 then None else Some (np_mul_scalar W (1.25 / rhoW))), Wback),
              g))))"

text \<open>
  The activation of the reservoir,
  \<^verbatim>\<open>(1 - a) * x + a * np.tanh(np.dot(Win, [1; u]) + np.dot(W, x) + np.dot(Wback, y_prev))\<close>,
  and the output \<^verbatim>\<open>np.tanh(np.dot(Wout, [1; u; x]))\<close>.
\<close>

definition reservoir_activation ::
  "matrix \<Rightarrow> matrix \<Rightarrow> matrix \<Rightarrow> real \<Rightarrow> vec \<Rightarrow> vec \<Rightarrow> vec \<Rightarrow> vec" where
  "reservoir_activation Win W Wback a x u y_prev =
     map2 (+) (map (\<lambda>v. (1 - a) * v) x)
       (map (\<lambda>v. a * v) (map tanh
          (map2 (+) (map2 (+) (np_dot_vec Win (1 # u)) (np_dot_vec W x))
             (np_dot_vec Wback y_prev))))"

definition network_output :: "matrix \<Rightarrow> vec \<Rightarrow> vec \<Rightarrow> vec" where
  "network_output Wout u x = map tanh (np_dot_vec Wout (1 # u @ x))"

text \<open>
  The body of the loop of \<^verbatim>\<open>predict_values_echo_state_network\<close> at time point \<open>t\<close>. The loop
  state holds the activation \<^verbatim>\<open>x\<close>, the last output \<^verbatim>\<open>y\<close> (unbound before the first pass) and
  the outputs \<^verbatim>\<open>Y\<close> collected so far.
\<close>

definition predict_step ::
  "matrix \<Rightarrow> matrix \<Rightarrow> matrix \<Rightarrow> matrix \<Rightarrow> real \<Rightarrow> table \<Rightarrow> table option \<Rightarrow> 'c list \<Rightarrow> bool \<Rightarrow>
     nat \<Rightarrow> vec \<times> vec option \<times> table \<Rightarrow> failure + (vec \<times> vec option \<times> table)" where
  "predict_step Win W Wback Wout a X y_true cols per_time_step t s =
     (case s of (x, y, Y) \<Rightarrow>
        then_do (iloc_row X t) (\<lambda>u.
        then_do
          (if t > 0 then
             (if per_time_step then
                (case y_true of
                   None \<Rightarrow> Inl AttributeError
                 | Some yt \<Rightarrow> iloc_row yt (t - 1))
              else (case y of None \<Rightarrow> Inl UnboundLocalError | Some v \<Rightarrow> Inr v))
           else Inr (replicate (length cols) 0))
          (\<lambda>y_prev.
             let x = reservoir_activation Win W Wback a x u y_prev;
                 y = network_output Wout u x
             in Inr (x, Some y, Y @ [y]))))"

definition predict_values_echo_state_network ::
  "matrix \<Rightarrow> matrix \<Rightarrow> matrix \<Rightarrow> matrix \<Rightarrow> real \<Rightarrow> nat \<Rightarrow> table \<Rightarrow> table option \<Rightarrow> 'c list \<Rightarrow>
     bool \<Rightarrow> failure + ('c list \<times> table)" where
  "predict_values_echo_state_network Win W Wback Wout a reservoir_size X y_true cols
       per_time_step =
     (let x = replicate reservoir_size 0
      in then_do (for_each (predict_step Win W Wback Wout a X y_true cols per_time_step)
                    [0..<length X] (x, None, []))
           (\<lambda>(x, y, Y). then_do (idxmax cols Y) (\<lambda>labels. Inr (labels, Y))))"

section \<open>Parameter combinations\<close>

text \<open>
  \<^verbatim>\<open>generate_parameter_combinations(parameter_dict, params)\<close>. With no parameter name left
  the source takes the second branch, whose \<^verbatim>\<open>pop(0)\<close> raises.
\<close>

fun generate_parameter_combinations ::
  "('k \<rightharpoonup> 'v list) \<Rightarrow> 'k list \<Rightarrow> failure + 'v list list" where
  "generate_parameter_combinations parameter_dict [] = Inl IndexError"
| "generate_parameter_combinations parameter_dict [p] =
     (case parameter_dict p of
        None \<Rightarrow> Inl KeyError
      | Some values \<Rightarrow> Inr (map (\<lambda>val. [val]) values))"
| "generate_parameter_combinations parameter_dict (p # params_without_first_element) =
     then_do (generate_parameter_combinations parameter_dict params_without_first_element)
       (\<lambda>params_without_first_element_combinations.
          case parameter_dict p of
            None \<Rightarrow> Inl KeyError
          | Some values_first_element \<Rightarrow>
              Inr (concat (map (\<lambda>v. map (\<lambda>c. v # c) params_without_first_element_combinations)
                     values_first_element)))"

section \<open>Reservoir computing\<close>

definition washout_period :: nat where
  "washout_period = 10"

text \<open>
  The body of the training loop of \<^verbatim>\<open>reservoir_computing\<close> at time point \<open>t\<close>: the loop state
  holds the result matrix \<^verbatim>\<open>X\<close> and the activation \<^verbatim>\<open>x\<close>.
\<close>

definition train_step ::
  "matrix \<Rightarrow> matrix \<Rightarrow> matrix \<Rightarrow> real \<Rightarrow> table \<Rightarrow> table \<Rightarrow> nat \<Rightarrow>
     nat \<Rightarrow> matrix \<times> vec \<Rightarrow> failure + (matrix \<times> vec)" where
  "train_step Win W Wback a new_train_X new_train_y outputs t s =
     (case s of (X, x) \<Rightarrow>
        then_do (iloc_row new_train_X t) (\<lambda>u.
        then_do (if t > 0 then iloc_row new_train_y (t - 1) else Inr (replicate outputs 0))
          (\<lambda>y_prev.
             let x = reservoir_activation Win W Wback a x u y_prev
             in if t \<ge> washout_period then
                  (if t - washout_period < length X
                   then Inr (X[t - washout_period := 1 # u @ x], x)
                   else Inl IndexError)
                else Inr (X, x))))"

text \<open>
  The training part of \<^verbatim>\<open>reservoir_computing\<close>, from the allocation of the result matrices
  to \<^verbatim>\<open>Wout\<close>; \<open>n_train\<close> is \<^verbatim>\<open>len(train_X.index)\<close>. The targets handed to \<^verbatim>\<open>np.arctanh\<close>
  come out of \<^verbatim>\<open>normalize\<close> with the range from -0.9 to 0.9. With a \<open>W\<close> that is not finite no
  later value is a real number.
\<close>

definition reservoir_training ::
  "'g externals \<Rightarrow> matrix \<Rightarrow> matrix option \<Rightarrow> matrix \<Rightarrow> real \<Rightarrow> nat \<Rightarrow> nat \<Rightarrow> nat \<Rightarrow> nat \<Rightarrow>
     table \<Rightarrow> table \<Rightarrow> failure + matrix" where
  "reservoir_training E Win W Wback a reservoir_size inputs outputs n_train new_train_X
       new_train_y =
     then_do (np_zeros (int n_train - int washout_period) (1 + inputs + reservoir_size)) (\<lambda>X.
       let Yt = iloc_rows new_train_y (int washout_period) (int (length new_train_y));
           Yt = map (map artanh) Yt;
           x = replicate reservoir_size 0
       in case W of
            None \<Rightarrow> Inl NonFinite
          | Some W \<Rightarrow>
              then_do (for_each (train_step Win W Wback a new_train_X new_train_y outputs)
                         [0..<length new_train_X] (X, x))
                (\<lambda>(X, x).
                   then_do (linalg_pinv E (1 + inputs + reservoir_size) X) (\<lambda>X_p.
                     Inr (np_transpose (np_dot X_p Yt outputs) outputs))))"

text \<open>
  \<^verbatim>\<open>reservoir_computing\<close> after its grid search block, that is with \<^verbatim>\<open>gridsearch=False\<close>:
  the column labels of the targets are their positions. With \<^verbatim>\<open>inf\<close> or \<^verbatim>\<open>nan\<close> in a
  normalized frame the source carries on: the initialization of the network and the
  allocation of the result matrix, which do not look at the values of the frames, raise as
  they do otherwise, and no later value is a real number.
\<close>

definition reservoir_computing_fixed ::
  "'g externals \<Rightarrow> 'g \<Rightarrow> table \<Rightarrow> table \<Rightarrow> table \<Rightarrow> table option \<Rightarrow> nat \<Rightarrow> real \<Rightarrow> bool \<Rightarrow>
     failure + ((nat list \<times> nat list \<times> table \<times> table) \<times> 'g)" where
  "reservoir_computing_fixed E g train_X train_y test_X test_y reservoir_size a per_time_step =
     (let (new_train_X, new_test_X) = create_numerical_multiple_dataset train_X test_X;
          (new_train_y, new_test_y) =
            (case test_y of
               None \<Rightarrow> (create_numerical_single_dataset train_y, None)
             | Some ty \<Rightarrow>
                 (let (tr, te) = create_numerical_multiple_dataset train_y ty in (tr, Some te)));
          normalized_X = normalize new_train_X (Some new_test_X) 0 1;
          normalized_y = normalize new_train_y new_test_y (- 0.9) 0.9;
          not_finite = (\<lambda>e.
            then_do (initialize_echo_state_network E g (ncols new_train_X) (ncols new_train_y)
                       reservoir_size) (\<lambda>network.
            then_do (np_zeros (int (length train_X) - int washout_period)
                       (1 + ncols new_train_X + reservoir_size)) (\<lambda>X.
            Inl e)))
      in if normalized_y = Inl TypeError then Inl TypeError
         else
         case normalized_X of
           Inl e \<Rightarrow> not_finite e
         | Inr (new_train_X, new_test_X, min_X, max_X) \<Rightarrow>
         case normalized_y of
           Inl e \<Rightarrow> not_finite e
         | Inr (new_train_y, new_test_y, min_y, max_y) \<Rightarrow>
         let inputs = ncols new_train_X;
             outputs = ncols new_train_y
         in then_do (initialize_echo_state_network E g inputs outputs reservoir_size)
           (\<lambda>((Win, W, Wback), g).
         then_do (reservoir_training E Win W Wback a reservoir_size inputs outputs
                    (length train_X) new_train_X new_train_y)
           (\<lambda>Wout.
         case W of
           None \<Rightarrow> Inl NonFinite
         | Some W \<Rightarrow>
         then_do (predict_values_echo_state_network Win W Wback Wout a reservoir_size
                    new_train_X (Some new_train_y) [0..<outputs] per_time_step)
           (\<lambda>(pred_train_y, pred_train_y_prob).
         then_do (predict_values_echo_state_network Win W Wback Wout a reservoir_size
                    new_test_X (Some new_test_y) [0..<outputs] per_time_step)
           (\<lambda>(pred_test_y, pred_test_y_prob).
         then_do (denormalize pred_train_y_prob min_y max_y (- 0.9) 0.9)
           (\<lambda>pred_train_y_prob.
         then_do (denormalize pred_test_y_prob min_y max_y (- 0.9) 0.9)
           (\<lambda>pred_test_y_prob.
         Inr ((pred_train_y, pred_test_y, pred_train_y_prob, pred_test_y_prob), g))))))))"

section \<open>Grid search\<close>

text \<open>The values of the grid: Python floats and ints.\<close>

datatype pyval = PyFloat real | PyInt int

definition py_dimension :: "pyval \<Rightarrow> failure + nat" where
  "py_dimension v =
     (case v of
        PyInt n \<Rightarrow> (if n < 0 then Inl ValueError else Inr (nat n))
      | PyFloat r \<Rightarrow> Inl TypeError)"

definition py_float :: "pyval \<Rightarrow> real" where
  "py_float v = (case v of PyInt n \<Rightarrow> of_int n | PyFloat r \<Rightarrow> r)"

text \<open>The dictionary \<^verbatim>\<open>tuned_parameters\<close>, in the order of its keys.\<close>

definition tuned_parameters :: "(string \<times> pyval list) list" where
  "tuned_parameters =
     [(''a'', [PyFloat 0.6, PyFloat 0.8]),
      (''reservoir_size'', [PyInt 400, PyInt 700, PyInt 1000])]"

text \<open>
  The call of \<^verbatim>\<open>reservoir_computing\<close> in the loop of \<^verbatim>\<open>gridsearch_reservoir_computing\<close> for
  the combination \<open>comb\<close>; the values of the grid are an int for \<^verbatim>\<open>reservoir_size\<close> and a
  float for \<^verbatim>\<open>a\<close>.
\<close>

definition gridsearch_evaluate ::
  "'g externals \<Rightarrow> table \<Rightarrow> table \<Rightarrow> table \<Rightarrow> table \<Rightarrow> bool \<Rightarrow> pyval list \<Rightarrow> 'g \<Rightarrow>
     failure + ((nat list \<times> nat list \<times> table \<times> table) \<times> 'g)" where
  "gridsearch_evaluate E train_params_X train_params_y test_params_X test_params_y
       per_time_step comb g =
     (let keys = map fst tuned_parameters
      in then_do (list_index keys ''reservoir_size'') (\<lambda>i.
         then_do (py_getitem comb i) (\<lambda>reservoir_size.
         then_do (list_index keys ''a'') (\<lambda>j.
         then_do (py_getitem comb j) (\<lambda>a.
         then_do (py_dimension reservoir_size) (\<lambda>reservoir_size.
         reservoir_computing_fixed E g train_params_X train_params_y test_params_X
           (Some test_params_y) reservoir_size (py_float a) per_time_step))))))"

text \<open>
  The body of the loop of \<^verbatim>\<open>gridsearch_reservoir_computing\<close> for the combination \<open>comb\<close>.
  The loop state holds \<^verbatim>\<open>best_error\<close> (unbound when the metric is neither \<^verbatim>\<open>'mse'\<close> nor
  \<^verbatim>\<open>'accuracy'\<close>), \<^verbatim>\<open>best_combination\<close> and the state of the random generator.
\<close>

definition gridsearch_step ::
  "'g externals \<Rightarrow> table \<Rightarrow> table \<Rightarrow> table \<Rightarrow> table \<Rightarrow> bool \<Rightarrow> string \<Rightarrow>
     pyval list \<Rightarrow> real option \<times> pyval list \<times> 'g \<Rightarrow>
     failure + (real option \<times> pyval list \<times> 'g)" where
  "gridsearch_step E train_params_X train_params_y test_params_X test_params_y per_time_step
       error comb s =
     (case s of (best_error, best_combination, g) \<Rightarrow>
        then_do (gridsearch_evaluate E train_params_X train_params_y test_params_X
                   test_params_y per_time_step comb g)
          (\<lambda>((pred_train_y, pred_test_y, pred_train_y_prob, pred_test_y_prob), g).
             if error = ''mse'' then
               (let mse = mean_squared_error E test_params_y pred_test_y_prob
                in case best_error of
                     None \<Rightarrow> Inl UnboundLocalError
                   | Some b \<Rightarrow>
                       if mse < b then Inr (Some mse, comb, g)
                       else Inr (best_error, best_combination, g))
             else if error = ''accuracy'' then
               (let acc = accuracy E test_params_y pred_test_y
                in case best_error of
                     None \<Rightarrow> Inl UnboundLocalError
                   | Some b \<Rightarrow>
                       if acc > b then Inr (Some acc, comb, g)
                       else Inr (best_error, best_combination, g))
             else Inr (best_error, best_combination, g)))"

text \<open>The \<^verbatim>\<open>return\<close> statement of \<^verbatim>\<open>gridsearch_reservoir_computing\<close>.\<close>

definition gridsearch_return ::
  "real option \<times> pyval list \<times> 'g \<Rightarrow> failure + ((pyval \<times> pyval) \<times> 'g)" where
  "gridsearch_return s =
     (case s of (best_error, best_combination, g) \<Rightarrow>
        let keys = map fst tuned_parameters
        in then_do (list_index keys ''reservoir_size'') (\<lambda>i.
           then_do (py_getitem best_combination i) (\<lambda>reservoir_size.
           then_do (list_index keys ''a'') (\<lambda>j.
           then_do (py_getitem best_combination j) (\<lambda>a.
           Inr ((reservoir_size, a), g))))))"

text \<open>
  The split of the training data into the part to train on and the part to score on. The
  split point \<^verbatim>\<open>int(gridsearch_training_frac * len(train_X.index))\<close> truncates the product
  of two doubles, which is the double nearest to the exact product; the fraction is a double
  between 0 and 1, so that the product does not overflow.
\<close>

definition gridsearch_split :: "real \<Rightarrow> table \<Rightarrow> table \<Rightarrow> table \<times> table \<times> table \<times> table" where
  "gridsearch_split gridsearch_training_frac train_X train_y =
     (let split_point = py_int (fl (gridsearch_training_frac * real (length train_X)));
          train_params_X = iloc_rows train_X 0 split_point;
          test_params_X = iloc_rows train_X split_point (int (length train_X));
          train_params_y = iloc_rows train_y 0 split_point;
          test_params_y = iloc_rows train_y split_point (int (length train_X))
      in (train_params_X, test_params_X, train_params_y, test_params_y))"

definition gridsearch_reservoir_computing ::
  "'g externals \<Rightarrow> 'g \<Rightarrow> table \<Rightarrow> table \<Rightarrow> bool \<Rightarrow> string \<Rightarrow> real \<Rightarrow>
     failure + ((pyval \<times> pyval) \<times> 'g)" where
  "gridsearch_reservoir_computing E g train_X train_y per_time_step error
       gridsearch_training_frac =
     (let params = map fst tuned_parameters
      in then_do (generate_parameter_combinations (map_of tuned_parameters) params)
           (\<lambda>combinations.
         let (train_params_X, test_params_X, train_params_y, test_params_y) =
               gridsearch_split gridsearch_training_frac train_X train_y;
             best_error = (if error = ''mse'' then Some float_max
                           else if error = ''accuracy'' then Some 0
                           else None);
             best_combination = []
         in then_do (for_each (gridsearch_step E train_params_X train_params_y test_params_X
                                 test_params_y per_time_step error)
                       combinations (best_error, best_combination, g))
              gridsearch_return))"

text \<open>\<^verbatim>\<open>reservoir_computing\<close> with its grid search block.\<close>

definition reservoir_computing ::
  "'g externals \<Rightarrow> 'g \<Rightarrow> table \<Rightarrow> table \<Rightarrow> table \<Rightarrow> table option \<Rightarrow> nat \<Rightarrow> real \<Rightarrow> bool \<Rightarrow>
     bool \<Rightarrow> real \<Rightarrow> string \<Rightarrow>
     failure + ((nat list \<times> nat list \<times> table \<times> table) \<times> 'g)" where
  "reservoir_computing E g train_X train_y test_X test_y reservoir_size a per_time_step
       gridsearch gridsearch_training_frac error =
     (if gridsearch then
        then_do (gridsearch_reservoir_computing E g train_X train_y per_time_step error
                   gridsearch_training_frac)
          (\<lambda>((reservoir_size, a), g).
             then_do (py_dimension reservoir_size) (\<lambda>reservoir_size.
               reservoir_computing_fixed E g train_X train_y test_X test_y reservoir_size
                 (py_float a) per_time_step))
      else reservoir_computing_fixed E g train_X train_y test_X test_y reservoir_size a
             per_time_step)"

section \<open>Notions for the statements about the reservoir\<close>

text \<open>
  The activation of the reservoir after time point \<open>t\<close> when the previous target is fed back
  (teacher forcing): it starts from the zero vector with the zero vector as previous target,
  and every later time point applies \<open>reservoir_activation\<close> to the activation before, the
  input row \<open>t\<close> and the target row \<open>t - 1\<close>.
\<close>

fun teacher_forced_state ::
  "matrix \<Rightarrow> matrix \<Rightarrow> matrix \<Rightarrow> real \<Rightarrow> nat \<Rightarrow> nat \<Rightarrow> table \<Rightarrow> table \<Rightarrow> nat \<Rightarrow> vec" where
  "teacher_forced_state Win W Wback a reservoir_size outputs U Y 0 =
     reservoir_activation Win W Wback a (replicate reservoir_size 0) (U ! 0)
       (replicate outputs 0)"
| "teacher_forced_state Win W Wback a reservoir_size outputs U Y (Suc t) =
     reservoir_activation Win W Wback a
       (teacher_forced_state Win W Wback a reservoir_size outputs U Y t) (U ! Suc t) (Y ! t)"

text \<open>
  The recurrence of the specification, written with indices. \<open>inner\<close> is the inner product
  of two vectors of the same length, \<open>spec_update\<close> is
  \<open>x\<^sub>t = (1 - a) x\<^sub>t\<^sub>-\<^sub>1 + a tanh (W\<^sub>i\<^sub>n [1; u\<^sub>t] + W x\<^sub>t\<^sub>-\<^sub>1 + W\<^sub>b\<^sub>a\<^sub>c\<^sub>k y\<^sub>t\<^sub>-\<^sub>1)\<close> for a reservoir of
  \<open>N\<close> nodes, and \<open>spec_state\<close> is \<open>x\<^sub>t\<close> for the inputs \<open>U\<close> and the true targets \<open>Y\<close>, where the
  state and the target before time point 0 are zero vectors. The design matrix has the rows
  \<open>[1; u\<^sub>t; x\<^sub>t]\<close> for the time points from the washout period on, and the training targets are
  the \<open>artanh\<close> of the target rows from the washout period on.
\<close>

definition inner :: "vec \<Rightarrow> vec \<Rightarrow> real" where
  "inner v w = (\<Sum>k < length v. v ! k * w ! k)"

definition spec_update ::
  "matrix \<Rightarrow> matrix \<Rightarrow> matrix \<Rightarrow> real \<Rightarrow> nat \<Rightarrow> vec \<Rightarrow> vec \<Rightarrow> vec \<Rightarrow> vec" where
  "spec_update Win W Wback a N x u y =
     map (\<lambda>i. (1 - a) * x ! i
               + a * tanh (inner (Win ! i) (1 # u) + inner (W ! i) x + inner (Wback ! i) y))
       [0..<N]"

fun spec_state ::
  "matrix \<Rightarrow> matrix \<Rightarrow> matrix \<Rightarrow> real \<Rightarrow> nat \<Rightarrow> nat \<Rightarrow> table \<Rightarrow> table \<Rightarrow> nat \<Rightarrow> vec" where
  "spec_state Win W Wback a N outputs U Y 0 =
     spec_update Win W Wback a N (replicate N 0) (U ! 0) (replicate outputs 0)"
| "spec_state Win W Wback a N outputs U Y (Suc t) =
     spec_update Win W Wback a N (spec_state Win W Wback a N outputs U Y t) (U ! Suc t) (Y ! t)"




text \<open>
  The matrix that \<^verbatim>\<open>initialize_echo_state_network\<close> draws for \<^verbatim>\<open>W\<close> (the second draw, minus
  0.5), and the spectrum of a real matrix: the complex number \<open>l\<close> is an eigenvalue of \<open>M\<close> when
  \<open>M v = l v\<close> for a complex vector \<open>v\<close> of the size of \<open>M\<close> that is not zero, and \<open>r\<close> is the
  spectral radius of \<open>M\<close> when it is the largest absolute value of an eigenvalue.
\<close>

definition drawn_W :: "'g externals \<Rightarrow> 'g \<Rightarrow> nat \<Rightarrow> nat \<Rightarrow> matrix" where
  "drawn_W E g inputs reservoir =
     np_sub_scalar
       (fst (np_random_rand E (snd (np_random_rand E g reservoir (1 + inputs)))
               reservoir reservoir)) 0.5"

definition complex_dot :: "vec \<Rightarrow> complex list \<Rightarrow> complex" where
  "complex_dot row v = sum_list (map2 (\<lambda>x z. complex_of_real x * z) row v)"

definition is_eigenvalue :: "matrix \<Rightarrow> complex \<Rightarrow> bool" where
  "is_eigenvalue M l \<longleftrightarrow>
     (\<exists>v. length v = length M \<and> (\<exists>k. k < length v \<and> v ! k \<noteq> 0) \<and>
          map (\<lambda>row. complex_dot row v) M = map (\<lambda>z. l * z) v)"

definition spectral_radius_is :: "matrix \<Rightarrow> real \<Rightarrow> bool" where
  "spectral_radius_is M r \<longleftrightarrow>
     (\<exists>l. is_eigenvalue M l \<and> cmod l = r) \<and> (\<forall>l. is_eigenvalue M l \<longrightarrow> cmod l \<le> r)"

section \<open>Notions for the statements about the grid search\<close>

text \<open>
  The results of the calls of \<^verbatim>\<open>reservoir_computing\<close> that the loop of
  \<^verbatim>\<open>gridsearch_reservoir_computing\<close> makes, one for each combination in turn, when none of
  them raises; the cartesian product of the candidate lists of \<^verbatim>\<open>tuned_parameters\<close>, the first
  parameter varying slowest; the score that the loop computes from a result; the comparison
  of a score with \<^verbatim>\<open>best_error\<close>; and the initial \<^verbatim>\<open>best_error\<close>.
\<close>

fun gridsearch_outcomes ::
  "'g externals \<Rightarrow> table \<Rightarrow> table \<Rightarrow> table \<Rightarrow> table \<Rightarrow> bool \<Rightarrow> pyval list list \<Rightarrow> 'g \<Rightarrow>
     failure + ((nat list \<times> nat list \<times> table \<times> table) list \<times> 'g)" where
  "gridsearch_outcomes E train_params_X train_params_y test_params_X test_params_y
       per_time_step [] g = Inr ([], g)"
| "gridsearch_outcomes E train_params_X train_params_y test_params_X test_params_y
       per_time_step (comb # combs) g =
     then_do (gridsearch_evaluate E train_params_X train_params_y test_params_X test_params_y
                per_time_step comb g)
       (\<lambda>(out, g).
          then_do (gridsearch_outcomes E train_params_X train_params_y test_params_X
                     test_params_y per_time_step combs g)
            (\<lambda>(outs, g). Inr (out # outs, g)))"

definition parameter_grid :: "pyval list list" where
  "parameter_grid = product_lists (map snd tuned_parameters)"

definition validation_score ::
  "'g externals \<Rightarrow> string \<Rightarrow> table \<Rightarrow> nat list \<times> nat list \<times> table \<times> table \<Rightarrow> real" where
  "validation_score E error test_params_y out =
     (case out of (pred_train_y, pred_test_y, pred_train_y_prob, pred_test_y_prob) \<Rightarrow>
        if error = ''mse'' then mean_squared_error E test_params_y pred_test_y_prob
        else accuracy E test_params_y pred_test_y)"

definition improves :: "string \<Rightarrow> real \<Rightarrow> real \<Rightarrow> bool" where
  "improves error score best = (if error = ''mse'' then score < best else score > best)"

definition sentinel :: "string \<Rightarrow> real option" where
  "sentinel error =
     (if error = ''mse'' then Some float_max else if error = ''accuracy'' then Some 0 else None)"

text \<open>
  The choice of the loop in the words of the specification: the combinations are taken in
  their order, each with its score, and under the metrics \<^verbatim>\<open>'mse'\<close> and \<^verbatim>\<open>'accuracy'\<close> a
  combination replaces the best one so far when its score is strictly better than the best
  score so far, and only then.
\<close>

fun select_best ::
  "string \<Rightarrow> (pyval list \<times> real) list \<Rightarrow> real option \<times> pyval list \<Rightarrow>
     real option \<times> pyval list" where
  "select_best error [] best = best"
| "select_best error ((comb, score) # scored) best =
     select_best error scored
       (case fst best of
          None \<Rightarrow> best
        | Some b \<Rightarrow>
            if (error = ''mse'' \<or> error = ''accuracy'') \<and> improves error score b
            then (Some score, comb) else best)"

section \<open>Collaborators for examples\<close>

text \<open>
  Collaborators with which the functions above can be run on small inputs: the generator
  draws 1/2 everywhere, so that all weights are zero, the eigenvalue routine answers with
  the single eigenvalue 1, the pseudo-inverse is the zero matrix of the transposed shape, and
  the metrics are constant.
\<close>

definition example_externals :: "unit externals" where
  "example_externals =
     \<lparr>np_random_rand = (\<lambda>g r c. (replicate r (replicate c (1 / 2)), g)),
      linalg_eig = (\<lambda>M. Inr [1]),
      linalg_pinv = (\<lambda>k M. Inr (replicate k (replicate (length M) 0))),
      mean_squared_error = (\<lambda>y p. 1),
      accuracy = (\<lambda>y p. 1 / 2)\<rparr>"

text \<open>
  Two variants: a generator that draws 1/2 everywhere, so that the drawn \<open>W\<close> is the zero
  matrix, with its eigenvalue 0; and a generator that draws 3/4 everywhere, with the
  eigenvalue 1/4 of the drawn \<open>W\<close> of size 1.
\<close>

definition zero_draw_externals :: "unit externals" where
  "zero_draw_externals = example_externals\<lparr>linalg_eig := (\<lambda>M. Inr [0])\<rparr>"

text \<open>
  Two more variants: a mean squared error that is the number of the rows scored, and an
  accuracy of 0 for every prediction.
\<close>

definition counting_externals :: "unit externals" where
  "counting_externals = example_externals\<lparr>mean_squared_error := (\<lambda>y p. real (length y))\<rparr>"

definition zero_accuracy_externals :: "unit externals" where
  "zero_accuracy_externals = example_externals\<lparr>accuracy := (\<lambda>y p. 0)\<rparr>"

definition quarter_draw_externals :: "unit externals" where
  "quarter_draw_externals =
     example_externals
       \<lparr>np_random_rand := (\<lambda>g r c. (replicate r (replicate c (3 / 4)), g)),
        linalg_eig := (\<lambda>M. Inr [1 / 4])\<rparr>"

section \<open>Properties of the normalization\<close>

lemma then_do_Inr [simp]: "then_do (Inr v) f = f v"
  by (simp add: then_do_def)

lemma then_do_Inl [simp]: "then_do (Inl e) f = Inl e"
  by (simp add: then_do_def)

lemma then_do_eq_Inr: "then_do m f = Inr r \<longleftrightarrow> (\<exists>v. m = Inr v \<and> f v = Inr r)"
  by (cases m) simp_all

lemma rectangular_row: "rectangular t \<Longrightarrow> r \<in> set t \<Longrightarrow> length r = ncols t"
  by (simp add: rectangular_def list_all_iff)

lemma length_df_min [simp]: "length (df_min t) = ncols t"
  by (simp add: df_min_def)

lemma length_df_max [simp]: "length (df_max t) = ncols t"
  by (simp add: df_max_def)

lemma df_min_le:
  assumes "r \<in> set t" "j < ncols t"
  shows "df_min t ! j \<le> r ! j"
proof -
  have "r ! j \<in> set (column t j)" using assms by (auto simp: column_def)
  then have "Min (set (column t j)) \<le> r ! j" by simp
  then show ?thesis using assms by (simp add: df_min_def)
qed

lemma df_max_ge:
  assumes "r \<in> set t" "j < ncols t"
  shows "r ! j \<le> df_max t ! j"
proof -
  have "r ! j \<in> set (column t j)" using assms by (auto simp: column_def)
  then have "r ! j \<le> Max (set (column t j))" by simp
  then show ?thesis using assms by (simp add: df_max_def)
qed

lemma length_replace [simp]: "length (replace a b v) = length v"
  by (simp add: replace_def)

lemma replace_nonzero: "0 \<notin> set (replace 0 1 v)"
  by (auto simp: replace_def)

lemma replace_nth: "j < length v \<Longrightarrow> replace 0 1 v ! j = (if v ! j = 0 then 1 else v ! j)"
  by (simp add: replace_def)

lemma one_le_float_max: "1 \<le> float_max"
proof -
  have "(1::real) \<le> 2 - 1 / 2 ^ 52" by simp
  moreover have "(1::real) \<le> 2 ^ 1023" by (rule one_le_power) simp
  ultimately have "1 * 1 \<le> (2 - 1 / 2 ^ 52) * (2::real) ^ 1023" by (intro mult_mono) simp_all
  then show ?thesis by (simp only: float_max_def mult_1)
qed

lemma finite_double_le: "\<bar>x\<bar> \<le> \<bar>y\<bar> \<Longrightarrow> finite_double y \<Longrightarrow> finite_double x"
  by (simp add: finite_double_def)

lemma finite_double_unit: "\<bar>x\<bar> \<le> 1 \<Longrightarrow> finite_double x"
  using one_le_float_max by (simp add: finite_double_def)

lemma np_finite_cases: "np_finite t = Inr t \<or> np_finite t = Inl Overflow"
  by (simp add: np_finite_def)

lemma np_finite_Inr: "list_all (list_all finite_double) t \<Longrightarrow> np_finite t = Inr t"
  by (simp add: np_finite_def)

lemma no_zero_divisor:
  fixes t :: table and d :: vec
  shows "0 \<notin> set d \<Longrightarrow> \<not> list_ex (\<lambda>r. list_ex (\<lambda>(x, dd). dd = 0) (zip r d)) t"
  by (auto simp: list_ex_iff dest: set_zip_rightD)

text \<open>The row that \<open>scale_frame\<close> computes from a row.\<close>

lemma scale_frame_value:
  assumes "0 \<notin> set d"
  shows "scale_frame t mn d lo hi
           = Inr (map (\<lambda>r. map (\<lambda>x. x + lo) (map (\<lambda>x. x * (hi - lo))
                    (map2 (/) (map2 (-) r mn) d))) t)
         \<or> scale_frame t mn d lo hi = Inl Overflow"
  using no_zero_divisor [OF assms]
  by (simp add: scale_frame_def df_sub_vec_def df_div_vec_def df_mul_scalar_def df_add_scalar_def
      float_sub_def float_finite_def np_finite_def o_def)

lemma scale_frame_returns:
  assumes "0 \<notin> set d"
    and "list_all (\<lambda>r. list_all finite_double (map2 (-) r mn)) t"
    and "list_all (\<lambda>r. list_all finite_double (map2 (/) (map2 (-) r mn) d)) t"
    and "finite_double (hi - lo)"
    and "list_all (\<lambda>r. list_all finite_double (map (\<lambda>x. x * (hi - lo))
           (map2 (/) (map2 (-) r mn) d))) t"
    and "list_all (\<lambda>r. list_all finite_double (map (\<lambda>x. x + lo) (map (\<lambda>x. x * (hi - lo))
           (map2 (/) (map2 (-) r mn) d)))) t"
  shows "scale_frame t mn d lo hi
           = Inr (map (\<lambda>r. map (\<lambda>x. x + lo) (map (\<lambda>x. x * (hi - lo))
                    (map2 (/) (map2 (-) r mn) d))) t)"
  using no_zero_divisor [OF assms(1)] assms(2-)
  by (simp add: scale_frame_def df_sub_vec_def df_div_vec_def df_mul_scalar_def df_add_scalar_def
      float_sub_def float_finite_def np_finite_def o_def list.pred_map)

lemma scaled_row:
  assumes "length r = ncols both"
  shows "map (\<lambda>x. x + lo) (map (\<lambda>x. x * (hi - lo)) (map2 (/) (map2 (-) r (df_min both))
           (replace 0 1 (map2 (-) (df_max both) (df_min both)))))
         = map (\<lambda>j. scaled both lo hi j (r ! j)) [0..<ncols both]"
  using assms by (intro nth_equalityI) (simp_all add: scaled_def divisor_def replace_nth)

lemma scaled_rows_rows:
  assumes "list_all (\<lambda>r. length r = ncols both) t"
  shows "map (\<lambda>r. map (\<lambda>x. x + lo) (map (\<lambda>x. x * (hi - lo)) (map2 (/) (map2 (-) r (df_min both))
           (replace 0 1 (map2 (-) (df_max both) (df_min both)))))) t
         = scaled_rows both lo hi t"
  unfolding scaled_rows_def using assms by (intro map_cong refl scaled_row) (simp add: list_all_iff)

lemma rectangular_append:
  assumes "rectangular (train @ test)"
  shows "list_all (\<lambda>r. length r = ncols (train @ test)) train"
    and "list_all (\<lambda>r. length r = ncols (train @ test)) test"
  using assms by (simp_all add: rectangular_def)

text \<open>\<open>normalize\<close> computes the scaling of the specification, or a value overflows.\<close>

lemma normalize_value:
  assumes rect: "rectangular (train @ test)"
  shows "normalize train (Some test) lo hi
           = Inr (scaled_rows (train @ test) lo hi train, scaled_rows (train @ test) lo hi test,
                  df_min (train @ test), df_max (train @ test))
         \<or> normalize train (Some test) lo hi = Inl Overflow"
proof -
  let ?total = "train @ test"
  let ?d = "replace 0 1 (map2 (-) (df_max ?total) (df_min ?total))"
  have tr: "scale_frame train (df_min ?total) ?d lo hi = Inr (scaled_rows ?total lo hi train)
            \<or> scale_frame train (df_min ?total) ?d lo hi = Inl Overflow"
    using scale_frame_value [OF replace_nonzero, of train "df_min ?total"
        "map2 (-) (df_max ?total) (df_min ?total)" lo hi]
    by (simp only: scaled_rows_rows [OF rectangular_append(1) [OF rect]])
  have te: "scale_frame test (df_min ?total) ?d lo hi = Inr (scaled_rows ?total lo hi test)
            \<or> scale_frame test (df_min ?total) ?d lo hi = Inl Overflow"
    using scale_frame_value [OF replace_nonzero, of test "df_min ?total"
        "map2 (-) (df_max ?total) (df_min ?total)" lo hi]
    by (simp only: scaled_rows_rows [OF rectangular_append(2) [OF rect]])
  show ?thesis
    using tr te
    by (auto simp: normalize_def Let_def series_sub_def series_finite_def)
qed

lemma scaled_steps_finite:
  fixes x mn mx lo hi :: real
  assumes "mn \<le> x" "x \<le> mx" "finite_double (mx - mn)" "finite_double (hi - lo)"
    "finite_double lo" "finite_double hi"
  defines "d \<equiv> (if mx - mn = 0 then 1 else mx - mn)"
  shows "finite_double (x - mn)" "finite_double ((x - mn) / d)"
    "finite_double ((x - mn) / d * (hi - lo))" "finite_double ((x - mn) / d * (hi - lo) + lo)"
    "0 \<le> (x - mn) / d" "(x - mn) / d \<le> 1"
proof -
  define q where "q = (x - mn) / d"
  have d: "0 < d" using assms(1,2) by (simp add: d_def)
  have q0: "0 \<le> q" using assms(1) d by (simp add: q_def)
  have q1: "q \<le> 1" using assms(1,2) d by (simp add: q_def d_def)
  show "0 \<le> (x - mn) / d" "(x - mn) / d \<le> 1" using q0 q1 by (simp_all add: q_def)
  show "finite_double (x - mn)"
    using assms(1,2) by (intro finite_double_le [OF _ assms(3)]) simp
  show "finite_double ((x - mn) / d)"
    using q0 q1 by (intro finite_double_unit) (simp add: q_def)
  have "\<bar>q * (hi - lo)\<bar> = q * \<bar>hi - lo\<bar>" using q0 by (simp add: abs_mult)
  also have "\<dots> \<le> 1 * \<bar>hi - lo\<bar>" using q1 by (intro mult_right_mono) simp_all
  finally show "finite_double ((x - mn) / d * (hi - lo))"
    using assms(4) by (simp add: finite_double_def q_def)
  have "q * (hi - lo) + lo = (1 - q) * lo + q * hi" by (simp add: algebra_simps)
  also have "\<bar>\<dots>\<bar> \<le> \<bar>(1 - q) * lo\<bar> + \<bar>q * hi\<bar>" by (rule abs_triangle_ineq)
  also have "\<dots> = (1 - q) * \<bar>lo\<bar> + q * \<bar>hi\<bar>" using q0 q1 by (simp add: abs_mult)
  also have "\<dots> \<le> (1 - q) * float_max + q * float_max"
    using q0 q1 assms(5,6) by (intro add_mono mult_left_mono) (simp_all add: finite_double_def)
  also have "\<dots> = float_max" by (simp add: algebra_simps)
  finally show "finite_double ((x - mn) / d * (hi - lo) + lo)"
    by (simp add: finite_double_def q_def)
qed


lemma divisor_replace:
  "j < ncols both \<Longrightarrow> replace 0 1 (map2 (-) (df_max both) (df_min both)) ! j = divisor both j"
  by (simp add: replace_nth divisor_def)


lemma within_doubles_column:
  assumes "within_doubles both lo hi" "j < ncols both"
  shows "finite_double (df_max both ! j - df_min both ! j)"
  using assms by (simp add: within_doubles_def list_all_length)

lemma scale_row_finite:
  assumes r: "r \<in> set both" and len: "length r = ncols both" and w: "within_doubles both lo hi"
  shows "list_all finite_double (map2 (-) r (df_min both))"
    and "list_all finite_double (map2 (/) (map2 (-) r (df_min both))
           (replace 0 1 (map2 (-) (df_max both) (df_min both))))"
    and "list_all finite_double (map (\<lambda>x. x * (hi - lo)) (map2 (/) (map2 (-) r (df_min both))
           (replace 0 1 (map2 (-) (df_max both) (df_min both)))))"
    and "list_all finite_double (map (\<lambda>x. x + lo) (map (\<lambda>x. x * (hi - lo))
           (map2 (/) (map2 (-) r (df_min both))
             (replace 0 1 (map2 (-) (df_max both) (df_min both))))))"
proof -
  have fin: "finite_double (hi - lo)" "finite_double lo" "finite_double hi"
    using w by (simp_all add: within_doubles_def)
  have steps: "finite_double (r ! j - df_min both ! j)"
      "finite_double ((r ! j - df_min both ! j) / divisor both j)"
      "finite_double ((r ! j - df_min both ! j) / divisor both j * (hi - lo))"
      "finite_double ((r ! j - df_min both ! j) / divisor both j * (hi - lo) + lo)"
    if j: "j < ncols both" for j
    using scaled_steps_finite(1-4) [OF df_min_le [OF r j] df_max_ge [OF r j]
        within_doubles_column [OF w j] fin]
    by (simp_all add: divisor_def)
  show "list_all finite_double (map2 (-) r (df_min both))"
    using steps(1) len by (simp add: list_all_length)
  show "list_all finite_double (map2 (/) (map2 (-) r (df_min both))
           (replace 0 1 (map2 (-) (df_max both) (df_min both))))"
    using steps(2) len by (simp add: list_all_length divisor_replace)
  show "list_all finite_double (map (\<lambda>x. x * (hi - lo)) (map2 (/) (map2 (-) r (df_min both))
           (replace 0 1 (map2 (-) (df_max both) (df_min both)))))"
    using steps(3) len by (simp add: list_all_length divisor_replace)
  show "list_all finite_double (map (\<lambda>x. x + lo) (map (\<lambda>x. x * (hi - lo))
           (map2 (/) (map2 (-) r (df_min both))
             (replace 0 1 (map2 (-) (df_max both) (df_min both))))))"
    using steps(4) len by (simp add: list_all_length divisor_replace)
qed

lemma list_allI: "(\<And>x. x \<in> set xs \<Longrightarrow> P x) \<Longrightarrow> list_all P xs"
  by (simp add: list_all_iff)

lemma list_all_mapI: "(\<And>x. x \<in> set xs \<Longrightarrow> P (f x)) \<Longrightarrow> list_all P (map f xs)"
  by (simp add: list_all_iff)

lemma scale_frame_scaled_rows:
  assumes sub: "set t \<subseteq> set both" and len: "list_all (\<lambda>r. length r = ncols both) t"
    and w: "within_doubles both lo hi"
  shows "scale_frame t (df_min both) (replace 0 1 (map2 (-) (df_max both) (df_min both))) lo hi
           = Inr (scaled_rows both lo hi t)"
proof -
  have row: "r \<in> set both" "length r = ncols both" if "r \<in> set t" for r
    using that sub len by (auto simp: list_all_iff)
  have "scale_frame t (df_min both) (replace 0 1 (map2 (-) (df_max both) (df_min both))) lo hi
          = Inr (map (\<lambda>r. map (\<lambda>x. x + lo) (map (\<lambda>x. x * (hi - lo))
                   (map2 (/) (map2 (-) r (df_min both))
                      (replace 0 1 (map2 (-) (df_max both) (df_min both)))))) t)"
  proof (rule scale_frame_returns [OF replace_nonzero])
    show "finite_double (hi - lo)" using w by (simp add: within_doubles_def)
  qed (rule list_allI, rule scale_row_finite [OF row w], assumption+)+
  then show ?thesis by (simp only: scaled_rows_rows [OF len])
qed

text \<open>Without an overflow \<open>normalize\<close> returns the scaling of the specification.\<close>

lemma normalize_returns:
  assumes rect: "rectangular (train @ test)" and w: "within_doubles (train @ test) lo hi"
  shows "normalize train (Some test) lo hi
           = Inr (scaled_rows (train @ test) lo hi train, scaled_rows (train @ test) lo hi test,
                  df_min (train @ test), df_max (train @ test))"
proof -
  have "list_all finite_double (map2 (-) (df_max (train @ test)) (df_min (train @ test)))"
    using w by (simp add: within_doubles_def)
  then show ?thesis
    using scale_frame_scaled_rows [OF _ rectangular_append(1) [OF rect] w]
      scale_frame_scaled_rows [OF _ rectangular_append(2) [OF rect] w]
    by (simp add: normalize_def Let_def series_sub_def series_finite_def)
qed

lemma normalize_None: "normalize train None range_min range_max = Inl TypeError"
  by (simp add: normalize_def Let_def)



lemma normalize_Some_cases:
  "(\<exists>new_train new_test.
      normalize train (Some test) lo hi
        = Inr (new_train, new_test, df_min (train @ test), df_max (train @ test))
      \<and> length new_train = length train \<and> length new_test = length test)
   \<or> normalize train (Some test) lo hi = Inl Overflow"
proof -
  let ?d = "replace 0 1 (map2 (-) (df_max (train @ test)) (df_min (train @ test)))"
  from scale_frame_value [OF replace_nonzero, of train "df_min (train @ test)"
      "map2 (-) (df_max (train @ test)) (df_min (train @ test))" lo hi]
  have tr: "(\<exists>t. scale_frame train (df_min (train @ test)) ?d lo hi = Inr t
                \<and> length t = length train)
            \<or> scale_frame train (df_min (train @ test)) ?d lo hi = Inl Overflow"
    by auto
  from scale_frame_value [OF replace_nonzero, of test "df_min (train @ test)"
      "map2 (-) (df_max (train @ test)) (df_min (train @ test))" lo hi]
  have te: "(\<exists>t. scale_frame test (df_min (train @ test)) ?d lo hi = Inr t
                \<and> length t = length test)
            \<or> scale_frame test (df_min (train @ test)) ?d lo hi = Inl Overflow"
    by auto
  show ?thesis
    using tr te by (auto simp: normalize_def Let_def series_sub_def series_finite_def)
qed

lemma denormalize_rows:
  assumes "list_all finite_double (map2 (-) mx mn)" and "finite_double (hi - lo)"
    and "hi - lo \<noteq> 0"
    and "list_all (\<lambda>r. list_all finite_double (map (\<lambda>x. x - lo) r)) y"
    and "list_all (\<lambda>r. list_all finite_double (map (\<lambda>x. x / (hi - lo)) (map (\<lambda>x. x - lo) r))) y"
    and "list_all (\<lambda>r. list_all finite_double (map2 (*) (map (\<lambda>x. x / (hi - lo))
           (map (\<lambda>x. x - lo) r)) (replace 0 1 (map2 (-) mx mn)))) y"
    and "list_all (\<lambda>r. list_all finite_double (map2 (+) (map2 (*) (map (\<lambda>x. x / (hi - lo))
           (map (\<lambda>x. x - lo) r)) (replace 0 1 (map2 (-) mx mn))) mn)) y"
  shows "denormalize y mn mx lo hi
           = Inr (map (\<lambda>r. map2 (+) (map2 (*) (map (\<lambda>x. x / (hi - lo)) (map (\<lambda>x. x - lo) r))
                    (replace 0 1 (map2 (-) mx mn))) mn) y)"
  using assms
  by (simp add: denormalize_def Let_def series_sub_def series_finite_def df_sub_scalar_def
      float_sub_def float_finite_def df_div_scalar_def df_mul_vec_def df_add_vec_def np_finite_def
      list.pred_map o_def)




lemma finite_double_small: "\<bar>x\<bar> \<le> 4 \<Longrightarrow> finite_double x"
proof -
  have "(4::real) = 2 ^ 2" by simp
  also have "\<dots> \<le> 2 ^ 1023" by (rule power_increasing) simp_all
  also have "\<dots> = 1 * 2 ^ 1023" by simp
  also have "\<dots> \<le> (2 - 1 / 2 ^ 52) * 2 ^ 1023" by (intro mult_right_mono) simp_all
  finally have "4 \<le> float_max" by (simp only: float_max_def)
  then show "\<bar>x\<bar> \<le> 4 \<Longrightarrow> finite_double x" by (simp add: finite_double_def)
qed

lemma float_max_less: "float_max < 2 * 2 ^ 1023"
  unfolding float_max_def by (intro mult_strict_right_mono) simp_all

lemma overflow_example: "\<not> finite_double (2 ^ 1023 - - (2 ^ 1023))"
  using float_max_less by (simp add: finite_double_def)












section \<open>Loops and slices\<close>

lemma for_each_append:
  "for_each body (xs @ ys) s = then_do (for_each body xs s) (for_each body ys)"
proof (induction xs arbitrary: s)
  case Nil
  show ?case by simp
next
  case (Cons x xs)
  show ?case by (cases "body x s") (simp_all add: Cons.IH)
qed

lemma for_each_snoc:
  "for_each body (xs @ [x]) s = then_do (for_each body xs s) (body x)"
proof -
  have "for_each body [x] = body x"
    by (rule ext) (simp add: then_do_def split: sum.splits)
  then show ?thesis by (simp add: for_each_append)
qed

lemma for_each_first_raises:
  "body x s = Inl e \<Longrightarrow> for_each body (x # xs) s = Inl e"
  by simp

lemma length_iloc_rows: "length (iloc_rows t start stop) \<le> length t"
proof -
  have "length (take a (drop b t)) \<le> length t" for a b by simp
  then show ?thesis by (simp only: iloc_rows_def Let_def)
qed

lemma iloc_rows_prefix:
  "0 \<le> k \<Longrightarrow> iloc_rows t 0 k = take (nat k) t"
  by (auto simp: iloc_rows_def Let_def min_def)

lemma iloc_rows_suffix:
  "0 \<le> k \<Longrightarrow> length t \<le> n \<Longrightarrow> iloc_rows t k (int n) = drop (nat k) t"
  by (auto simp: iloc_rows_def Let_def min_def)

lemma iloc_rows_all [simp]: "iloc_rows t 0 (int (length t)) = t"
  by (simp add: iloc_rows_def)

lemma create_numerical_multiple_dataset_id [simp]:
  "create_numerical_multiple_dataset train test = (train, test)"
  by (simp add: create_numerical_multiple_dataset_def iloc_rows_def Let_def)

section \<open>Rounding to a double\<close>

lemma py_int_nonneg: "0 \<le> x \<Longrightarrow> py_int x = \<lfloor>x\<rfloor>"
  by (simp add: py_int_def)

lemma round_half_even_nonneg: "0 \<le> x \<Longrightarrow> 0 \<le> round_half_even x"
  by (simp add: round_half_even_def Let_def)

lemma fl_nonneg: "0 \<le> x \<Longrightarrow> 0 \<le> fl x"
  by (simp add: fl_def Let_def round_half_even_nonneg)

lemma floor_log2:
  assumes "2 powi e \<le> x" "x < 2 powi (e + 1)"
  shows "\<lfloor>log 2 x\<rfloor> = e"
proof -
  have "(0::real) < 2 powi e" by simp
  from this assms(1) have x: "0 < x" by (rule less_le_trans)
  have p: "(2::real) powr (of_int k) = 2 powi k" for k by (simp add: powr_real_of_int')
  have "(2::real) powr (of_int e) \<le> x \<and> x < 2 powr (of_int (e + 1))"
    using assms by (simp only: p)
  then show ?thesis using x by (simp only: floor_log_eq_powr_iff [of x 2 e])
qed

text \<open>The double nearest to \<open>x\<close> when \<open>x\<close> lies between \<open>2\<^sup>e\<close> and \<open>2\<^sup>e\<^sup>+\<^sup>1\<close>.\<close>

lemma fl_eval:
  assumes "2 powi e \<le> \<bar>x\<bar>" "\<bar>x\<bar> < 2 powi (e + 1)" "- 1022 \<le> e"
  shows "fl x = of_int (round_half_even (x / 2 powi (e - 52))) * 2 powi (e - 52)"
proof -
  have "\<lfloor>log 2 \<bar>x\<bar>\<rfloor> = e" using assms(1,2) by (rule floor_log2)
  moreover have "(0::real) < 2 powi e" by simp
  from this assms(1) have "0 < \<bar>x\<bar>" by (rule less_le_trans)
  then have "x \<noteq> 0" by simp
  ultimately show ?thesis using assms(3) by (simp add: fl_def Let_def max_def)
qed

lemma fl_ten: "fl 10 = 10"
  using fl_eval [of 3 10] by (simp add: round_half_even_def)

section \<open>Prediction without true targets\<close>

text \<open>
  With a single row of input the loop of \<^verbatim>\<open>predict_values_echo_state_network\<close> never reads
  \<^verbatim>\<open>y_true\<close>: the call with \<^verbatim>\<open>per_time_step=True\<close> and \<^verbatim>\<open>y_true=None\<close> returns a prediction.
\<close>

theorem predict_without_targets_single_row:
  "predict_values_echo_state_network [[0, 0]] [[0]] [[0]] [[0, 0, 0]] (4 / 5) 1 [[1]] None
     [0 :: nat] True = Inr ([0], [[0]])"
  by (simp add: predict_values_echo_state_network_def predict_step_def iloc_row_def
      reservoir_activation_def network_output_def np_dot_vec_def idxmax_row_def)

text \<open>
  Claim C5, amended. With \<^verbatim>\<open>per_time_step=True\<close>, \<^verbatim>\<open>y_true=None\<close> and at least two rows of
  input, \<^verbatim>\<open>predict_values_echo_state_network\<close> raises when time point 1 reads \<^verbatim>\<open>y_true\<close>, and
  returns nothing.
\<close>

theorem predict_without_targets_raises:
  assumes "2 \<le> length X"
  shows "predict_values_echo_state_network Win W Wback Wout a reservoir_size X None cols True
           = Inl AttributeError"
proof -
  from assms have len: "0 < length X" "Suc 0 < length X" by linarith+
  then have "[0..<length X] = 0 # Suc 0 # [Suc (Suc 0)..<length X]"
    by (simp only: upt_conv_Cons)
  then show ?thesis using len
    by (simp add: predict_values_echo_state_network_def predict_step_def iloc_row_def Let_def)
qed

theorem predict_without_targets_raises_witness:
  "2 \<le> length [[1 :: real], [1]] \<and>
   predict_values_echo_state_network [[0, 0]] [[0]] [[0]] [[0, 0, 0]] (4 / 5) 1 [[1], [1]] None
     [0 :: nat] True = Inl AttributeError"
  using predict_without_targets_raises [of "[[1], [1]]" "[[0, 0]]" "[[0]]" "[[0]]" "[[0, 0, 0]]" "4 / 5" 1 "[0 :: nat]"]
  by simp

section \<open>Too few training rows\<close>

lemma initialize_failure:
  assumes "initialize_echo_state_network E g inputs outputs reservoir = Inl e"
  shows "e = ValueError \<or> (\<exists>M. linalg_eig E M = Inl e)"
proof -
  obtain R1 g1 where r1: "np_random_rand E g reservoir (1 + inputs) = (R1, g1)" by fastforce
  obtain R2 g2 where r2: "np_random_rand E g1 reservoir reservoir = (R2, g2)" by fastforce
  obtain R3 g3 where r3: "np_random_rand E g2 reservoir outputs = (R3, g3)" by fastforce
  show ?thesis
  proof (cases "linalg_eig E (np_sub_scalar R2 0.5)")
    case (Inl e')
    with assms r1 r2 r3 have "e' = e"
      by (simp add: initialize_echo_state_network_def)
    with Inl show ?thesis by blast
  next
    case (Inr ev)
    with assms r1 r2 r3 have "e = ValueError"
      by (cases "map cmod ev") (simp_all add: initialize_echo_state_network_def py_max_def)
    then show ?thesis ..
  qed
qed

lemma training_allocation_fails:
  assumes "n_train < 10"
  shows "reservoir_training E Win W Wback a reservoir_size inputs outputs n_train new_train_X
           new_train_y = Inl ValueError"
  using assms by (simp add: reservoir_training_def np_zeros_def washout_period_def)

lemma not_finite_fails:
  assumes "n < 10"
  shows "\<exists>e'. then_do (initialize_echo_state_network E g inputs outputs reservoir_size)
                 (\<lambda>network. then_do (np_zeros (int n - int washout_period) k) (\<lambda>X. Inl e))
                = Inl e'
              \<and> (e' = ValueError \<or> (\<exists>M. linalg_eig E M = Inl e'))"
proof (cases "initialize_echo_state_network E g inputs outputs reservoir_size")
  case (Inl e')
  with initialize_failure [OF Inl] show ?thesis by simp
next
  case (Inr r)
  with assms show ?thesis by (simp add: np_zeros_def washout_period_def)
qed

lemma fixed_fails_on_short_training:
  assumes "length train_X < 10"
  shows "\<exists>e. reservoir_computing_fixed E g train_X train_y test_X test_y reservoir_size a
               per_time_step = Inl e
             \<and> (e = ValueError \<or> e = TypeError \<or> (\<exists>M. linalg_eig E M = Inl e))"
proof (cases test_y)
  case None
  then show ?thesis
    by (simp add: reservoir_computing_fixed_def normalize_None
        create_numerical_single_dataset_def)
next
  case (Some ty)
  have nf: "\<exists>e'. then_do (initialize_echo_state_network E g (ncols train_X) (ncols train_y)
                     reservoir_size)
                   (\<lambda>network. then_do (np_zeros (int (length train_X) - int washout_period)
                      (1 + ncols train_X + reservoir_size)) (\<lambda>X. Inl e))
                = (Inl e' :: failure + ((nat list \<times> nat list \<times> table \<times> table) \<times> 'a))
              \<and> (e' = ValueError \<or> e' = TypeError \<or> (\<exists>M. linalg_eig E M = Inl e'))" for e
    using not_finite_fails [OF assms, of E g "ncols train_X" "ncols train_y" reservoir_size
        "1 + ncols train_X + reservoir_size" e]
    by blast
  from normalize_Some_cases [of train_X test_X 0 1]
  consider (overflow_X) "normalize train_X (Some test_X) 0 1 = Inl Overflow"
    | (value_X) nX tX mnX mxX where
        "normalize train_X (Some test_X) 0 1 = Inr (nX, tX, mnX, mxX)"
    by blast
  then show ?thesis
  proof cases
    case overflow_X
    from normalize_Some_cases [of train_y ty "- 0.9" "0.9"]
    have "normalize train_y (Some ty) (- 0.9) 0.9 \<noteq> Inl TypeError" by auto
    with overflow_X Some nf [of Overflow] show ?thesis
      by (simp add: reservoir_computing_fixed_def)
  next
    case value_X
    from normalize_Some_cases [of train_y ty "- 0.9" "0.9"]
    consider (overflow_y) "normalize train_y (Some ty) (- 0.9) 0.9 = Inl Overflow"
      | (value_y) nY tY mnY mxY where
          "normalize train_y (Some ty) (- 0.9) 0.9 = Inr (nY, tY, mnY, mxY)"
      by blast
    then show ?thesis
    proof cases
      case overflow_y
      with value_X Some nf [of Overflow] show ?thesis
        by (simp add: reservoir_computing_fixed_def)
    next
      case value_y
      show ?thesis
      proof (cases "initialize_echo_state_network E g (ncols nX) (ncols nY) reservoir_size")
        case (Inl e)
        with initialize_failure [OF Inl] Some value_X value_y show ?thesis
          by (auto simp: reservoir_computing_fixed_def)
      next
        case (Inr r)
        then obtain Win W Wback g' where "r = ((Win, W, Wback), g')"
          by (metis surj_pair)
        with Inr Some assms value_X value_y show ?thesis
          by (simp add: reservoir_computing_fixed_def training_allocation_fails)
      qed
    qed
  qed
qed

lemma tuned_combinations:
  "generate_parameter_combinations (map_of tuned_parameters) (map fst tuned_parameters)
     = Inr [[PyFloat 0.6, PyInt 400], [PyFloat 0.6, PyInt 700], [PyFloat 0.6, PyInt 1000],
            [PyFloat 0.8, PyInt 400], [PyFloat 0.8, PyInt 700], [PyFloat 0.8, PyInt 1000]]"
  by (simp add: tuned_parameters_def)

lemma gridsearch_evaluate_fixed:
  "gridsearch_evaluate E trX trY teX teY per_time_step [a, PyInt n] g =
     (if n < 0 then Inl ValueError
      else reservoir_computing_fixed E g trX trY teX (Some teY) (nat n) (py_float a)
             per_time_step)"
  by (simp add: gridsearch_evaluate_def tuned_parameters_def list_index_def py_getitem_def
      py_dimension_def)

lemma gridsearch_fails_on_short_training:
  assumes "length train_X < 10"
  shows "\<exists>e. gridsearch_reservoir_computing E g train_X train_y per_time_step error training_frac = Inl e
             \<and> (e = ValueError \<or> e = TypeError \<or> (\<exists>M. linalg_eig E M = Inl e))"
proof -
  obtain trX teX trY teY where split: "gridsearch_split training_frac train_X train_y = (trX, teX, trY, teY)"
    by (cases "gridsearch_split training_frac train_X train_y") auto
  then have "trX = iloc_rows train_X 0 (py_int (fl (training_frac * real (length train_X))))"
    by (simp add: gridsearch_split_def Let_def)
  then have "length trX < 10"
    using assms
      length_iloc_rows [of train_X 0 "py_int (fl (training_frac * real (length train_X)))"]
    by simp
  from fixed_fails_on_short_training [where train_X = trX and E = E and g = g
      and train_y = trY and test_X = teX and test_y = "Some teY" and reservoir_size = "nat 400"
      and a = "py_float (PyFloat 0.6)" and per_time_step = per_time_step, OF this]
  obtain e where
    e: "reservoir_computing_fixed E g trX trY teX (Some teY) (nat 400) (py_float (PyFloat 0.6))
          per_time_step = Inl e"
      "e = ValueError \<or> e = TypeError \<or> (\<exists>M. linalg_eig E M = Inl e)"
    by blast
  have ev: "gridsearch_evaluate E trX trY teX teY per_time_step [PyFloat 0.6, PyInt 400] g = Inl e"
    by (simp only: gridsearch_evaluate_fixed e) simp
  have step: "gridsearch_step E trX trY teX teY per_time_step error [PyFloat 0.6, PyInt 400]
                (b, c, g) = Inl e" for b c
    by (simp only: gridsearch_step_def prod.case ev then_do_Inl)
  have "gridsearch_reservoir_computing E g train_X train_y per_time_step error training_frac = Inl e"
    by (simp only: gridsearch_reservoir_computing_def tuned_combinations split Let_def
        then_do_Inr prod.case for_each.simps step then_do_Inl)
  with e(2) show ?thesis by blast
qed

text \<open>
  Claim C10, amended. For a training set of fewer than 10 rows the allocation of the result
  matrix of shape \<^verbatim>\<open>(len(train_X.index) - 10, 1 + inputs + reservoir_size)\<close> raises, and
  \<^verbatim>\<open>reservoir_computing\<close>, with or without grid search, ends in an exception (the one of the
  allocation, or an earlier one of \<^verbatim>\<open>normalize\<close> or of the eigenvalue routine): it returns no
  prediction.
\<close>

theorem reservoir_computing_needs_washout_rows:
  assumes "length train_X < 10"
  shows "reservoir_training E Win W Wback a reservoir_size inputs outputs (length train_X)
           new_train_X new_train_y = Inl ValueError
         \<and> (\<exists>e. reservoir_computing E g train_X train_y test_X test_y reservoir_size a
                  per_time_step gridsearch training_frac error = Inl e
                \<and> (e = ValueError \<or> e = TypeError \<or> (\<exists>M. linalg_eig E M = Inl e)))"
proof -
  have alloc: "reservoir_training E Win W Wback a reservoir_size inputs outputs (length train_X)
           new_train_X new_train_y = Inl ValueError"
    using assms by (rule training_allocation_fails)
  have "\<exists>e. reservoir_computing E g train_X train_y test_X test_y reservoir_size a
                  per_time_step gridsearch training_frac error = Inl e
                \<and> (e = ValueError \<or> e = TypeError \<or> (\<exists>M. linalg_eig E M = Inl e))"
  proof (cases gridsearch)
    case True
    from gridsearch_fails_on_short_training [where train_X = train_X and E = E and g = g
        and train_y = train_y and per_time_step = per_time_step and error = error
        and training_frac = training_frac, OF assms]
    obtain e where
      "gridsearch_reservoir_computing E g train_X train_y per_time_step error training_frac = Inl e"
      "e = ValueError \<or> e = TypeError \<or> (\<exists>M. linalg_eig E M = Inl e)"
      by blast
    with True show ?thesis by (simp add: reservoir_computing_def)
  next
    case False
    from fixed_fails_on_short_training [where train_X = train_X and E = E and g = g
        and train_y = train_y and test_X = test_X and test_y = test_y
        and reservoir_size = reservoir_size and a = a and per_time_step = per_time_step, OF assms]
    show ?thesis using False by (simp add: reservoir_computing_def)
  qed
  with alloc show ?thesis by (rule conjI)
qed

theorem reservoir_computing_needs_washout_rows_witness:
  "length [[1 :: real]] < 10 \<and>
   reservoir_training example_externals [[0, 0]] (Some [[0]]) [[0]] (4 / 5) 1 1 1
     (length [[1 :: real]]) [[1]] [[1]] = Inl ValueError \<and>
   (\<exists>e. reservoir_computing example_externals () [[1]] [[1]] [[1]] (Some [[1]]) 1 (4 / 5) False
          True (7 / 10) ''accuracy'' = Inl e
        \<and> (e = ValueError \<or> e = TypeError \<or> (\<exists>M. linalg_eig example_externals M = Inl e)))"
proof -
  have short: "length [[1 :: real]] < 10" by simp
  from reservoir_computing_needs_washout_rows [where train_X = "[[1]]" and E = example_externals
      and Win = "[[0, 0]]" and W = "Some [[0]]" and Wback = "[[0]]" and a = "4 / 5"
      and reservoir_size = 1 and inputs = 1 and outputs = 1 and new_train_X = "[[1]]"
      and new_train_y = "[[1]]" and g = "()" and train_y = "[[1]]" and test_X = "[[1]]"
      and test_y = "Some [[1]]" and per_time_step = False and gridsearch = True
      and training_frac = "7 / 10" and error = "''accuracy''", OF short]
  show ?thesis by (rule conjI [OF short])
qed

section \<open>Exactly ten training rows\<close>

lemma ten_normalize_X:
  "normalize [[0], [1], [0], [1], [0], [1], [0], [1], [0], [1]] (Some [[1]]) 0 1
     = Inr ([[0], [1], [0], [1], [0], [1], [0], [1], [0], [1]], [[1]], [0], [1])"
proof -
  have r: "rectangular ([[0], [1], [0], [1], [0], [1], [0], [1], [0], [1]] @ [[1::real]])"
    by (simp add: rectangular_def ncols_def)
  have w: "within_doubles ([[0], [1], [0], [1], [0], [1], [0], [1], [0], [1]] @ [[1]]) 0 1"
    by (simp add: within_doubles_def df_max_def df_min_def ncols_def column_def upt_rec
      finite_double_small)
  show ?thesis
    by (simp only: normalize_returns [OF r w])
      (simp add: scaled_rows_def scaled_def divisor_def df_max_def df_min_def ncols_def
        column_def upt_rec)
qed

lemma ten_normalize_y:
  "normalize [[0], [1], [0], [1], [0], [1], [0], [1], [0], [1]] (Some [[0]]) (- 0.9) 0.9
     = Inr ([[- 0.9], [0.9], [- 0.9], [0.9], [- 0.9], [0.9], [- 0.9], [0.9], [- 0.9], [0.9]],
            [[- 0.9]], [0], [1])"
proof -
  have r: "rectangular ([[0], [1], [0], [1], [0], [1], [0], [1], [0], [1]] @ [[0::real]])"
    by (simp add: rectangular_def ncols_def)
  have w: "within_doubles ([[0], [1], [0], [1], [0], [1], [0], [1], [0], [1]] @ [[0]]) (- 0.9) 0.9"
    by (simp add: within_doubles_def df_max_def df_min_def ncols_def column_def upt_rec
      finite_double_small)
  show ?thesis
    by (simp only: normalize_returns [OF r w])
      (simp add: scaled_rows_def scaled_def divisor_def df_max_def df_min_def ncols_def
        column_def upt_rec)
qed

lemma ten_init:
  "initialize_echo_state_network example_externals () 1 1 1
     = Inr (([[0, 0]], Some [[0]], [[0]]), ())"
  by (simp add: initialize_echo_state_network_def example_externals_def np_sub_scalar_def
      np_mul_scalar_def py_max_def)

lemma ten_training:
  "reservoir_training example_externals [[0, 0]] (Some [[0]]) [[0]] (4 / 5) 1 1 1 10
     [[0], [1], [0], [1], [0], [1], [0], [1], [0], [1]]
     [[- 0.9], [0.9], [- 0.9], [0.9], [- 0.9], [0.9], [- 0.9], [0.9], [- 0.9], [0.9]]
     = Inr [[0, 0, 0]]"
  by (simp add: reservoir_training_def np_zeros_def washout_period_def iloc_rows_def
      train_step_def iloc_row_def reservoir_activation_def np_dot_vec_def upt_rec
      example_externals_def np_dot_def np_transpose_def column_def)

lemma ten_predict_train:
  "predict_values_echo_state_network [[0, 0]] [[0]] [[0]] [[0, 0, 0]] (4 / 5) 1
     [[0], [1], [0], [1], [0], [1], [0], [1], [0], [1]]
     (Some [[- 0.9], [0.9], [- 0.9], [0.9], [- 0.9], [0.9], [- 0.9], [0.9], [- 0.9], [0.9]])
     [0..<1] False
     = Inr ([0, 0, 0, 0, 0, 0, 0, 0, 0, 0],
            [[0], [0], [0], [0], [0], [0], [0], [0], [0], [0]])"
  by (simp add: predict_values_echo_state_network_def predict_step_def iloc_row_def
      reservoir_activation_def network_output_def np_dot_vec_def upt_rec idxmax_row_def Let_def)

lemma ten_predict_test:
  "predict_values_echo_state_network [[0, 0]] [[0]] [[0]] [[0, 0, 0]] (4 / 5) 1
     [[1]] (Some [[- 0.9]]) [0..<1] False
     = Inr ([0], [[0]])"
  by (simp add: predict_values_echo_state_network_def predict_step_def iloc_row_def
      reservoir_activation_def network_output_def np_dot_vec_def upt_rec idxmax_row_def Let_def)

lemma ten_denormalize:
  "denormalize [[0], [0], [0], [0], [0], [0], [0], [0], [0], [0]] [0] [1] (- 0.9) 0.9
     = Inr [[1 / 2], [1 / 2], [1 / 2], [1 / 2], [1 / 2], [1 / 2], [1 / 2], [1 / 2], [1 / 2],
            [1 / 2]]"
  "denormalize [[0]] [0] [1] (- 0.9) 0.9 = Inr [[1 / 2]]"
  by (simp_all add: denormalize_def series_sub_def series_finite_def replace_def
      df_sub_scalar_def float_sub_def float_finite_def df_div_scalar_def df_mul_vec_def
      df_add_vec_def np_finite_def finite_double_small)

text \<open>
  With exactly 10 training rows the allocation gives a result matrix without rows, the loop
  writes nothing into it, and with a pseudo-inverse routine that accepts such a matrix
  \<^verbatim>\<open>reservoir_computing\<close> returns a prediction.
\<close>

theorem reservoir_computing_ten_rows:
  "reservoir_computing example_externals () [[0], [1], [0], [1], [0], [1], [0], [1], [0], [1]]
     [[0], [1], [0], [1], [0], [1], [0], [1], [0], [1]] [[1]] (Some [[0]]) 1 (4 / 5) False False
     (7 / 10) ''accuracy''
   = Inr (([0, 0, 0, 0, 0, 0, 0, 0, 0, 0], [0],
           [[1 / 2], [1 / 2], [1 / 2], [1 / 2], [1 / 2], [1 / 2], [1 / 2], [1 / 2], [1 / 2],
            [1 / 2]],
           [[1 / 2]]), ())"
proof -
  let ?X = "[[0], [1], [0], [1], [0], [1], [0], [1], [0], [1 :: real]]"
  let ?Y = "[[- 0.9], [0.9], [- 0.9], [0.9], [- 0.9], [0.9], [- 0.9], [0.9], [- 0.9], [0.9 :: real]]"
  have shape: "ncols ?X = 1" "ncols ?Y = 1" "length ?X = 10" by (simp_all add: ncols_def)
  have init: "initialize_echo_state_network example_externals () (ncols ?X) (ncols ?Y) 1
                = Inr (([[0, 0]], Some [[0]], [[0]]), ())"
    by (simp only: shape ten_init)
  have train: "reservoir_training example_externals [[0, 0]] (Some [[0]]) [[0]] (4 / 5) 1
                 (ncols ?X) (ncols ?Y) (length ?X) ?X ?Y = Inr [[0, 0, 0]]"
    by (simp only: shape ten_training)
  have p1: "predict_values_echo_state_network [[0, 0]] [[0]] [[0]] [[0, 0, 0]] (4 / 5) 1 ?X
              (Some ?Y) [0..<ncols ?Y] False
              = Inr ([0, 0, 0, 0, 0, 0, 0, 0, 0, 0],
                     [[0], [0], [0], [0], [0], [0], [0], [0], [0], [0]])"
    by (simp only: shape ten_predict_train)
  have p2: "predict_values_echo_state_network [[0, 0]] [[0]] [[0]] [[0, 0, 0]] (4 / 5) 1
              [[1]] (Some [[- 0.9]]) [0..<ncols ?Y] False = Inr ([0], [[0]])"
    by (simp only: shape ten_predict_test)
  show ?thesis
    by (simp only: reservoir_computing_def if_False reservoir_computing_fixed_def
        create_numerical_multiple_dataset_id prod.case Let_def option.case ten_normalize_X
        ten_normalize_y init train p1 p2 ten_denormalize then_do_Inr sum.case sum.inject
        failure.distinct sum.distinct)
qed

section \<open>Runs that return\<close>

lemma upt_snoc: "[0..<Suc m] = [0..<m] @ [m]"
  by simp

lemma train_loop_returns:
  assumes y: "n \<le> length new_train_y + 1" and u: "n \<le> length new_train_X"
    and x: "n \<le> length X0 + washout_period"
  shows "\<exists>X x. for_each (train_step Win W Wback a new_train_X new_train_y outputs) [0..<n] (X0, x0)
                 = Inr (X, x) \<and> length X = length X0"
  using assms
proof (induction n)
  case 0
  show ?case by simp
next
  case (Suc m)
  then obtain X x where
    run: "for_each (train_step Win W Wback a new_train_X new_train_y outputs) [0..<m] (X0, x0)
            = Inr (X, x)" and len: "length X = length X0"
    by fastforce
  from Suc.prems len have
    "\<exists>X' x'. train_step Win W Wback a new_train_X new_train_y outputs m (X, x) = Inr (X', x')
             \<and> length X' = length X0"
    by (auto simp: train_step_def iloc_row_def Let_def)
  then show ?case
    by (simp only: upt_snoc for_each_snoc run then_do_Inr)
qed

lemma length_network_output [simp]: "length (network_output Wout u x) = length Wout"
  by (simp add: network_output_def np_dot_vec_def)

lemma abs_tanh_le_one: "\<bar>tanh (x :: real)\<bar> \<le> 1"
  using tanh_real_lt_1 [of x] tanh_real_gt_neg1 [of x] by simp

lemma network_output_unit: "list_all (\<lambda>v. \<bar>v\<bar> \<le> 1) (network_output Wout u x)"
  by (simp add: network_output_def list_all_iff abs_tanh_le_one)

lemma predict_loop_returns:
  assumes y: "per_time_step \<longrightarrow> n \<le> length yt + 1" and u: "n \<le> length X"
  shows "\<exists>x y Y. for_each (predict_step Win W Wback Wout a X (Some yt) cols per_time_step) [0..<n]
                   (x0, None, []) = Inr (x, y, Y)
               \<and> length Y = n \<and> (\<forall>r \<in> set Y. length r = length Wout) \<and> (0 < n \<longrightarrow> y \<noteq> None)
               \<and> list_all (list_all (\<lambda>v. \<bar>v\<bar> \<le> 1)) Y"
  using assms
proof (induction n)
  case 0
  show ?case by simp
next
  case (Suc m)
  then obtain x y Y where
    run: "for_each (predict_step Win W Wback Wout a X (Some yt) cols per_time_step) [0..<m]
            (x0, None, []) = Inr (x, y, Y)"
    and inv: "length Y = m" "\<forall>r \<in> set Y. length r = length Wout" "0 < m \<longrightarrow> y \<noteq> None"
      "list_all (list_all (\<lambda>v. \<bar>v\<bar> \<le> 1)) Y"
    by fastforce
  have "per_time_step \<longrightarrow> 0 < m \<longrightarrow> m - 1 < length yt" using Suc.prems by auto
  with Suc.prems inv have
    "\<exists>x' y' Y'. predict_step Win W Wback Wout a X (Some yt) cols per_time_step m (x, y, Y)
                  = Inr (x', y', Y')
              \<and> length Y' = Suc m \<and> (\<forall>r \<in> set Y'. length r = length Wout) \<and> y' \<noteq> None
              \<and> list_all (list_all (\<lambda>v. \<bar>v\<bar> \<le> 1)) Y'"
    by (auto simp: predict_step_def iloc_row_def Let_def network_output_unit)
  then show ?case
    by (simp only: upt_snoc for_each_snoc run then_do_Inr) blast
qed

lemma idxmax_returns:
  assumes "\<forall>r \<in> set Y. r \<noteq> []"
  shows "\<exists>labels. idxmax cols Y = Inr labels"
  using assms by (induction Y) (auto simp: idxmax_row_def)

lemma predict_returns:
  assumes "per_time_step \<longrightarrow> length X \<le> length yt + 1" and "Wout \<noteq> []"
  shows "\<exists>labels Y. predict_values_echo_state_network Win W Wback Wout a reservoir_size X (Some yt)
                      cols per_time_step = Inr (labels, Y)
                   \<and> list_all (list_all (\<lambda>v. \<bar>v\<bar> \<le> 1)) Y"
proof -
  from predict_loop_returns [where n = "length X" and X = X, OF assms(1) order_refl]
  obtain x y Y where
    run: "for_each (predict_step Win W Wback Wout a X (Some yt) cols per_time_step) [0..<length X]
            (replicate reservoir_size 0, None, []) = Inr (x, y, Y)"
    and rows: "\<forall>r \<in> set Y. length r = length Wout"
    and unit: "list_all (list_all (\<lambda>v. \<bar>v\<bar> \<le> 1)) Y"
    by blast
  from rows assms(2) have "\<forall>r \<in> set Y. r \<noteq> []" by auto
  then obtain labels where "idxmax cols Y = Inr labels"
    using idxmax_returns by blast
  with run unit show ?thesis
    by (simp add: predict_values_echo_state_network_def)
qed

lemma in_set_map2E:
  assumes "v \<in> set (map2 f xs ys)"
  obtains a b where "a \<in> set xs" "b \<in> set ys" "v = f a b"
  using assms by (auto dest: set_zip_leftD set_zip_rightD)

lemma in_set_map_mapE:
  assumes "a \<in> set (map g (map h r))"
  obtains v0 where "v0 \<in> set r" "a = g (h v0)"
  using assms by auto

lemma list_all_map2I:
  assumes "\<And>a b. a \<in> set xs \<Longrightarrow> b \<in> set ys \<Longrightarrow> P (f a b)"
  shows "list_all P (map2 f xs ys)"
  using assms by (auto simp: list_all_iff dest: set_zip_leftD set_zip_rightD)

text \<open>
  \<^verbatim>\<open>denormalize\<close> with the bounds -0.9 and 0.9 of \<^verbatim>\<open>reservoir_computing\<close> returns for outputs
  of the network, which lie between -1 and 1, when the minimum and the maximum of every
  column lie between -1 and 1 as well.
\<close>

lemma denormalize_returns:
  assumes y: "list_all (list_all (\<lambda>v. \<bar>v\<bar> \<le> 1)) y"
    and mn: "list_all (\<lambda>v. \<bar>v\<bar> \<le> 1) minimum" and mx: "list_all (\<lambda>v. \<bar>v\<bar> \<le> 1) maximum"
  shows "\<exists>t. denormalize y minimum maximum (- 0.9) 0.9 = Inr t"
proof -
  let ?d = "replace 0 1 (map2 (-) maximum minimum)"
  have m: "\<bar>v\<bar> \<le> 1" if "v \<in> set minimum" for v using that mn by (simp add: list_all_iff)
  have M: "\<bar>v\<bar> \<le> 1" if "v \<in> set maximum" for v using that mx by (simp add: list_all_iff)
  have x: "\<bar>v\<bar> \<le> 1" if "r \<in> set y" "v \<in> set r" for r v
    using that y by (auto simp: list_all_iff)
  have d: "\<bar>v\<bar> \<le> 2" if "v \<in> set ?d" for v
  proof -
    from that have "v = 1 \<or> v \<in> set (map2 (-) maximum minimum)"
      by (auto simp: replace_def)
    then show ?thesis
    proof
      assume "v = 1" then show ?thesis by simp
    next
      assume "v \<in> set (map2 (-) maximum minimum)"
      then obtain a b where "v = a - b" "a \<in> set maximum" "b \<in> set minimum"
        by (auto dest: set_zip_leftD set_zip_rightD)
      with m [of b] M [of a] show ?thesis by simp
    qed
  qed
  have b: "\<bar>(v - - 0.9) / (0.9 - - 0.9)\<bar> \<le> 19 / 18" if "r \<in> set y" "v \<in> set r" for r v
  proof -
    have e: "(v - - 0.9) / (0.9 - - 0.9) = (v + 9 / 10) * (5 / 9)" by (simp add: field_simps)
    have "- 1 \<le> v" "v \<le> 1" using x [OF that] by (simp_all add: abs_le_iff)
    then have "(v + 9 / 10) * (5 / 9) \<le> 19 / 18" "- (19 / 18) \<le> (v + 9 / 10) * (5 / 9)"
      by (simp_all add: algebra_simps)
    then show ?thesis unfolding e by (simp only: abs_le_iff minus_le_iff)
  qed
  have c': "\<bar>(v - - 0.9) / (0.9 - - 0.9) * w\<bar> \<le> 19 / 9"
    if "r \<in> set y" "v \<in> set r" "w \<in> set ?d" for r v w
  proof -
    have "\<bar>(v - - 0.9) / (0.9 - - 0.9) * w\<bar> = \<bar>(v - - 0.9) / (0.9 - - 0.9)\<bar> * \<bar>w\<bar>"
      by (rule abs_mult)
    also have "\<dots> \<le> 19 / 18 * 2"
      using b [OF that(1,2)] d [OF that(3)] by (intro mult_mono) simp_all
    finally show ?thesis by simp
  qed
  have c: "\<bar>(v - - 0.9) / (0.9 - - 0.9) * w\<bar> \<le> 4" if "r \<in> set y" "v \<in> set r" "w \<in> set ?d"
    for r v w
    using c' [OF that] by simp
  have "denormalize y minimum maximum (- 0.9) 0.9
          = Inr (map (\<lambda>r. map2 (+) (map2 (*) (map (\<lambda>x. x / (0.9 - - 0.9))
                   (map (\<lambda>x. x - - 0.9) r)) ?d) minimum) y)"
  proof (rule denormalize_rows)
    show "list_all finite_double (map2 (-) maximum minimum)"
    proof (rule list_all_map2I)
      fix a b :: real assume "a \<in> set maximum" "b \<in> set minimum"
      with m [of b] M [of a] show "finite_double (a - b)"
        by (intro finite_double_small) simp
    qed
    show "finite_double (0.9 - - 0.9)" by (intro finite_double_small) simp
    show "(0.9 :: real) - - 0.9 \<noteq> 0" by simp
    show "list_all (\<lambda>r. list_all finite_double (map (\<lambda>x. x - - 0.9) r)) y"
    proof (rule list_allI, rule list_all_mapI)
      fix r v assume "r \<in> set y" "v \<in> set r"
      from x [OF this] show "finite_double (v - - 0.9)"
        by (intro finite_double_small) simp
    qed
    show "list_all (\<lambda>r. list_all finite_double (map (\<lambda>x. x / (0.9 - - 0.9))
            (map (\<lambda>x. x - - 0.9) r))) y"
    proof (rule list_allI, rule list_all_mapI)
      fix r v assume "r \<in> set y" "v \<in> set (map (\<lambda>x. x - - 0.9) r)"
      then obtain v0 where "v0 \<in> set r" "v = v0 - - 0.9" by auto
      then have "\<bar>v / (0.9 - - 0.9)\<bar> \<le> 19 / 18"
        using b [OF \<open>r \<in> set y\<close>, of v0] by (simp only:)
      then show "finite_double (v / (0.9 - - 0.9))"
        by (intro finite_double_small) simp
    qed
    show "list_all (\<lambda>r. list_all finite_double (map2 (*) (map (\<lambda>x. x / (0.9 - - 0.9))
            (map (\<lambda>x. x - - 0.9) r)) ?d)) y"
    proof (rule list_allI, rule list_all_map2I)
      fix r v w
      assume "r \<in> set y" "v \<in> set (map (\<lambda>x. x / (0.9 - - 0.9)) (map (\<lambda>x. x - - 0.9) r))"
        "w \<in> set ?d"
      then obtain v0 where v0: "v0 \<in> set r" "v = (v0 - - 0.9) / (0.9 - - 0.9)" by auto
      have "\<bar>v * w\<bar> \<le> 4"
        unfolding v0(2) by (rule c [OF \<open>r \<in> set y\<close> v0(1) \<open>w \<in> set ?d\<close>])
      then show "finite_double (v * w)" by (rule finite_double_small)
    qed
    show "list_all (\<lambda>r. list_all finite_double (map2 (+) (map2 (*) (map (\<lambda>x. x / (0.9 - - 0.9))
            (map (\<lambda>x. x - - 0.9) r)) ?d) minimum)) y"
    proof (rule list_allI, rule list_all_map2I)
      fix r v w
      assume r: "r \<in> set y"
        and "v \<in> set (map2 (*) (map (\<lambda>x. x / (0.9 - - 0.9)) (map (\<lambda>x. x - - 0.9) r)) ?d)"
        and w: "w \<in> set minimum"
      from this(2) obtain a w0 where
        a: "a \<in> set (map (\<lambda>x. x / (0.9 - - 0.9)) (map (\<lambda>x. x - - 0.9) r))"
        and w0: "w0 \<in> set ?d" and va: "v = a * w0"
        by (rule in_set_map2E)
      from a obtain v0 where v0: "v0 \<in> set r" and av: "a = (v0 - - 0.9) / (0.9 - - 0.9)"
        by (rule in_set_map_mapE)
      have v: "v = (v0 - - 0.9) / (0.9 - - 0.9) * w0" unfolding va av ..
      have "\<bar>v + w\<bar> \<le> \<bar>v\<bar> + \<bar>w\<bar>" by (rule abs_triangle_ineq)
      also have "\<dots> \<le> 19 / 9 + 1"
        using c' [OF r v0 w0] m [OF w] unfolding v by (rule add_mono)
      finally show "finite_double (v + w)" by (intro finite_double_small) simp
    qed
  qed
  then show ?thesis by blast
qed

lemma df_min_max_unit:
  assumes rect: "rectangular t" and unit: "list_all (list_all (\<lambda>v. \<bar>v\<bar> \<le> 1)) t"
  shows "list_all (\<lambda>v. \<bar>v\<bar> \<le> 1) (df_min t)" and "list_all (\<lambda>v. \<bar>v\<bar> \<le> 1) (df_max t)"
proof -
  have entry: "\<bar>v\<bar> \<le> 1" if "j < ncols t" "v \<in> set (column t j)" for j v
  proof -
    from that(2) obtain r where r: "r \<in> set t" "v = r ! j" by (auto simp: column_def)
    then have "j < length r" using rect that(1) by (simp add: rectangular_row)
    then have "v \<in> set r" using r(2) by simp
    with r(1) unit show ?thesis by (auto simp: list_all_iff)
  qed
  have ne: "column t j \<noteq> []" if "j < ncols t" for j
    using that by (cases t) (simp_all add: column_def ncols_def)
  have "\<bar>Min (set (column t j))\<bar> \<le> 1" "\<bar>Max (set (column t j))\<bar> \<le> 1" if j: "j < ncols t" for j
    using entry [OF j] Min_in [of "set (column t j)"] Max_in [of "set (column t j)"] ne [OF j]
    by simp_all
  then show "list_all (\<lambda>v. \<bar>v\<bar> \<le> 1) (df_min t)" "list_all (\<lambda>v. \<bar>v\<bar> \<le> 1) (df_max t)"
    by (simp_all add: df_min_def df_max_def list_all_length)
qed

lemma within_doubles_unit:
  assumes rect: "rectangular t" and unit: "list_all (list_all (\<lambda>v. \<bar>v\<bar> \<le> 1)) t"
    and lo: "\<bar>lo\<bar> \<le> 1" and hi: "\<bar>hi\<bar> \<le> 1"
  shows "within_doubles t lo hi"
proof -
  note mm = df_min_max_unit [OF rect unit]
  have "list_all finite_double (map2 (-) (df_max t) (df_min t))"
  proof (rule list_all_map2I)
    fix a b :: real assume "a \<in> set (df_max t)" "b \<in> set (df_min t)"
    with mm have "\<bar>a\<bar> \<le> 1" "\<bar>b\<bar> \<le> 1" by (auto simp: list_all_iff)
    then show "finite_double (a - b)" by (intro finite_double_small) simp
  qed
  moreover have "finite_double (hi - lo)" "finite_double lo" "finite_double hi"
    using lo hi by (intro finite_double_small, simp)+
  ultimately show ?thesis by (simp add: within_doubles_def)
qed

lemma length_scaled_rows [simp]: "length (scaled_rows both lo hi t) = length t"
  by (simp add: scaled_rows_def)

lemma ncols_scaled_rows: "t \<noteq> [] \<Longrightarrow> ncols (scaled_rows both lo hi t) = ncols both"
  by (cases t) (simp_all add: scaled_rows_def ncols_def)

lemma initialize_returns:
  assumes "\<And>M. linalg_eig E M = Inr [1]"
  shows "\<exists>Win W Wback g'. initialize_echo_state_network E g inputs outputs reservoir
                             = Inr ((Win, Some W, Wback), g')"
proof -
  obtain R1 g1 where r1: "np_random_rand E g reservoir (1 + inputs) = (R1, g1)" by fastforce
  obtain R2 g2 where r2: "np_random_rand E g1 reservoir reservoir = (R2, g2)" by fastforce
  obtain R3 g3 where r3: "np_random_rand E g2 reservoir outputs = (R3, g3)" by fastforce
  show ?thesis
    by (simp only: initialize_echo_state_network_def r1 r2 r3 Let_def prod.case assms
        then_do_Inr) (simp add: py_max_def)
qed

lemma training_returns:
  assumes pinv: "\<And>k M. \<exists>P. linalg_pinv E k M = Inr P"
    and n: "10 \<le> length new_train_X" and y: "length new_train_X \<le> length new_train_y + 1"
  shows "\<exists>Wout. reservoir_training E Win (Some W) Wback a reservoir_size inputs outputs
                   (length new_train_X) new_train_X new_train_y = Inr Wout
               \<and> length Wout = outputs"
proof -
  define X0 :: matrix where
    "X0 = replicate (length new_train_X - 10) (replicate (1 + inputs + reservoir_size) 0)"
  have alloc: "np_zeros (int (length new_train_X) - int washout_period)
                 (1 + inputs + reservoir_size) = Inr X0"
    using n by (simp add: np_zeros_def washout_period_def X0_def nat_diff_distrib')
  have "length new_train_X \<le> length X0 + washout_period"
    using n by (simp add: X0_def washout_period_def)
  from train_loop_returns [OF y order_refl this]
  obtain X x where
    run: "for_each (train_step Win W Wback a new_train_X new_train_y outputs)
            [0..<length new_train_X] (X0, replicate reservoir_size 0) = Inr (X, x)"
    by blast
  obtain P where p: "linalg_pinv E (1 + inputs + reservoir_size) X = Inr P"
    using pinv by blast
  show ?thesis
    by (simp only: reservoir_training_def alloc Let_def then_do_Inr option.case run prod.case p)
      (simp add: np_transpose_def)
qed

lemma fixed_returns:
  assumes eig: "\<And>M. linalg_eig E M = Inr [1]"
    and pinv: "\<And>k M. \<exists>P. linalg_pinv E k M = Inr P"
    and n: "10 \<le> length train_X" and ty: "length train_y = length train_X"
    and te: "length test_y = length test_X" and cols: "0 < ncols train_y"
    and rX: "rectangular (train_X @ test_X)"
    and uX: "list_all (list_all (\<lambda>v. \<bar>v\<bar> \<le> 1)) (train_X @ test_X)"
    and ry: "rectangular (train_y @ test_y)"
    and uy: "list_all (list_all (\<lambda>v. \<bar>v\<bar> \<le> 1)) (train_y @ test_y)"
  shows "\<exists>out g'. reservoir_computing_fixed E g train_X train_y test_X (Some test_y)
                    reservoir_size a per_time_step = Inr (out, g')"
proof -
  define nX where "nX = scaled_rows (train_X @ test_X) 0 1 train_X"
  define tX where "tX = scaled_rows (train_X @ test_X) 0 1 test_X"
  define nY where "nY = scaled_rows (train_y @ test_y) (- 0.9) 0.9 train_y"
  define tY where "tY = scaled_rows (train_y @ test_y) (- 0.9) 0.9 test_y"
  define mnY where "mnY = df_min (train_y @ test_y)"
  define mxY where "mxY = df_max (train_y @ test_y)"
  have nx: "normalize train_X (Some test_X) 0 1
              = Inr (nX, tX, df_min (train_X @ test_X), df_max (train_X @ test_X))"
    unfolding nX_def tX_def
    by (rule normalize_returns [OF rX]) (rule within_doubles_unit [OF rX uX], simp_all)
  have ny: "normalize train_y (Some test_y) (- 0.9) 0.9 = Inr (nY, tY, mnY, mxY)"
    unfolding nY_def tY_def mnY_def mxY_def
    by (rule normalize_returns [OF ry]) (rule within_doubles_unit [OF ry uy], simp_all)
  have lx: "length nX = length train_X" "length tX = length test_X"
    and ly: "length nY = length train_y" "length tY = length test_y"
    by (simp_all add: nX_def tX_def nY_def tY_def)
  have "train_y \<noteq> []" using n ty by auto
  then have "ncols nY = ncols (train_y @ test_y)" "ncols (train_y @ test_y) = ncols train_y"
    unfolding nY_def by (simp add: ncols_scaled_rows, cases train_y, simp_all add: ncols_def)
  then have out: "0 < ncols nY" using cols by simp
  obtain Win W Wback g' where
    init: "initialize_echo_state_network E g (ncols nX) (ncols nY) reservoir_size
             = Inr ((Win, Some W, Wback), g')"
    using initialize_returns [OF eig] by blast
  have "10 \<le> length nX" "length nX \<le> length nY + 1" using n ty lx ly by simp_all
  from training_returns [OF pinv this]
  obtain Wout where
    "reservoir_training E Win (Some W) Wback a reservoir_size (ncols nX) (ncols nY)
       (length nX) nX nY = Inr Wout"
    and lw: "length Wout = ncols nY"
    by blast
  then have train: "reservoir_training E Win (Some W) Wback a reservoir_size (ncols nX)
                      (ncols nY) (length train_X) nX nY = Inr Wout"
    using lx by simp
  have w: "Wout \<noteq> []" using lw out by auto
  have "per_time_step \<longrightarrow> length nX \<le> length nY + 1" using ty lx ly by simp
  from predict_returns [OF this w]
  obtain l1 Y1 where
    p1: "predict_values_echo_state_network Win W Wback Wout a reservoir_size nX (Some nY)
           [0..<ncols nY] per_time_step = Inr (l1, Y1)"
    and u1: "list_all (list_all (\<lambda>v. \<bar>v\<bar> \<le> 1)) Y1"
    by blast
  have "per_time_step \<longrightarrow> length tX \<le> length tY + 1" using te lx ly by simp
  from predict_returns [OF this w]
  obtain l2 Y2 where
    p2: "predict_values_echo_state_network Win W Wback Wout a reservoir_size tX (Some tY)
           [0..<ncols nY] per_time_step = Inr (l2, Y2)"
    and u2: "list_all (list_all (\<lambda>v. \<bar>v\<bar> \<le> 1)) Y2"
    by blast
  note mm = df_min_max_unit [OF ry uy, folded mnY_def mxY_def]
  obtain D1 where d1: "denormalize Y1 mnY mxY (- 0.9) 0.9 = Inr D1"
    using denormalize_returns [OF u1 mm] by blast
  obtain D2 where d2: "denormalize Y2 mnY mxY (- 0.9) 0.9 = Inr D2"
    using denormalize_returns [OF u2 mm] by blast
  show ?thesis
    by (simp only: reservoir_computing_fixed_def create_numerical_multiple_dataset_id prod.case
        Let_def option.case nx ny init train p1 p2 d1 d2 then_do_Inr sum.case sum.inject
        failure.distinct sum.distinct if_False) blast
qed

section \<open>The loop of the grid search\<close>

lemma length_gridsearch_outcomes:
  "gridsearch_outcomes E trX trY teX teY pts combs g = Inr (outs, g') \<Longrightarrow> length outs = length combs"
proof (induction combs arbitrary: outs g)
  case Nil
  then show ?case by simp
next
  case (Cons c cs)
  then show ?case
    by (auto simp: then_do_eq_Inr split: prod.splits)
qed

lemma gridsearch_step_score:
  assumes "gridsearch_evaluate E trX trY teX teY pts comb g = Inr (out, g')"
  shows "gridsearch_step E trX trY teX teY pts error comb (best_error, best_combination, g) =
           (if error = ''mse'' \<or> error = ''accuracy'' then
              (case best_error of
                 None \<Rightarrow> Inl UnboundLocalError
               | Some b \<Rightarrow>
                   if improves error (validation_score E error teY out) b
                   then Inr (Some (validation_score E error teY out), comb, g')
                   else Inr (best_error, best_combination, g'))
            else Inr (best_error, best_combination, g'))"
  by (cases out)
    (simp add: gridsearch_step_def assms validation_score_def improves_def split: option.splits)

lemma gridsearch_step_raises:
  assumes "gridsearch_evaluate E trX trY teX teY pts comb g = Inl e"
  shows "gridsearch_step E trX trY teX teY pts error comb (best_error, best_combination, g) = Inl e"
  by (simp add: gridsearch_step_def assms)

lemma gridsearch_loop_raises:
  assumes "gridsearch_outcomes E trX trY teX teY pts combs g = Inl e"
    and "best_error \<noteq> None \<or> (error \<noteq> ''mse'' \<and> error \<noteq> ''accuracy'')"
  shows "for_each (gridsearch_step E trX trY teX teY pts error) combs
           (best_error, best_combination, g) = Inl e"
  using assms
proof (induction combs arbitrary: best_error best_combination g)
  case Nil
  then show ?case by simp
next
  case (Cons c cs)
  show ?case
  proof (cases "gridsearch_evaluate E trX trY teX teY pts c g")
    case (Inl e')
    with Cons.prems(1) have "e' = e" by simp
    with Inl show ?thesis by (simp add: gridsearch_step_raises)
  next
    case (Inr r)
    obtain out g1 where r: "r = (out, g1)" by (cases r)
    with Inr Cons.prems(1) have rest: "gridsearch_outcomes E trX trY teX teY pts cs g1 = Inl e"
      by (cases "gridsearch_outcomes E trX trY teX teY pts cs g1") (auto split: prod.splits)
    have ev: "gridsearch_evaluate E trX trY teX teY pts c g = Inr (out, g1)"
      using Inr r by simp
    from Cons.prems(2) have
      "\<exists>be bc. gridsearch_step E trX trY teX teY pts error c (best_error, best_combination, g)
                 = Inr (be, bc, g1)
             \<and> (be \<noteq> None \<or> (error \<noteq> ''mse'' \<and> error \<noteq> ''accuracy''))"
      by (auto simp: gridsearch_step_score [OF ev])
    then obtain be bc where
      "gridsearch_step E trX trY teX teY pts error c (best_error, best_combination, g)
         = Inr (be, bc, g1)"
      "be \<noteq> None \<or> (error \<noteq> ''mse'' \<and> error \<noteq> ''accuracy'')"
      by blast
    with Cons.IH [OF rest] show ?thesis by simp
  qed
qed

lemma gridsearch_loop_keeps:
  assumes "gridsearch_outcomes E trX trY teX teY pts combs g = Inr (outs, g')"
    and "(error \<noteq> ''mse'' \<and> error \<noteq> ''accuracy'') \<or>
         (\<exists>b. best_error = Some b \<and>
              (\<forall>out \<in> set outs. \<not> improves error (validation_score E error teY out) b))"
  shows "for_each (gridsearch_step E trX trY teX teY pts error) combs
           (best_error, best_combination, g) = Inr (best_error, best_combination, g')"
  using assms
proof (induction combs arbitrary: outs g)
  case Nil
  then show ?case by simp
next
  case (Cons c cs)
  from Cons.prems(1) obtain out g1 outs' where
    ev: "gridsearch_evaluate E trX trY teX teY pts c g = Inr (out, g1)"
    and rest: "gridsearch_outcomes E trX trY teX teY pts cs g1 = Inr (outs', g')"
    and outs: "outs = out # outs'"
    by (auto simp: then_do_eq_Inr split: prod.splits)
  from Cons.prems(2) outs have
    "gridsearch_step E trX trY teX teY pts error c (best_error, best_combination, g)
       = Inr (best_error, best_combination, g1)"
    by (auto simp: gridsearch_step_score [OF ev])
  moreover from Cons.prems(2) outs have
    "(error \<noteq> ''mse'' \<and> error \<noteq> ''accuracy'') \<or>
     (\<exists>b. best_error = Some b \<and>
          (\<forall>out \<in> set outs'. \<not> improves error (validation_score E error teY out) b))"
    by auto
  ultimately show ?case using Cons.IH [OF rest] by simp
qed

lemma gridsearch_loop_first_best:
  assumes "error = ''mse'' \<or> error = ''accuracy''"
    and "gridsearch_outcomes E trX trY teX teY pts combs g = Inr (outs, g')"
    and "i < length combs"
    and "improves error (validation_score E error teY (outs ! i)) b"
    and "\<forall>j < length combs. \<not> improves error (validation_score E error teY (outs ! j))
                                (validation_score E error teY (outs ! i))"
    and "\<forall>j < i. validation_score E error teY (outs ! j) \<noteq> validation_score E error teY (outs ! i)"
  shows "for_each (gridsearch_step E trX trY teX teY pts error) combs (Some b, c0, g)
           = Inr (Some (validation_score E error teY (outs ! i)), combs ! i, g')"
  using assms(2-)
proof (induction combs arbitrary: outs g i b c0)
  case Nil
  then show ?case by simp
next
  case (Cons c cs)
  let ?sc = "validation_score E error teY"
  from Cons.prems(1) obtain out g1 outs' where
    ev: "gridsearch_evaluate E trX trY teX teY pts c g = Inr (out, g1)"
    and rest: "gridsearch_outcomes E trX trY teX teY pts cs g1 = Inr (outs', g')"
    and outs: "outs = out # outs'"
    by (auto simp: then_do_eq_Inr split: prod.splits)
  have len: "length outs' = length cs" using rest by (rule length_gridsearch_outcomes)
  show ?case
  proof (cases i)
    case 0
    with Cons.prems outs have step:
      "gridsearch_step E trX trY teX teY pts error c (Some b, c0, g) = Inr (Some (?sc out), c, g1)"
      using assms(1) by (simp add: gridsearch_step_score [OF ev])
    have "\<forall>r \<in> set outs'. \<not> improves error (?sc r) (?sc out)"
    proof
      fix r assume "r \<in> set outs'"
      then obtain j where "j < length outs'" "outs' ! j = r" by (auto simp: in_set_conv_nth)
      with Cons.prems(4) [rule_format, of "Suc j"] 0 outs len
      show "\<not> improves error (?sc r) (?sc out)" by simp
    qed
    then have "for_each (gridsearch_step E trX trY teX teY pts error) cs (Some (?sc out), c, g1)
                 = Inr (Some (?sc out), c, g')"
      using gridsearch_loop_keeps [OF rest] by blast
    with step 0 outs show ?thesis by simp
  next
    case (Suc k)
    have k: "k < length cs" using Cons.prems(2) Suc by simp
    have best: "\<forall>j < length cs. \<not> improves error (?sc (outs' ! j)) (?sc (outs' ! k))"
      using Cons.prems(4) Suc outs by auto
    have first: "\<forall>j < k. ?sc (outs' ! j) \<noteq> ?sc (outs' ! k)"
      using Cons.prems(5) Suc outs by auto
    have head: "?sc out \<noteq> ?sc (outs' ! k)" "\<not> improves error (?sc out) (?sc (outs' ! k))"
      using Cons.prems(4) [rule_format, of 0] Cons.prems(5) [rule_format, of 0] Suc outs
      by simp_all
    have imp: "improves error (?sc (outs' ! k)) b" using Cons.prems(3) Suc outs by simp
    show ?thesis
    proof (cases "improves error (?sc out) b")
      case True
      then have step:
        "gridsearch_step E trX trY teX teY pts error c (Some b, c0, g) = Inr (Some (?sc out), c, g1)"
        using assms(1) by (simp add: gridsearch_step_score [OF ev])
      have "improves error (?sc (outs' ! k)) (?sc out)"
        using head by (auto simp: improves_def split: if_splits)
      from Cons.IH [OF rest k this best first] step Suc outs show ?thesis by simp
    next
      case False
      then have step:
        "gridsearch_step E trX trY teX teY pts error c (Some b, c0, g) = Inr (Some b, c0, g1)"
        using assms(1) by (simp add: gridsearch_step_score [OF ev])
      from Cons.IH [OF rest k imp best first] step Suc outs show ?thesis by simp
    qed
  qed
qed

text \<open>The loop makes the choice of the specification among the scores of the outcomes.\<close>

lemma gridsearch_loop_select:
  assumes "gridsearch_outcomes E trX trY teX teY pts combs g = Inr (outs, g')"
    and "best_error \<noteq> None \<or> (error \<noteq> ''mse'' \<and> error \<noteq> ''accuracy'')"
  shows "for_each (gridsearch_step E trX trY teX teY pts error) combs
           (best_error, best_combination, g)
         = (case select_best error (zip combs (map (validation_score E error teY) outs))
                   (best_error, best_combination) of
              (be, bc) \<Rightarrow> Inr (be, bc, g'))"
  using assms
proof (induction combs arbitrary: outs g best_error best_combination)
  case Nil
  then show ?case by simp
next
  case (Cons c cs)
  let ?sc = "validation_score E error teY"
  from Cons.prems(1) obtain out g1 outs' where
    ev: "gridsearch_evaluate E trX trY teX teY pts c g = Inr (out, g1)"
    and rest: "gridsearch_outcomes E trX trY teX teY pts cs g1 = Inr (outs', g')"
    and outs: "outs = out # outs'"
    by (auto simp: then_do_eq_Inr split: prod.splits)
  define st where
    "st = (case best_error of
             None \<Rightarrow> (best_error, best_combination)
           | Some b \<Rightarrow>
               if (error = ''mse'' \<or> error = ''accuracy'') \<and> improves error (?sc out) b
               then (Some (?sc out), c) else (best_error, best_combination))"
  have step: "gridsearch_step E trX trY teX teY pts error c (best_error, best_combination, g)
                = Inr (fst st, snd st, g1)"
    using Cons.prems(2) by (auto simp: gridsearch_step_score [OF ev] st_def split: option.splits)
  have inv: "fst st \<noteq> None \<or> (error \<noteq> ''mse'' \<and> error \<noteq> ''accuracy'')"
    using Cons.prems(2) by (auto simp: st_def split: option.splits)
  have sel: "select_best error (zip (c # cs) (map ?sc outs)) (best_error, best_combination)
               = select_best error (zip cs (map ?sc outs')) (fst st, snd st)"
    by (simp add: outs st_def)
  from Cons.IH [OF rest inv, of "snd st"] step show ?case
    by (simp only: for_each.simps then_do_Inr sel)
qed

section \<open>The grid search as a whole\<close>

lemma parameter_grid_list:
  "parameter_grid =
     [[PyFloat 0.6, PyInt 400], [PyFloat 0.6, PyInt 700], [PyFloat 0.6, PyInt 1000],
      [PyFloat 0.8, PyInt 400], [PyFloat 0.8, PyInt 700], [PyFloat 0.8, PyInt 1000]]"
  by (simp add: parameter_grid_def tuned_parameters_def)

lemma tuned_combinations_grid:
  "generate_parameter_combinations (map_of tuned_parameters) (map fst tuned_parameters)
     = Inr parameter_grid"
  by (simp only: tuned_combinations parameter_grid_list)

lemma gridsearch_unfold:
  assumes "gridsearch_split training_frac train_X train_y = (trX, teX, trY, teY)"
  shows "gridsearch_reservoir_computing E g train_X train_y per_time_step error training_frac =
           then_do (for_each (gridsearch_step E trX trY teX teY per_time_step error)
                      parameter_grid (sentinel error, [], g))
             gridsearch_return"
  by (simp only: gridsearch_reservoir_computing_def tuned_combinations_grid assms Let_def
      prod.case then_do_Inr sentinel_def)

lemma gridsearch_return_pair:
  "length c = 2 \<Longrightarrow> gridsearch_return (b, c, g) = Inr ((c ! 1, c ! 0), g)"
  by (auto simp: gridsearch_return_def tuned_parameters_def list_index_def py_getitem_def)

lemma gridsearch_return_empty: "gridsearch_return (b, [], g) = Inl IndexError"
  by (simp add: gridsearch_return_def tuned_parameters_def list_index_def py_getitem_def)

lemma parameter_grid_pairs: "i < length parameter_grid \<Longrightarrow> length (parameter_grid ! i) = 2"
  by (auto simp: parameter_grid_list nth_Cons' )

lemma sentinel_known:
  "error = ''mse'' \<or> error = ''accuracy'' \<Longrightarrow> \<exists>b. sentinel error = Some b"
  by (auto simp: sentinel_def)

lemma gridsearch_no_improvement:
  assumes split: "gridsearch_split training_frac train_X train_y = (trX, teX, trY, teY)"
    and no: "\<And>outs g' b.
               gridsearch_outcomes E trX trY teX teY per_time_step parameter_grid g = Inr (outs, g') \<Longrightarrow>
               sentinel error = Some b \<Longrightarrow>
               \<forall>out \<in> set outs. \<not> improves error (validation_score E error teY out) b"
  shows "case gridsearch_outcomes E trX trY teX teY per_time_step parameter_grid g of
           Inl e \<Rightarrow>
             gridsearch_reservoir_computing E g train_X train_y per_time_step error training_frac
               = Inl e
         | Inr (outs, g') \<Rightarrow>
             for_each (gridsearch_step E trX trY teX teY per_time_step error) parameter_grid
               (sentinel error, [], g) = Inr (sentinel error, [], g')
             \<and> gridsearch_reservoir_computing E g train_X train_y per_time_step error
                 training_frac = Inl IndexError"
proof (cases "gridsearch_outcomes E trX trY teX teY per_time_step parameter_grid g")
  case (Inl e)
  have "sentinel error \<noteq> None \<or> (error \<noteq> ''mse'' \<and> error \<noteq> ''accuracy'')"
    by (auto simp: sentinel_def)
  from gridsearch_loop_raises [OF Inl this] Inl show ?thesis
    by (simp add: gridsearch_unfold [OF split])
next
  case (Inr r)
  obtain outs g' where r: "r = (outs, g')" by (cases r)
  have "(error \<noteq> ''mse'' \<and> error \<noteq> ''accuracy'') \<or>
        (\<exists>b. sentinel error = Some b \<and>
             (\<forall>out \<in> set outs. \<not> improves error (validation_score E error teY out) b))"
  proof (cases "error = ''mse'' \<or> error = ''accuracy''")
    case True
    then obtain b where b: "sentinel error = Some b" using sentinel_known by blast
    with no [OF Inr [unfolded r] b] show ?thesis by blast
  next
    case False
    then show ?thesis by simp
  qed
  from gridsearch_loop_keeps [OF Inr [unfolded r] this] Inr r show ?thesis
    by (simp add: gridsearch_unfold [OF split] gridsearch_return_empty)
qed

text \<open>
  Claim C9. When the metric is neither \<^verbatim>\<open>'mse'\<close> nor \<^verbatim>\<open>'accuracy'\<close>, or when it is
  \<^verbatim>\<open>'accuracy'\<close> and every combination scores 0, \<^verbatim>\<open>gridsearch_reservoir_computing\<close> does not
  return: an exception of one of the calls of \<^verbatim>\<open>reservoir_computing\<close> leaves it, or else the
  loop ends with its initial \<^verbatim>\<open>best_error\<close> and the empty \<^verbatim>\<open>best_combination\<close>, and the indexing
  of the \<^verbatim>\<open>return\<close> statement raises \<^verbatim>\<open>IndexError\<close>.
\<close>

theorem gridsearch_without_improvement_raises:
  assumes split: "gridsearch_split training_frac train_X train_y = (trX, teX, trY, teY)"
    and no: "(error \<noteq> ''mse'' \<and> error \<noteq> ''accuracy'') \<or>
             (error = ''accuracy'' \<and>
              (\<forall>outs g'. gridsearch_outcomes E trX trY teX teY per_time_step parameter_grid g
                            = Inr (outs, g') \<longrightarrow>
                         (\<forall>out \<in> set outs. validation_score E error teY out = 0)))"
  shows "case gridsearch_outcomes E trX trY teX teY per_time_step parameter_grid g of
           Inl e \<Rightarrow>
             gridsearch_reservoir_computing E g train_X train_y per_time_step error training_frac
               = Inl e
         | Inr (outs, g') \<Rightarrow>
             for_each (gridsearch_step E trX trY teX teY per_time_step error) parameter_grid
               (sentinel error, [], g) = Inr (sentinel error, [], g')
             \<and> gridsearch_reservoir_computing E g train_X train_y per_time_step error
                 training_frac = Inl IndexError"
proof (rule gridsearch_no_improvement [OF split])
  fix outs g' b
  assume outs: "gridsearch_outcomes E trX trY teX teY per_time_step parameter_grid g = Inr (outs, g')"
    and b: "sentinel error = Some b"
  from no show "\<forall>out \<in> set outs. \<not> improves error (validation_score E error teY out) b"
  proof
    assume "error \<noteq> ''mse'' \<and> error \<noteq> ''accuracy''"
    with b show ?thesis by (simp add: sentinel_def)
  next
    assume acc: "error = ''accuracy'' \<and>
              (\<forall>outs g'. gridsearch_outcomes E trX trY teX teY per_time_step parameter_grid g
                            = Inr (outs, g') \<longrightarrow>
                         (\<forall>out \<in> set outs. validation_score E error teY out = 0))"
    with b have "b = 0" by (simp add: sentinel_def)
    with acc outs show ?thesis by (auto simp: improves_def)
  qed
qed

text \<open>
  Claim C7, amended. Under either metric, let combination \<open>i\<close> of the grid improve on the
  initial \<^verbatim>\<open>best_error\<close>, let no combination score strictly better than it, and let no
  earlier combination score the same. Then the loop ends with combination \<open>i\<close> as
  \<^verbatim>\<open>best_combination\<close>, whatever later combinations score the same, and
  \<^verbatim>\<open>gridsearch_reservoir_computing\<close> returns its reservoir size and its \<^verbatim>\<open>a\<close>.
\<close>

theorem gridsearch_keeps_first_best:
  assumes split: "gridsearch_split training_frac train_X train_y = (trX, teX, trY, teY)"
    and metric: "error = ''mse'' \<or> error = ''accuracy''"
    and outs: "gridsearch_outcomes E trX trY teX teY per_time_step parameter_grid g = Inr (outs, g')"
    and i: "i < length parameter_grid"
    and better: "\<exists>b. sentinel error = Some b \<and> improves error (validation_score E error teY (outs ! i)) b"
    and best: "\<forall>j < length parameter_grid.
                 \<not> improves error (validation_score E error teY (outs ! j))
                     (validation_score E error teY (outs ! i))"
    and first: "\<forall>j < i. validation_score E error teY (outs ! j)
                        \<noteq> validation_score E error teY (outs ! i)"
  shows "for_each (gridsearch_step E trX trY teX teY per_time_step error) parameter_grid
           (sentinel error, [], g)
           = Inr (Some (validation_score E error teY (outs ! i)), parameter_grid ! i, g')
         \<and> gridsearch_reservoir_computing E g train_X train_y per_time_step error training_frac
             = Inr ((parameter_grid ! i ! 1, parameter_grid ! i ! 0), g')"
proof -
  from better obtain b where b: "sentinel error = Some b"
    and imp: "improves error (validation_score E error teY (outs ! i)) b"
    by blast
  have loop: "for_each (gridsearch_step E trX trY teX teY per_time_step error) parameter_grid
           (sentinel error, [], g)
           = Inr (Some (validation_score E error teY (outs ! i)), parameter_grid ! i, g')"
    unfolding b by (rule gridsearch_loop_first_best [OF metric outs i imp best first])
  then show ?thesis
    by (simp add: gridsearch_unfold [OF split] gridsearch_return_pair parameter_grid_pairs [OF i])
qed


section \<open>A run of the grid search\<close>

lemma gridsearch_outcomes_return:
  assumes eig: "\<And>M. linalg_eig E M = Inr [1]"
    and pinv: "\<And>k M. \<exists>P. linalg_pinv E k M = Inr P"
    and n: "10 \<le> length trX" and ty: "length trY = length trX"
    and te: "length teY = length teX" and cols: "0 < ncols trY"
    and rX: "rectangular (trX @ teX)"
    and uX: "list_all (list_all (\<lambda>v. \<bar>v\<bar> \<le> 1)) (trX @ teX)"
    and ry: "rectangular (trY @ teY)"
    and uy: "list_all (list_all (\<lambda>v. \<bar>v\<bar> \<le> 1)) (trY @ teY)"
    and combs: "\<forall>c \<in> set combs. \<exists>a n. c = [a, PyInt n] \<and> 0 \<le> n"
  shows "\<exists>outs g'. gridsearch_outcomes E trX trY teX teY per_time_step combs g = Inr (outs, g')"
  using combs
proof (induction combs arbitrary: g)
  case Nil
  show ?case by simp
next
  case (Cons c cs)
  then obtain a k where c: "c = [a, PyInt k]" "0 \<le> k" by auto
  from fixed_returns [OF eig pinv n ty te cols rX uX ry uy]
  obtain out g1 where
    "reservoir_computing_fixed E g trX trY teX (Some teY) (nat k) (py_float a) per_time_step
       = Inr (out, g1)"
    by blast
  with c have ev: "gridsearch_evaluate E trX trY teX teY per_time_step c g = Inr (out, g1)"
    by (simp add: gridsearch_evaluate_fixed)
  from Cons obtain outs g' where
    "gridsearch_outcomes E trX trY teX teY per_time_step cs g1 = Inr (outs, g')"
    by fastforce
  with ev show ?case by simp
qed

lemma example_eig: "linalg_eig example_externals M = Inr [1]"
  by (simp add: example_externals_def)

lemma example_pinv: "\<exists>P. linalg_pinv example_externals k M = Inr P"
  by (simp add: example_externals_def)

lemma example_split:
  "gridsearch_split (1 / 2) (replicate 20 [0]) (replicate 20 [0])
     = (replicate 10 [0], replicate 10 [0], replicate 10 [0], replicate 10 [0])"
  by (simp add: gridsearch_split_def py_int_def iloc_rows_def fl_ten)

lemma ncols_replicate: "0 < n \<Longrightarrow> ncols (replicate n r) = length r"
  by (cases n) (simp_all add: ncols_def)

lemma rectangular_replicate: "rectangular (replicate m r @ replicate n r)"
proof -
  have "replicate m r @ replicate n r = replicate (m + n) r" by (simp add: replicate_add)
  then show ?thesis
    by (cases "m + n") (simp_all add: rectangular_def ncols_def list_all_iff)
qed

lemma unit_replicate:
  "list_all (\<lambda>v. \<bar>v\<bar> \<le> 1) r \<Longrightarrow> list_all (list_all (\<lambda>v. \<bar>v\<bar> \<le> 1)) (replicate n r)"
  by (simp add: list_all_iff)

lemma example_outcomes:
  "\<exists>outs g'. gridsearch_outcomes example_externals (replicate 10 [0]) (replicate 10 [0])
               (replicate 10 [0]) (replicate 10 [0]) per_time_step parameter_grid g = Inr (outs, g')"
proof (rule gridsearch_outcomes_return [OF example_eig example_pinv])
  show "\<forall>c \<in> set parameter_grid. \<exists>a n. c = [a, PyInt n] \<and> 0 \<le> n"
    by (simp add: parameter_grid_list)
qed (simp_all add: ncols_replicate rectangular_replicate unit_replicate)

lemma one_less_float_max: "1 < float_max"
proof -
  have "(1 :: real) < 2 ^ 1023" by (rule one_less_power) simp_all
  moreover have "(1 :: real) \<le> 2 - 1 / 2 ^ 52" by simp
  ultimately have "(1 :: real) * 1 < (2 - 1 / 2 ^ 52) * 2 ^ 1023"
    by (intro mult_le_less_imp_less) simp_all
  then show ?thesis by (simp only: float_max_def mult_1)
qed

theorem gridsearch_without_improvement_raises_witness:
  "gridsearch_split (1 / 2) (replicate 20 [0]) (replicate 20 [0])
     = (replicate 10 [0], replicate 10 [0], replicate 10 [0], replicate 10 [0]) \<and>
   ''mae'' \<noteq> ''mse'' \<and> ''mae'' \<noteq> ''accuracy'' \<and>
   gridsearch_reservoir_computing example_externals () (replicate 20 [0]) (replicate 20 [0])
     False ''mae'' (1 / 2) = Inl IndexError"
proof -
  have no: "(''mae'' \<noteq> ''mse'' \<and> ''mae'' \<noteq> ''accuracy'') \<or>
            (''mae'' = ''accuracy'' \<and>
              (\<forall>outs g'. gridsearch_outcomes example_externals (replicate 10 [0]) (replicate 10 [0])
                            (replicate 10 [0]) (replicate 10 [0]) False parameter_grid ()
                            = Inr (outs, g') \<longrightarrow>
                         (\<forall>out \<in> set outs.
                            validation_score example_externals ''mae'' (replicate 10 [0]) out = 0)))"
    by simp
  obtain outs g' where
    "gridsearch_outcomes example_externals (replicate 10 [0]) (replicate 10 [0])
       (replicate 10 [0]) (replicate 10 [0]) False parameter_grid () = Inr (outs, g')"
    using example_outcomes by blast
  with gridsearch_without_improvement_raises [OF example_split no]
  show ?thesis by (simp add: example_split)
qed

theorem gridsearch_keeps_first_best_witness:
  "\<exists>outs g'.
     gridsearch_split (1 / 2) (replicate 20 [0]) (replicate 20 [0])
       = (replicate 10 [0], replicate 10 [0], replicate 10 [0], replicate 10 [0]) \<and>
     gridsearch_outcomes example_externals (replicate 10 [0]) (replicate 10 [0])
       (replicate 10 [0]) (replicate 10 [0]) False parameter_grid () = Inr (outs, g') \<and>
     validation_score example_externals ''mse'' (replicate 10 [0]) (outs ! 0) = 1 \<and>
     validation_score example_externals ''mse'' (replicate 10 [0]) (outs ! 1) = 1 \<and>
     gridsearch_reservoir_computing example_externals () (replicate 20 [0]) (replicate 20 [0])
       False ''mse'' (1 / 2) = Inr ((PyInt 400, PyFloat 0.6), g')"
proof -
  let ?sc = "validation_score example_externals ''mse'' (replicate 10 [0])"
  obtain outs g' where
    outs: "gridsearch_outcomes example_externals (replicate 10 [0]) (replicate 10 [0])
       (replicate 10 [0]) (replicate 10 [0]) False parameter_grid () = Inr (outs, g')"
    using example_outcomes by blast
  have sc: "?sc out = 1" for out
    by (cases out) (simp add: validation_score_def example_externals_def)
  have metric: "''mse'' = ''mse'' \<or> ''mse'' = ''accuracy''" by simp
  have i: "0 < length parameter_grid" by (simp add: parameter_grid_list)
  have better: "\<exists>b. sentinel ''mse'' = Some b \<and> improves ''mse'' (?sc (outs ! 0)) b"
    by (simp add: sentinel_def improves_def sc one_less_float_max)
  have best: "\<forall>j < length parameter_grid. \<not> improves ''mse'' (?sc (outs ! j)) (?sc (outs ! 0))"
    by (simp add: improves_def sc)
  have first: "\<forall>j < 0. ?sc (outs ! j) \<noteq> ?sc (outs ! 0)" by simp
  from gridsearch_keeps_first_best [OF example_split metric outs i better best first]
  have "gridsearch_reservoir_computing example_externals () (replicate 20 [0]) (replicate 20 [0])
       False ''mse'' (1 / 2) = Inr ((PyInt 400, PyFloat 0.6), g')"
    by (simp add: parameter_grid_list)
  with outs sc example_split show ?thesis by blast
qed

text \<open>
  With an accuracy of 0 for every combination all six combinations attain the best score,
  which is the initial \<^verbatim>\<open>best_error\<close>: no combination is retained, and the \<^verbatim>\<open>return\<close>
  statement raises.
\<close>

lemma zero_accuracy_outcomes:
  "\<exists>outs g'. gridsearch_outcomes zero_accuracy_externals (replicate 10 [0]) (replicate 10 [0])
               (replicate 10 [0]) (replicate 10 [0]) per_time_step parameter_grid g = Inr (outs, g')"
proof (rule gridsearch_outcomes_return)
  show "\<And>M. linalg_eig zero_accuracy_externals M = Inr [1]"
    by (simp add: zero_accuracy_externals_def example_externals_def)
  show "\<And>k M. \<exists>P. linalg_pinv zero_accuracy_externals k M = Inr P"
    by (simp add: zero_accuracy_externals_def example_externals_def)
  show "\<forall>c \<in> set parameter_grid. \<exists>a n. c = [a, PyInt n] \<and> 0 \<le> n"
    by (simp add: parameter_grid_list)
qed (simp_all add: ncols_replicate rectangular_replicate unit_replicate)

theorem gridsearch_tie_at_zero_raises:
  "gridsearch_reservoir_computing zero_accuracy_externals () (replicate 20 [0])
     (replicate 20 [0]) False ''accuracy'' (1 / 2) = Inl IndexError"
proof -
  obtain outs g' where
    outs: "gridsearch_outcomes zero_accuracy_externals (replicate 10 [0]) (replicate 10 [0])
       (replicate 10 [0]) (replicate 10 [0]) False parameter_grid () = Inr (outs, g')"
    using zero_accuracy_outcomes by blast
  have sc: "validation_score zero_accuracy_externals ''accuracy'' (replicate 10 [0]) out = 0"
    for out
    by (cases out) (simp add: validation_score_def zero_accuracy_externals_def)
  have "case gridsearch_outcomes zero_accuracy_externals (replicate 10 [0]) (replicate 10 [0])
               (replicate 10 [0]) (replicate 10 [0]) False parameter_grid () of
           Inl e \<Rightarrow>
             gridsearch_reservoir_computing zero_accuracy_externals () (replicate 20 [0])
               (replicate 20 [0]) False ''accuracy'' (1 / 2) = Inl e
         | Inr (outs, g') \<Rightarrow>
             for_each (gridsearch_step zero_accuracy_externals (replicate 10 [0])
                 (replicate 10 [0]) (replicate 10 [0]) (replicate 10 [0]) False ''accuracy'')
               parameter_grid (sentinel ''accuracy'', [], ()) = Inr (sentinel ''accuracy'', [], g')
             \<and> gridsearch_reservoir_computing zero_accuracy_externals () (replicate 20 [0])
                 (replicate 20 [0]) False ''accuracy'' (1 / 2) = Inl IndexError"
  proof (rule gridsearch_no_improvement [OF example_split])
    fix outs g' b
    assume "sentinel ''accuracy'' = Some b"
    then have "b = 0" by (simp add: sentinel_def)
    then show "\<forall>out \<in> set outs.
                 \<not> improves ''accuracy''
                     (validation_score zero_accuracy_externals ''accuracy'' (replicate 10 [0]) out) b"
      by (simp add: improves_def sc)
  qed
  with outs show ?thesis by simp
qed

section \<open>The combinations and the split\<close>

lemma length_blocks:
  "length (concat (map (\<lambda>v. map (\<lambda>c. v # c) rest) candidates)) = length candidates * length rest"
  by (induction candidates) simp_all

lemma nth_blocks:
  assumes "i < length candidates" "j < length rest"
  shows "concat (map (\<lambda>v. map (\<lambda>c. v # c) rest) candidates) ! (i * length rest + j)
           = candidates ! i # rest ! j"
  using assms
proof (induction candidates arbitrary: i)
  case Nil
  then show ?case by simp
next
  case (Cons v vs)
  show ?case
  proof (cases i)
    case 0
    with Cons.prems show ?thesis by (simp add: nth_append)
  next
    case (Suc i')
    with Cons.prems have "i' < length vs" by simp
    from Cons.IH [OF this Cons.prems(2)] Suc show ?thesis
      by (simp add: nth_append)
  qed
qed

lemma length_product_lists: "length (product_lists xss) = prod_list (map length xss)"
  by (induction xss) (simp_all add: length_blocks)

lemma combinations_product:
  assumes "params \<noteq> []" and "\<forall>p \<in> set params. parameter_dict p \<noteq> None"
  shows "generate_parameter_combinations parameter_dict params
           = Inr (product_lists (map (\<lambda>p. the (parameter_dict p)) params))"
  using assms
proof (induction parameter_dict params rule: generate_parameter_combinations.induct)
  case (1 parameter_dict)
  then show ?case by simp
next
  case (2 parameter_dict p)
  then show ?case by (auto simp: comp_def)
next
  case (3 parameter_dict p q ps)
  then show ?case by auto
qed

lemma combinations_step:
  assumes "generate_parameter_combinations parameter_dict params = Inr rest"
    and "parameter_dict p = Some candidates" and "params \<noteq> []"
  shows "generate_parameter_combinations parameter_dict (p # params)
           = Inr (concat (map (\<lambda>v. map (\<lambda>c. v # c) rest) candidates))"
  using assms by (cases params) simp_all

lemma gridsearch_split_take_drop:
  assumes "0 \<le> training_frac" and "length train_y = length train_X"
  shows "gridsearch_split training_frac train_X train_y =
           (take (nat \<lfloor>fl (training_frac * real (length train_X))\<rfloor>) train_X,
            drop (nat \<lfloor>fl (training_frac * real (length train_X))\<rfloor>) train_X,
            take (nat \<lfloor>fl (training_frac * real (length train_X))\<rfloor>) train_y,
            drop (nat \<lfloor>fl (training_frac * real (length train_X))\<rfloor>) train_y)"
proof -
  have nn: "0 \<le> fl (training_frac * real (length train_X))"
    using assms(1) by (intro fl_nonneg) simp
  then have k: "0 \<le> \<lfloor>fl (training_frac * real (length train_X))\<rfloor>" by simp
  have "py_int (fl (training_frac * real (length train_X)))
          = \<lfloor>fl (training_frac * real (length train_X))\<rfloor>"
    using nn by (simp add: py_int_nonneg)
  then show ?thesis
    using iloc_rows_prefix [OF k, of train_X] iloc_rows_prefix [OF k, of train_y]
      iloc_rows_suffix [OF k order_refl, of train_X]
      iloc_rows_suffix [OF k, of train_y "length train_X"] assms(2)
    by (simp add: gridsearch_split_def Let_def)
qed

lemma fl_split_example:
  "fl (3152519739159347 / 4503599627370496 * 90) = 8866461766385663 / 140737488355328"
  using fl_eval [of 5 "3152519739159347 / 4503599627370496 * 90"]
  by (simp add: round_half_even_def)

lemma gridsearch_outcomes_grid:
  "gridsearch_outcomes E trX trY teX teY per_time_step parameter_grid g =
     then_do (reservoir_computing_fixed E g trX trY teX (Some teY) 400 0.6 per_time_step)
       (\<lambda>(out1, g).
     then_do (reservoir_computing_fixed E g trX trY teX (Some teY) 700 0.6 per_time_step)
       (\<lambda>(out2, g).
     then_do (reservoir_computing_fixed E g trX trY teX (Some teY) 1000 0.6 per_time_step)
       (\<lambda>(out3, g).
     then_do (reservoir_computing_fixed E g trX trY teX (Some teY) 400 0.8 per_time_step)
       (\<lambda>(out4, g).
     then_do (reservoir_computing_fixed E g trX trY teX (Some teY) 700 0.8 per_time_step)
       (\<lambda>(out5, g).
     then_do (reservoir_computing_fixed E g trX trY teX (Some teY) 1000 0.8 per_time_step)
       (\<lambda>(out6, g).
     Inr ([out1, out2, out3, out4, out5, out6], g)))))))"
  by (simp add: parameter_grid_list gridsearch_evaluate_fixed py_float_def then_do_def
      split: sum.splits prod.splits)

lemma gridsearch_select:
  assumes "gridsearch_split training_frac train_X train_y = (trX, teX, trY, teY)"
  shows "gridsearch_reservoir_computing E g train_X train_y per_time_step error training_frac =
           then_do (gridsearch_outcomes E trX trY teX teY per_time_step parameter_grid g)
             (\<lambda>(outs, g').
                case select_best error
                       (zip parameter_grid (map (validation_score E error teY) outs))
                       (sentinel error, []) of
                  (best_error, best_combination) \<Rightarrow>
                    gridsearch_return (best_error, best_combination, g'))"
proof -
  have s: "sentinel error \<noteq> None \<or> (error \<noteq> ''mse'' \<and> error \<noteq> ''accuracy'')"
    by (auto simp: sentinel_def)
  show ?thesis
  proof (cases "gridsearch_outcomes E trX trY teX teY per_time_step parameter_grid g")
    case (Inl e)
    from gridsearch_loop_raises [OF Inl s] Inl show ?thesis
      by (simp add: gridsearch_unfold [OF assms])
  next
    case (Inr r)
    obtain outs g' where r: "r = (outs, g')" by (cases r)
    from gridsearch_loop_select [OF Inr [unfolded r] s, of "[]"] Inr r show ?thesis
      by (simp add: gridsearch_unfold [OF assms] split: prod.splits)
  qed
qed

text \<open>
  Claim C6. \<^verbatim>\<open>generate_parameter_combinations\<close> returns the cartesian product of the candidate
  lists of the named parameters: as many combinations as the product of the lengths of the
  lists, and with one more parameter in front the combination at position
  \<open>i * length rest + j\<close> pairs candidate \<open>i\<close> of that parameter with combination \<open>j\<close> of the
  rest, so that the first parameter varies slowest. For \<^verbatim>\<open>tuned_parameters\<close> these are the six
  combinations of \<open>parameter_grid\<close>. \<^verbatim>\<open>gridsearch_reservoir_computing\<close> splits the training data
  once, at the truncation \<open>k\<close> of the double product of the fraction and the number of the
  rows: the first \<open>k\<close> rows to train on and the remaining rows, in their order, to score on.
  It calls \<^verbatim>\<open>reservoir_computing\<close> without grid search once for every combination, in the
  order of the grid, every time with the first \<open>k\<close> rows as training data and the remaining
  rows as test data, and an exception of a call ends the search with that exception. When
  all six calls return, the result is read from the combination chosen among the scores of
  the six results, every score computed by the metric from the targets of the remaining
  rows.
\<close>

theorem gridsearch_product_and_split:
  assumes "0 \<le> training_frac" and "length train_y = length train_X"
  shows "(params \<noteq> [] \<and> (\<forall>p \<in> set params. parameter_dict p \<noteq> None) \<longrightarrow>
            generate_parameter_combinations parameter_dict params
              = Inr (product_lists (map (\<lambda>p. the (parameter_dict p)) params))
            \<and> length (product_lists (map (\<lambda>p. the (parameter_dict p)) params))
                = prod_list (map (\<lambda>p. length (the (parameter_dict p))) params))
         \<and> (params \<noteq> [] \<and> generate_parameter_combinations parameter_dict params = Inr rest
              \<and> parameter_dict q = Some candidates \<longrightarrow>
            (\<exists>combinations.
               generate_parameter_combinations parameter_dict (q # params) = Inr combinations
               \<and> length combinations = length candidates * length rest
               \<and> (\<forall>i < length candidates. \<forall>j < length rest.
                     combinations ! (i * length rest + j) = candidates ! i # rest ! j)))
         \<and> generate_parameter_combinations (map_of tuned_parameters) (map fst tuned_parameters)
             = Inr [[PyFloat 0.6, PyInt 400], [PyFloat 0.6, PyInt 700], [PyFloat 0.6, PyInt 1000],
                    [PyFloat 0.8, PyInt 400], [PyFloat 0.8, PyInt 700], [PyFloat 0.8, PyInt 1000]]
         \<and> (let k = nat \<lfloor>fl (training_frac * real (length train_X))\<rfloor>;
                 train_params_X = take k train_X;
                 train_params_y = take k train_y;
                 test_params_X = drop k train_X;
                 test_params_y = drop k train_y;
                 run = (\<lambda>reservoir_size a g.
                   reservoir_computing_fixed E g train_params_X train_params_y test_params_X
                     (Some test_params_y) reservoir_size a per_time_step);
                 score = validation_score E error test_params_y
             in gridsearch_split training_frac train_X train_y
                  = (train_params_X, test_params_X, train_params_y, test_params_y)
                \<and> gridsearch_reservoir_computing E g train_X train_y per_time_step error
                    training_frac =
                    then_do (run 400 0.6 g) (\<lambda>(out1, g).
                    then_do (run 700 0.6 g) (\<lambda>(out2, g).
                    then_do (run 1000 0.6 g) (\<lambda>(out3, g).
                    then_do (run 400 0.8 g) (\<lambda>(out4, g).
                    then_do (run 700 0.8 g) (\<lambda>(out5, g).
                    then_do (run 1000 0.8 g) (\<lambda>(out6, g).
                    case select_best error
                           [([PyFloat 0.6, PyInt 400], score out1),
                            ([PyFloat 0.6, PyInt 700], score out2),
                            ([PyFloat 0.6, PyInt 1000], score out3),
                            ([PyFloat 0.8, PyInt 400], score out4),
                            ([PyFloat 0.8, PyInt 700], score out5),
                            ([PyFloat 0.8, PyInt 1000], score out6)]
                           (sentinel error, []) of
                      (best_error, best_combination) \<Rightarrow>
                        gridsearch_return (best_error, best_combination, g))))))))"
proof (intro conjI impI)
  assume "params \<noteq> [] \<and> (\<forall>p \<in> set params. parameter_dict p \<noteq> None)"
  then show "generate_parameter_combinations parameter_dict params
           = Inr (product_lists (map (\<lambda>p. the (parameter_dict p)) params))"
    by (simp add: combinations_product)
next
  show "length (product_lists (map (\<lambda>p. the (parameter_dict p)) params))
          = prod_list (map (\<lambda>p. length (the (parameter_dict p))) params)"
    by (simp add: length_product_lists comp_def)
next
  assume "params \<noteq> [] \<and> generate_parameter_combinations parameter_dict params = Inr rest
              \<and> parameter_dict q = Some candidates"
  then have "generate_parameter_combinations parameter_dict (q # params)
           = Inr (concat (map (\<lambda>v. map (\<lambda>c. v # c) rest) candidates))"
    by (simp add: combinations_step)
  then show "\<exists>combinations.
               generate_parameter_combinations parameter_dict (q # params) = Inr combinations
               \<and> length combinations = length candidates * length rest
               \<and> (\<forall>i < length candidates. \<forall>j < length rest.
                     combinations ! (i * length rest + j) = candidates ! i # rest ! j)"
    by (simp add: length_blocks nth_blocks)
next
  show "generate_parameter_combinations (map_of tuned_parameters) (map fst tuned_parameters)
             = Inr [[PyFloat 0.6, PyInt 400], [PyFloat 0.6, PyInt 700], [PyFloat 0.6, PyInt 1000],
                    [PyFloat 0.8, PyInt 400], [PyFloat 0.8, PyInt 700], [PyFloat 0.8, PyInt 1000]]"
    by (rule tuned_combinations)
next
  define k where "k = nat \<lfloor>fl (training_frac * real (length train_X))\<rfloor>"
  have split: "gridsearch_split training_frac train_X train_y
                 = (take k train_X, drop k train_X, take k train_y, drop k train_y)"
    unfolding k_def using assms by (rule gridsearch_split_take_drop)
  have "gridsearch_reservoir_computing E g train_X train_y per_time_step error training_frac =
          then_do (gridsearch_outcomes E (take k train_X) (take k train_y) (drop k train_X)
                     (drop k train_y) per_time_step parameter_grid g)
            (\<lambda>(outs, g').
               case select_best error
                      (zip parameter_grid
                         (map (validation_score E error (drop k train_y)) outs))
                      (sentinel error, []) of
                 (best_error, best_combination) \<Rightarrow>
                   gridsearch_return (best_error, best_combination, g'))"
    using split by (rule gridsearch_select)
  then have "gridsearch_reservoir_computing E g train_X train_y per_time_step error
               training_frac =
      then_do (reservoir_computing_fixed E g (take k train_X) (take k train_y) (drop k train_X)
                 (Some (drop k train_y)) 400 0.6 per_time_step) (\<lambda>(out1, g).
      then_do (reservoir_computing_fixed E g (take k train_X) (take k train_y) (drop k train_X)
                 (Some (drop k train_y)) 700 0.6 per_time_step) (\<lambda>(out2, g).
      then_do (reservoir_computing_fixed E g (take k train_X) (take k train_y) (drop k train_X)
                 (Some (drop k train_y)) 1000 0.6 per_time_step) (\<lambda>(out3, g).
      then_do (reservoir_computing_fixed E g (take k train_X) (take k train_y) (drop k train_X)
                 (Some (drop k train_y)) 400 0.8 per_time_step) (\<lambda>(out4, g).
      then_do (reservoir_computing_fixed E g (take k train_X) (take k train_y) (drop k train_X)
                 (Some (drop k train_y)) 700 0.8 per_time_step) (\<lambda>(out5, g).
      then_do (reservoir_computing_fixed E g (take k train_X) (take k train_y) (drop k train_X)
                 (Some (drop k train_y)) 1000 0.8 per_time_step) (\<lambda>(out6, g).
      case select_best error
             [([PyFloat 0.6, PyInt 400], validation_score E error (drop k train_y) out1),
              ([PyFloat 0.6, PyInt 700], validation_score E error (drop k train_y) out2),
              ([PyFloat 0.6, PyInt 1000], validation_score E error (drop k train_y) out3),
              ([PyFloat 0.8, PyInt 400], validation_score E error (drop k train_y) out4),
              ([PyFloat 0.8, PyInt 700], validation_score E error (drop k train_y) out5),
              ([PyFloat 0.8, PyInt 1000], validation_score E error (drop k train_y) out6)]
             (sentinel error, []) of
        (best_error, best_combination) \<Rightarrow>
          gridsearch_return (best_error, best_combination, g)))))))"
    by (simp only: gridsearch_outcomes_grid)
      (simp add: parameter_grid_list then_do_def split: sum.splits prod.splits)
  with split show "let k = nat \<lfloor>fl (training_frac * real (length train_X))\<rfloor>;
                 train_params_X = take k train_X;
                 train_params_y = take k train_y;
                 test_params_X = drop k train_X;
                 test_params_y = drop k train_y;
                 run = (\<lambda>reservoir_size a g.
                   reservoir_computing_fixed E g train_params_X train_params_y test_params_X
                     (Some test_params_y) reservoir_size a per_time_step);
                 score = validation_score E error test_params_y
             in gridsearch_split training_frac train_X train_y
                  = (train_params_X, test_params_X, train_params_y, test_params_y)
                \<and> gridsearch_reservoir_computing E g train_X train_y per_time_step error
                    training_frac =
                    then_do (run 400 0.6 g) (\<lambda>(out1, g).
                    then_do (run 700 0.6 g) (\<lambda>(out2, g).
                    then_do (run 1000 0.6 g) (\<lambda>(out3, g).
                    then_do (run 400 0.8 g) (\<lambda>(out4, g).
                    then_do (run 700 0.8 g) (\<lambda>(out5, g).
                    then_do (run 1000 0.8 g) (\<lambda>(out6, g).
                    case select_best error
                           [([PyFloat 0.6, PyInt 400], score out1),
                            ([PyFloat 0.6, PyInt 700], score out2),
                            ([PyFloat 0.6, PyInt 1000], score out3),
                            ([PyFloat 0.8, PyInt 400], score out4),
                            ([PyFloat 0.8, PyInt 700], score out5),
                            ([PyFloat 0.8, PyInt 1000], score out6)]
                           (sentinel error, []) of
                      (best_error, best_combination) \<Rightarrow>
                        gridsearch_return (best_error, best_combination, g)))))))"
    unfolding Let_def k_def by (intro conjI)
qed

lemma counting_eig: "linalg_eig counting_externals M = Inr [1]"
  by (simp add: counting_externals_def example_externals_def)

lemma counting_pinv: "\<exists>P. linalg_pinv counting_externals k M = Inr P"
  by (simp add: counting_externals_def example_externals_def)

lemma counting_run:
  "\<exists>out. reservoir_computing_fixed counting_externals () (replicate 62 [1 / 2])
           (replicate 62 [1 / 4]) (replicate 28 [1 / 2]) (Some (replicate 28 [1 / 4]))
           reservoir_size a False = Inr (out, ())"
proof -
  have "\<exists>out g'. reservoir_computing_fixed counting_externals () (replicate 62 [1 / 2])
           (replicate 62 [1 / 4]) (replicate 28 [1 / 2]) (Some (replicate 28 [1 / 4]))
           reservoir_size a False = Inr (out, g')"
    by (rule fixed_returns [OF counting_eig counting_pinv])
      (simp_all add: ncols_replicate rectangular_replicate unit_replicate)
  then show ?thesis by simp
qed

lemma counting_score:
  "validation_score counting_externals ''mse'' (replicate 28 [1 / 4]) out = 28"
  by (cases out) (simp add: validation_score_def counting_externals_def)

lemma float_max_large: "28 < float_max"
proof -
  have "(28::real) < 2 ^ 5" by simp
  also have "\<dots> \<le> 2 ^ 1023" by (rule power_increasing) simp_all
  also have "\<dots> = 1 * 2 ^ 1023" by simp
  also have "\<dots> \<le> (2 - 1 / 2 ^ 52) * 2 ^ 1023" by (intro mult_right_mono) simp_all
  finally show ?thesis by (simp only: float_max_def)
qed

theorem gridsearch_product_and_split_witness:
  "0 \<le> (3152519739159347 / 4503599627370496 :: real) \<and>
   length (replicate 90 [1 / 4 :: real]) = length (replicate 90 [1 / 2 :: real]) \<and>
   [''reservoir_size''] \<noteq> [] \<and>
   map_of tuned_parameters ''reservoir_size'' \<noteq> None \<and>
   generate_parameter_combinations (map_of tuned_parameters) [''reservoir_size'']
     = Inr [[PyInt 400], [PyInt 700], [PyInt 1000]] \<and>
   map_of tuned_parameters ''a'' = Some [PyFloat 0.6, PyFloat 0.8] \<and>
   generate_parameter_combinations (map_of tuned_parameters) [''a'', ''reservoir_size'']
     = Inr [[PyFloat 0.6, PyInt 400], [PyFloat 0.6, PyInt 700], [PyFloat 0.6, PyInt 1000],
            [PyFloat 0.8, PyInt 400], [PyFloat 0.8, PyInt 700], [PyFloat 0.8, PyInt 1000]] \<and>
   nat \<lfloor>fl (3152519739159347 / 4503599627370496 * real (length (replicate 90 [1 / 2 :: real])))\<rfloor>
     = 62 \<and>
   gridsearch_split (3152519739159347 / 4503599627370496) (replicate 90 [1 / 2])
       (replicate 90 [1 / 4])
     = (replicate 62 [1 / 2], replicate 28 [1 / 2], replicate 62 [1 / 4], replicate 28 [1 / 4]) \<and>
   gridsearch_reservoir_computing counting_externals () (replicate 90 [1 / 2])
       (replicate 90 [1 / 4]) False ''mse'' (3152519739159347 / 4503599627370496)
     = Inr ((PyInt 400, PyFloat 0.6), ())"
proof -
  have f: "0 \<le> (3152519739159347 / 4503599627370496 :: real)" by simp
  have l: "length (replicate 90 [1 / 4 :: real]) = length (replicate 90 [1 / 2 :: real])"
    by simp
  have d: "map_of tuned_parameters ''a'' = Some [PyFloat 0.6, PyFloat 0.8]"
    "\<forall>p \<in> set [''reservoir_size'']. map_of tuned_parameters p \<noteq> None"
    "generate_parameter_combinations (map_of tuned_parameters) [''reservoir_size'']
       = Inr [[PyInt 400], [PyInt 700], [PyInt 1000]]"
    by (simp_all add: tuned_parameters_def)
  have k: "nat \<lfloor>fl (3152519739159347 / 4503599627370496
                      * real (length (replicate 90 [1 / 2 :: real])))\<rfloor> = 62"
    by (simp only: length_replicate of_nat_numeral fl_split_example) simp
  obtain out1 out2 out3 out4 out5 out6 where runs:
    "reservoir_computing_fixed counting_externals () (replicate 62 [1 / 2])
       (replicate 62 [1 / 4]) (replicate 28 [1 / 2]) (Some (replicate 28 [1 / 4]))
       400 (3 / 5) False = Inr (out1, ())"
    "reservoir_computing_fixed counting_externals () (replicate 62 [1 / 2])
       (replicate 62 [1 / 4]) (replicate 28 [1 / 2]) (Some (replicate 28 [1 / 4]))
       700 (3 / 5) False = Inr (out2, ())"
    "reservoir_computing_fixed counting_externals () (replicate 62 [1 / 2])
       (replicate 62 [1 / 4]) (replicate 28 [1 / 2]) (Some (replicate 28 [1 / 4]))
       1000 (3 / 5) False = Inr (out3, ())"
    "reservoir_computing_fixed counting_externals () (replicate 62 [1 / 2])
       (replicate 62 [1 / 4]) (replicate 28 [1 / 2]) (Some (replicate 28 [1 / 4]))
       400 (4 / 5) False = Inr (out4, ())"
    "reservoir_computing_fixed counting_externals () (replicate 62 [1 / 2])
       (replicate 62 [1 / 4]) (replicate 28 [1 / 2]) (Some (replicate 28 [1 / 4]))
       700 (4 / 5) False = Inr (out5, ())"
    "reservoir_computing_fixed counting_externals () (replicate 62 [1 / 2])
       (replicate 62 [1 / 4]) (replicate 28 [1 / 2]) (Some (replicate 28 [1 / 4]))
       1000 (4 / 5) False = Inr (out6, ())"
    using counting_run by metis
  note c6 = gridsearch_product_and_split [OF f l, where params = "[''reservoir_size'']"
      and parameter_dict = "map_of tuned_parameters" and q = "''a''"
      and rest = "[[PyInt 400], [PyInt 700], [PyInt 1000]]"
      and candidates = "[PyFloat 0.6, PyFloat 0.8]" and E = counting_externals and g = "()"
      and per_time_step = False and error = "''mse''",
      unfolded Let_def k]
  from c6 have combs:
    "generate_parameter_combinations (map_of tuned_parameters) (map fst tuned_parameters)
     = Inr [[PyFloat 0.6, PyInt 400], [PyFloat 0.6, PyInt 700], [PyFloat 0.6, PyInt 1000],
            [PyFloat 0.8, PyInt 400], [PyFloat 0.8, PyInt 700], [PyFloat 0.8, PyInt 1000]]"
    by blast
  from c6 have split:
    "gridsearch_split (3152519739159347 / 4503599627370496) (replicate 90 [1 / 2])
       (replicate 90 [1 / 4])
     = (replicate 62 [1 / 2], replicate 28 [1 / 2], replicate 62 [1 / 4], replicate 28 [1 / 4])"
    by simp
  from c6 have
    "gridsearch_reservoir_computing counting_externals () (replicate 90 [1 / 2])
       (replicate 90 [1 / 4]) False ''mse'' (3152519739159347 / 4503599627370496)
     = Inr ((PyInt 400, PyFloat 0.6), ())"
    by (simp add: runs counting_score sentinel_def improves_def float_max_large
        gridsearch_return_pair)
  with combs split k d show ?thesis by (simp add: tuned_parameters_def)
qed

section \<open>Prediction under teacher forcing\<close>

lemma take_Suc_eq_imp:
  assumes "take (Suc t) xs = take (Suc t) ys"
  shows "take t xs = take t ys" and "xs ! t = ys ! t"
proof -
  have "take t (take (Suc t) xs) = take t (take (Suc t) ys)" using assms by simp
  then show "take t xs = take t ys" by (simp add: min_def)
  have "take (Suc t) xs ! t = take (Suc t) ys ! t" using assms by simp
  then show "xs ! t = ys ! t" by simp
qed

lemma teacher_forced_state_prefix:
  assumes "take (Suc t) U = take (Suc t) U'" and "take t Y = take t Y'"
  shows "teacher_forced_state Win W Wback a N outputs U Y t
           = teacher_forced_state Win W Wback a N outputs U' Y' t"
  using assms
proof (induction t)
  case 0
  from "0.prems"(1) have "U ! 0 = U' ! 0" by (rule take_Suc_eq_imp(2))
  then show ?case by simp
next
  case (Suc t)
  have "take (Suc t) U = take (Suc t) U'" using Suc.prems(1) by (rule take_Suc_eq_imp(1))
  moreover have "take t Y = take t Y'" using Suc.prems(2) by (rule take_Suc_eq_imp(1))
  ultimately have ih: "teacher_forced_state Win W Wback a N outputs U Y t
           = teacher_forced_state Win W Wback a N outputs U' Y' t"
    by (rule Suc.IH)
  have "U ! Suc t = U' ! Suc t" using Suc.prems(1) by (rule take_Suc_eq_imp(2))
  moreover have "Y ! t = Y' ! t" using Suc.prems(2) by (rule take_Suc_eq_imp(2))
  ultimately show ?case using ih by simp
qed

lemma predict_step_teacher:
  assumes "predict_step Win W Wback Wout a X (Some yt) cols True t (x, y, Y) = Inr (x', y', Y')"
  shows "t < length X"
    and "x' = reservoir_activation Win W Wback a x (X ! t)
                (if 0 < t then yt ! (t - 1) else replicate (length cols) 0)"
    and "Y' = Y @ [network_output Wout (X ! t) x']"
  using assms
  by (auto simp: predict_step_def iloc_row_def Let_def then_do_eq_Inr split: if_splits)


lemma teacher_forced_predict_loop:
  assumes "for_each (predict_step Win W Wback Wout a X (Some yt) cols True) [0..<n]
             (replicate N 0, None, []) = Inr (x, y, Y)"
  shows "Y = map (\<lambda>t. network_output Wout (X ! t)
                      (teacher_forced_state Win W Wback a N (length cols) X yt t)) [0..<n]
         \<and> (0 < n \<longrightarrow> x = teacher_forced_state Win W Wback a N (length cols) X yt (n - 1))
         \<and> (n = 0 \<longrightarrow> x = replicate N 0) \<and> n \<le> length X"
  using assms
proof (induction n arbitrary: x y Y)
  case 0
  then show ?case by simp
next
  case (Suc m)
  let ?st = "teacher_forced_state Win W Wback a N (length cols) X yt"
  from Suc.prems have
    "\<exists>s. for_each (predict_step Win W Wback Wout a X (Some yt) cols True) [0..<m]
            (replicate N 0, None, []) = Inr s
       \<and> predict_step Win W Wback Wout a X (Some yt) cols True m s = Inr (x, y, Y)"
    by (simp only: upt_snoc for_each_snoc then_do_eq_Inr)
  then obtain x1 y1 Y1 where
    run: "for_each (predict_step Win W Wback Wout a X (Some yt) cols True) [0..<m]
            (replicate N 0, None, []) = Inr (x1, y1, Y1)"
    and step: "predict_step Win W Wback Wout a X (Some yt) cols True m (x1, y1, Y1) = Inr (x, y, Y)"
    by (metis prod_cases3)
  from Suc.IH [OF run] have
    ih: "Y1 = map (\<lambda>t. network_output Wout (X ! t) (?st t)) [0..<m]"
      "0 < m \<longrightarrow> x1 = ?st (m - 1)" "m = 0 \<longrightarrow> x1 = replicate N 0"
    by simp_all
  note s = predict_step_teacher [OF step]
  have x: "x = ?st m"
  proof (cases m)
    case 0
    with s(2) ih(3) show ?thesis by simp
  next
    case (Suc k)
    with s(2) ih(2) show ?thesis by simp
  qed
  from s(1) s(3) ih(1) x show ?case by simp
qed

lemma idxmax_take:
  "idxmax cols Y = Inr labels \<Longrightarrow> idxmax cols (take k Y) = Inr (take k labels)"
proof (induction Y arbitrary: labels k)
  case Nil
  then show ?case by simp
next
  case (Cons r rs)
  then show ?case
    by (cases k) (auto simp: then_do_eq_Inr)
qed

lemma teacher_forced_predict:
  assumes "predict_values_echo_state_network Win W Wback Wout a N X (Some yt) cols True
             = Inr (labels, Y)"
  shows "Y = map (\<lambda>t. network_output Wout (X ! t)
                      (teacher_forced_state Win W Wback a N (length cols) X yt t)) [0..<length X]"
    and "idxmax cols Y = Inr labels"
proof -
  from assms have
    "\<exists>s. for_each (predict_step Win W Wback Wout a X (Some yt) cols True) [0..<length X]
            (replicate N 0, None, []) = Inr s
       \<and> (case s of (x, y, Y') \<Rightarrow> then_do (idxmax cols Y') (\<lambda>labels. Inr (labels, Y')))
           = Inr (labels, Y)"
    by (simp only: predict_values_echo_state_network_def Let_def then_do_eq_Inr)
  then obtain x y Y' where
    run: "for_each (predict_step Win W Wback Wout a X (Some yt) cols True) [0..<length X]
            (replicate N 0, None, []) = Inr (x, y, Y')"
    and ret: "then_do (idxmax cols Y') (\<lambda>labels. Inr (labels, Y')) = Inr (labels, Y)"
    by (auto split: prod.splits)
  from ret have "Y' = Y" "idxmax cols Y = Inr labels"
    by (auto simp: then_do_eq_Inr)
  with teacher_forced_predict_loop [OF run]
  show "Y = map (\<lambda>t. network_output Wout (X ! t)
                      (teacher_forced_state Win W Wback a N (length cols) X yt t)) [0..<length X]"
    and "idxmax cols Y = Inr labels"
    by simp_all
qed


lemma take_upt_min: "take k [0..<n] = [0..<min k n]"
proof (cases "k \<le> n")
  case True
  then show ?thesis by (simp add: min_def)
next
  case False
  then show ?thesis by (simp add: min_def)
qed

lemma take_le_eq:
  assumes "take n xs = take n ys" and "m \<le> n"
  shows "take m xs = take m ys"
proof -
  have "take m (take n xs) = take m (take n ys)" using assms(1) by simp
  with assms(2) show ?thesis by (simp add: min_def)
qed

lemma take_eq_nth:
  assumes "take n xs = take n ys" and "i < n"
  shows "xs ! i = ys ! i"
proof -
  have "take n xs ! i = take n ys ! i" using assms(1) by simp
  with assms(2) show ?thesis by simp
qed

lemma take_eq_min_length:
  assumes "take n xs = take n ys"
  shows "min n (length xs) = min n (length ys)"
proof -
  have "length (take n xs) = length (take n ys)" using assms by simp
  then show ?thesis by (simp add: min.commute)
qed

text \<open>
  Claim C3. With \<^verbatim>\<open>per_time_step=True\<close> the outputs of
  \<^verbatim>\<open>predict_values_echo_state_network\<close> up to time point \<open>t\<close> are determined by the weight
  matrices, the input rows 0 to \<open>t\<close> and the rows 0 to \<open>t - 1\<close> of \<^verbatim>\<open>y_true\<close>: two runs with the
  same weights whose inputs agree on rows 0 to \<open>t\<close> and whose true targets agree on rows 0 to
  \<open>t - 1\<close> give the same outputs and the same labels at all time points up to \<open>t\<close>, however the
  true targets differ from row \<open>t\<close> on.
\<close>

theorem teacher_forcing_ignores_later_targets:
  assumes X: "take (Suc t) X = take (Suc t) X'" and y: "take t y_true = take t y_true'"
    and run: "predict_values_echo_state_network Win W Wback Wout a N X (Some y_true) cols True
                = Inr (labels, Y)"
    and run': "predict_values_echo_state_network Win W Wback Wout a N X' (Some y_true') cols True
                = Inr (labels', Y')"
  shows "take (Suc t) Y = take (Suc t) Y' \<and> take (Suc t) labels = take (Suc t) labels'"
proof -
  let ?out = "\<lambda>X yt s. network_output Wout (X ! s)
                (teacher_forced_state Win W Wback a N (length cols) X yt s)"
  note r = teacher_forced_predict [OF run] and r' = teacher_forced_predict [OF run']
  have len: "min (Suc t) (length X) = min (Suc t) (length X')"
    using X by (rule take_eq_min_length)
  have same: "?out X y_true s = ?out X' y_true' s" if "s < Suc t" for s
  proof -
    from that have "Suc s \<le> Suc t" "s \<le> t" by simp_all
    then have "take (Suc s) X = take (Suc s) X'" "take s y_true = take s y_true'"
      using X y by (auto intro: take_le_eq)
    then have "teacher_forced_state Win W Wback a N (length cols) X y_true s
                 = teacher_forced_state Win W Wback a N (length cols) X' y_true' s"
      by (rule teacher_forced_state_prefix)
    moreover have "X ! s = X' ! s" using X that by (rule take_eq_nth)
    ultimately show ?thesis by simp
  qed
  have "take (Suc t) Y = map (?out X y_true) [0..<min (Suc t) (length X)]"
    by (subst r(1)) (simp add: take_map take_upt_min)
  also have "\<dots> = map (?out X' y_true') [0..<min (Suc t) (length X)]"
    using same by (intro map_cong) auto
  also have "\<dots> = take (Suc t) Y'"
    by (subst r'(1)) (simp add: take_map take_upt_min len)
  finally have Y: "take (Suc t) Y = take (Suc t) Y'" .
  have "idxmax cols (take (Suc t) Y) = Inr (take (Suc t) labels)"
    using r(2) by (rule idxmax_take)
  moreover have "idxmax cols (take (Suc t) Y') = Inr (take (Suc t) labels')"
    using r'(2) by (rule idxmax_take)
  ultimately have "take (Suc t) labels = take (Suc t) labels'" using Y by simp
  with Y show ?thesis ..
qed

lemma example_teacher_forced_run:
  "predict_values_echo_state_network [[0, 0]] [[0]] [[1]] [[0, 0, 1]] 1 1 [[1], [1], [1]]
     (Some [[0], [0], [0]]) [0 :: nat] True = Inr ([0, 0, 0], [[0], [0], [0]])"
  by (simp add: predict_values_echo_state_network_def predict_step_def iloc_row_def
      reservoir_activation_def network_output_def np_dot_vec_def idxmax_row_def Let_def)

lemma example_teacher_forced_run':
  "predict_values_echo_state_network [[0, 0]] [[0]] [[1]] [[0, 0, 1]] 1 1 [[1], [1], [1]]
     (Some [[0], [1 / 2], [1 / 2]]) [0 :: nat] True
     = Inr ([0, 0, 0], [[0], [0], [tanh (tanh (1 / 2))]])"
  by (simp add: predict_values_echo_state_network_def predict_step_def iloc_row_def
      reservoir_activation_def network_output_def np_dot_vec_def idxmax_row_def Let_def)

theorem teacher_forcing_ignores_later_targets_witness:
  "take (Suc 1) [[1 :: real], [1], [1]] = take (Suc 1) [[1], [1], [1]] \<and>
   take 1 [[0 :: real], [0], [0]] = take 1 [[0], [1 / 2], [1 / 2]] \<and>
   predict_values_echo_state_network [[0, 0]] [[0]] [[1]] [[0, 0, 1]] 1 1 [[1], [1], [1]]
     (Some [[0], [0], [0]]) [0 :: nat] True = Inr ([0, 0, 0], [[0], [0], [0]]) \<and>
   predict_values_echo_state_network [[0, 0]] [[0]] [[1]] [[0, 0, 1]] 1 1 [[1], [1], [1]]
     (Some [[0], [1 / 2], [1 / 2]]) [0 :: nat] True
     = Inr ([0, 0, 0], [[0], [0], [tanh (tanh (1 / 2))]]) \<and>
   take (Suc 1) [[0 :: real], [0], [0]] = take (Suc 1) [[0], [0], [tanh (tanh (1 / 2))]]"
proof -
  have X: "take (Suc 1) [[1 :: real], [1], [1]] = take (Suc 1) [[1], [1], [1]]" by simp
  have y: "take 1 [[0 :: real], [0], [0]] = take 1 [[0], [1 / 2], [1 / 2]]" by simp
  from teacher_forcing_ignores_later_targets
    [OF X y example_teacher_forced_run example_teacher_forced_run']
  show ?thesis
    using X y example_teacher_forced_run example_teacher_forced_run' by blast
qed

section \<open>Training\<close>


lemma length_spec_update [simp]: "length (spec_update Win W Wback a N x u y) = N"
  by (simp add: spec_update_def)


lemma length_spec_state [simp]: "length (spec_state Win W Wback a N outputs U Y t) = N"
  by (cases t) simp_all









section \<open>The spectral radius after the initialization\<close>

lemma complex_dot_scale:
  "complex_dot (map (\<lambda>x. x * c) row) v = complex_of_real c * complex_dot row v"
proof (induction row arbitrary: v)
  case Nil
  show ?case by (simp add: complex_dot_def)
next
  case (Cons x xs)
  show ?case
  proof (cases v)
    case Nil
    then show ?thesis by (simp add: complex_dot_def)
  next
    case (Cons z zs)
    with Cons.IH [of zs] show ?thesis
      by (simp add: complex_dot_def algebra_simps)
  qed
qed

lemma eigenvalue_scale:
  assumes "is_eigenvalue M l"
  shows "is_eigenvalue (np_mul_scalar M c) (complex_of_real c * l)"
proof -
  from assms obtain v where
    v: "length v = length M" "\<exists>k. k < length v \<and> v ! k \<noteq> 0"
      "map (\<lambda>row. complex_dot row v) M = map (\<lambda>z. l * z) v"
    unfolding is_eigenvalue_def by blast
  have "map (\<lambda>row. complex_dot row v) (np_mul_scalar M c)
          = map (\<lambda>z. complex_of_real c * z) (map (\<lambda>row. complex_dot row v) M)"
    by (simp add: np_mul_scalar_def comp_def complex_dot_scale)
  also have "\<dots> = map (\<lambda>z. (complex_of_real c * l) * z) v"
    by (simp add: v(3) comp_def mult.assoc)
  finally have eq: "map (\<lambda>row. complex_dot row v) (np_mul_scalar M c)
                     = map (\<lambda>z. (complex_of_real c * l) * z) v" .
  have "length v = length (np_mul_scalar M c)" using v(1) by (simp add: np_mul_scalar_def)
  with v(2) eq show ?thesis unfolding is_eigenvalue_def by blast
qed

lemma np_mul_scalar_inverse:
  assumes "c \<noteq> 0"
  shows "np_mul_scalar (np_mul_scalar M c) (1 / c) = M"
proof -
  have "map (\<lambda>x. x * c * (1 / c)) row = row" for row :: vec
    using assms by (simp add: map_idI)
  then show ?thesis by (simp add: np_mul_scalar_def comp_def map_idI)
qed

lemma eigenvalue_unscale:
  assumes "c \<noteq> 0" and "is_eigenvalue (np_mul_scalar M c) l"
  shows "is_eigenvalue M (l / complex_of_real c)"
proof -
  from eigenvalue_scale [OF assms(2), of "1 / c"]
  show ?thesis using assms(1) by (simp add: np_mul_scalar_inverse)
qed

lemma spectral_radius_scale:
  assumes "spectral_radius_is M r" and "0 < c"
  shows "spectral_radius_is (np_mul_scalar M c) (c * r)"
proof -
  from assms(1) obtain l where l: "is_eigenvalue M l" "cmod l = r"
    and le: "\<And>l'. is_eigenvalue M l' \<Longrightarrow> cmod l' \<le> r"
    by (auto simp: spectral_radius_is_def)
  have "is_eigenvalue (np_mul_scalar M c) (complex_of_real c * l)"
    using l(1) by (rule eigenvalue_scale)
  moreover have "cmod (complex_of_real c * l) = c * r"
    using assms(2) l(2) by (simp add: norm_mult)
  moreover have "cmod l' \<le> c * r" if "is_eigenvalue (np_mul_scalar M c) l'" for l'
  proof -
    from assms(2) have "c \<noteq> 0" by simp
    from eigenvalue_unscale [OF this that] have "cmod (l' / complex_of_real c) \<le> r" by (rule le)
    then show ?thesis using assms(2) by (simp add: norm_divide field_simps)
  qed
  ultimately show ?thesis by (auto simp: spectral_radius_is_def)
qed

lemma py_max_Max:
  assumes "xs \<noteq> []"
  shows "py_max xs = Inr (Max (set xs))"
proof -
  from assms obtain x rest where xs: "xs = x # rest" by (cases xs) auto
  have "Max (set (x # rest)) = fold max rest x" by (rule Max.set_eq_fold)
  then show ?thesis by (simp only: xs py_max_def list.case)
qed

lemma spectral_radius_of_eigenvalues:
  assumes "set ev = {l. is_eigenvalue M l}" and "ev \<noteq> []"
  shows "spectral_radius_is M (Max (set (map cmod ev)))"
proof -
  have fin: "finite (set (map cmod ev))" "set (map cmod ev) \<noteq> {}" using assms(2) by simp_all
  then have "Max (set (map cmod ev)) \<in> set (map cmod ev)" by (rule Max_in)
  then obtain l where "l \<in> set ev" "cmod l = Max (set (map cmod ev))" by auto
  moreover have "cmod l' \<le> Max (set (map cmod ev))" if "is_eigenvalue M l'" for l'
  proof -
    from that assms(1) have "cmod l' \<in> set (map cmod ev)" by auto
    then show ?thesis using fin(1) by (rule Max_ge [rotated])
  qed
  ultimately show ?thesis using assms(1) by (auto simp: spectral_radius_is_def)
qed


lemma initialize_drawn:
  assumes "linalg_eig E (drawn_W E g inputs reservoir) = Inr ev" and "ev \<noteq> []"
  shows "\<exists>Win Wback g'.
           initialize_echo_state_network E g inputs outputs reservoir
             = Inr ((Win,
                     (if Max (set (map cmod ev)) = 0 then None
                      else Some (np_mul_scalar (drawn_W E g inputs reservoir)
                                   (1.25 / Max (set (map cmod ev))))),
                     Wback), g')"
proof -
  obtain R1 g1 where r1: "np_random_rand E g reservoir (1 + inputs) = (R1, g1)" by fastforce
  obtain R2 g2 where r2: "np_random_rand E g1 reservoir reservoir = (R2, g2)" by fastforce
  obtain R3 g3 where r3: "np_random_rand E g2 reservoir outputs = (R3, g3)" by fastforce
  have w: "drawn_W E g inputs reservoir = np_sub_scalar R2 0.5"
    by (simp only: drawn_W_def r1 r2 fst_conv snd_conv)
  have m: "py_max (map cmod ev) = Inr (Max (set (map cmod ev)))"
    using assms(2) by (intro py_max_Max) simp
  show ?thesis
    using assms(1)
    by (simp only: initialize_echo_state_network_def r1 r2 r3 Let_def prod.case w [symmetric]
        then_do_Inr m) blast
qed

text \<open>
  When the generator draws 1/2 for the single entry of \<^verbatim>\<open>W\<close>, the drawn matrix is the zero
  matrix, \<^verbatim>\<open>rhoW\<close> is 0 and the scaling by \<^verbatim>\<open>1.25 / rhoW\<close> leaves no finite \<^verbatim>\<open>W\<close>.
\<close>

theorem initialization_zero_radius:
  "initialize_echo_state_network zero_draw_externals () 1 1 1 = Inr (([[0, 0]], None, [[0]]), ())"
  by (simp add: initialize_echo_state_network_def zero_draw_externals_def example_externals_def
      np_sub_scalar_def np_mul_scalar_def py_max_def)

lemma zero_draw_eigenvalues:
  "drawn_W zero_draw_externals () 1 1 = [[0]]"
  "linalg_eig zero_draw_externals [[0]] = Inr [0]"
  "set [0] = {l. is_eigenvalue [[0]] l}"
proof -
  show "drawn_W zero_draw_externals () 1 1 = [[0]]"
    by (simp add: drawn_W_def zero_draw_externals_def example_externals_def np_sub_scalar_def)
  show "linalg_eig zero_draw_externals [[0]] = Inr [0]"
    by (simp add: zero_draw_externals_def)
  have "is_eigenvalue [[0]] l \<longleftrightarrow> l = 0" for l
  proof
    assume "is_eigenvalue [[0]] l"
    then obtain v where v: "length v = length [[0 :: real]]"
      "\<exists>k. k < length v \<and> v ! k \<noteq> 0"
      "map (\<lambda>row. complex_dot row v) [[0]] = map (\<lambda>z. l * z) v"
      unfolding is_eigenvalue_def by blast
    from v(1) obtain z where z: "v = [z]" by (cases v) auto
    with v(2) have "z \<noteq> 0" by auto
    with v(3) z show "l = 0" by (simp add: complex_dot_def)
  next
    assume "l = 0"
    then have "length [1 :: complex] = length [[0 :: real]] \<and>
               (\<exists>k. k < length [1 :: complex] \<and> [1 :: complex] ! k \<noteq> 0) \<and>
               map (\<lambda>row. complex_dot row [1]) [[0]] = map (\<lambda>z. l * z) [1]"
      by (simp add: complex_dot_def)
    then show "is_eigenvalue [[0]] l" unfolding is_eigenvalue_def by blast
  qed
  then show "set [0] = {l. is_eigenvalue [[0]] l}" by auto
qed

text \<open>
  Claim C2, amended. \<^verbatim>\<open>initialize_echo_state_network\<close> returns as \<^verbatim>\<open>W\<close> the drawn matrix
  times \<^verbatim>\<open>1.25 / rhoW\<close>, where \<^verbatim>\<open>rhoW\<close> is the largest absolute value among the eigenvalues that
  the eigenvalue routine reports; when these are the eigenvalues of the drawn matrix and
  \<^verbatim>\<open>rhoW\<close> is not zero, the spectral radius of the returned \<^verbatim>\<open>W\<close> is 1.25.
\<close>

theorem spectral_radius_after_initialization:
  assumes eig: "linalg_eig E (drawn_W E g inputs reservoir) = Inr ev"
    and correct: "set ev = {l. is_eigenvalue (drawn_W E g inputs reservoir) l}"
    and ne: "ev \<noteq> []"
    and nz: "Max (set (map cmod ev)) \<noteq> 0"
  shows "(\<exists>Win Wback g'.
            initialize_echo_state_network E g inputs outputs reservoir
              = Inr ((Win,
                      Some (np_mul_scalar (drawn_W E g inputs reservoir)
                              (1.25 / Max (set (map cmod ev)))),
                      Wback), g'))
         \<and> spectral_radius_is
             (np_mul_scalar (drawn_W E g inputs reservoir) (1.25 / Max (set (map cmod ev))))
             1.25"
proof
  from initialize_drawn [OF eig ne, of outputs] nz
  show "\<exists>Win Wback g'.
            initialize_echo_state_network E g inputs outputs reservoir
              = Inr ((Win,
                      Some (np_mul_scalar (drawn_W E g inputs reservoir)
                              (1.25 / Max (set (map cmod ev)))),
                      Wback), g')"
    by simp
next
  let ?rho = "Max (set (map cmod ev))"
  have rad: "spectral_radius_is (drawn_W E g inputs reservoir) ?rho"
    using correct ne by (rule spectral_radius_of_eigenvalues)
  then obtain l0 where "cmod l0 = ?rho" unfolding spectral_radius_is_def by blast
  moreover have "0 \<le> cmod l0" by simp
  ultimately have "0 \<le> ?rho" by simp
  with nz have pos: "0 < 1.25 / ?rho" by simp
  from spectral_radius_scale [OF rad pos] nz
  show "spectral_radius_is (np_mul_scalar (drawn_W E g inputs reservoir) (1.25 / ?rho)) 1.25"
    by simp
qed

lemma quarter_draw_eigenvalues:
  "drawn_W quarter_draw_externals () 1 1 = [[1 / 4]]"
  "set [1 / 4] = {l. is_eigenvalue [[1 / 4]] l}"
proof -
  show "drawn_W quarter_draw_externals () 1 1 = [[1 / 4]]"
    by (simp add: drawn_W_def quarter_draw_externals_def example_externals_def np_sub_scalar_def)
  have "is_eigenvalue [[1 / 4]] l \<longleftrightarrow> l = 1 / 4" for l
  proof
    assume "is_eigenvalue [[1 / 4]] l"
    then obtain v where v: "length v = length [[1 / 4 :: real]]"
      "\<exists>k. k < length v \<and> v ! k \<noteq> 0"
      "map (\<lambda>row. complex_dot row v) [[1 / 4]] = map (\<lambda>z. l * z) v"
      unfolding is_eigenvalue_def by blast
    from v(1) obtain z where z: "v = [z]" by (cases v) auto
    with v(2) have nz: "z \<noteq> 0" by auto
    have "[complex_dot [1 / 4] [z]] = [l * z]"
      using v(3) unfolding z by (simp only: list.map)
    then have "complex_of_real (1 / 4) * z = l * z"
      by (simp only: complex_dot_def zip.simps list.map list.inject prod.case sum_list.Cons
          sum_list.Nil add_0_right list.case)
    with mult_right_cancel [OF nz, of "complex_of_real (1 / 4)" l]
    have "complex_of_real (1 / 4) = l" by blast
    then show "l = 1 / 4" by simp
  next
    assume "l = 1 / 4"
    then have "length [1 :: complex] = length [[1 / 4 :: real]] \<and>
               (\<exists>k. k < length [1 :: complex] \<and> [1 :: complex] ! k \<noteq> 0) \<and>
               map (\<lambda>row. complex_dot row [1]) [[1 / 4]] = map (\<lambda>z. l * z) [1]"
      by (simp add: complex_dot_def)
    then show "is_eigenvalue [[1 / 4]] l" unfolding is_eigenvalue_def by blast
  qed
  then have "{l. is_eigenvalue [[1 / 4]] l} = {1 / 4}"
    by (intro set_eqI) (simp only: mem_Collect_eq singleton_iff)
  then show "set [1 / 4] = {l. is_eigenvalue [[1 / 4]] l}" by (simp only: list.set)
qed

theorem spectral_radius_after_initialization_witness:
  "\<exists>Win Wback g'.
     initialize_echo_state_network quarter_draw_externals () 1 1 1
       = Inr ((Win, Some [[5 / 4]], Wback), g')"
proof -
  have eig: "linalg_eig quarter_draw_externals (drawn_W quarter_draw_externals () 1 1)
               = Inr [1 / 4]"
    by (simp add: quarter_draw_externals_def)
  have correct: "set [1 / 4] = {l. is_eigenvalue (drawn_W quarter_draw_externals () 1 1) l}"
    by (simp only: quarter_draw_eigenvalues)
  have ne: "[1 / 4 :: complex] \<noteq> []" by simp
  have nz: "Max (set (map cmod [1 / 4])) \<noteq> 0" by simp
  note init = spectral_radius_after_initialization
    [OF eig correct ne nz, of 1, unfolded quarter_draw_eigenvalues(1)]
  from init show ?thesis
    by (simp add: np_mul_scalar_def)
qed

section \<open>The range of the normalized values\<close>

lemma scaled_entry_in_range:
  fixes v :: real
  assumes "mn \<le> v" "v \<le> mx" "lo \<le> hi"
  shows "lo \<le> (v - mn) / (if mx - mn = 0 then 1 else mx - mn) * (hi - lo) + lo
         \<and> (v - mn) / (if mx - mn = 0 then 1 else mx - mn) * (hi - lo) + lo \<le> hi"
proof -
  define q where "q = (v - mn) / (if mx - mn = 0 then 1 else mx - mn)"
  have q: "0 \<le> q" "q \<le> 1" using assms(1,2) by (auto simp: q_def divide_le_eq_1)
  have s: "0 \<le> hi - lo" using assms(3) by simp
  have "0 \<le> q * (hi - lo)" using q(1) s by (rule mult_nonneg_nonneg)
  then have a: "lo \<le> q * (hi - lo) + lo" by simp
  have "q * (hi - lo) \<le> 1 * (hi - lo)" using q(2) s by (rule mult_right_mono)
  then have b: "q * (hi - lo) + lo \<le> hi" by simp
  from a b show ?thesis unfolding q_def by (rule conjI)
qed

text \<open>
  The values of the scaled train frame lie between \<^verbatim>\<open>range_min\<close> and \<^verbatim>\<open>range_max\<close>; for the
  targets of \<^verbatim>\<open>reservoir_computing\<close>, between -0.9 and 0.9, where \<^verbatim>\<open>np.arctanh\<close> is finite.
\<close>

lemma normalize_in_range:
  assumes rect: "rectangular (train @ test)" and le: "range_min \<le> range_max"
    and n: "normalize train (Some test) range_min range_max
              = Inr (new_train, new_test, minimum, maximum)"
    and r: "r \<in> set new_train" and j: "j < length r"
  shows "range_min \<le> r ! j \<and> r ! j \<le> range_max"
proof -
  let ?both = "train @ test"
  from n normalize_value [OF rect, of range_min range_max]
  have "new_train = scaled_rows ?both range_min range_max train" by simp
  with r obtain r0 where r0: "r0 \<in> set train"
    and req: "r = map (\<lambda>j. scaled ?both range_min range_max j (r0 ! j)) [0..<ncols ?both]"
    by (auto simp: scaled_rows_def)
  from j req have j': "j < ncols ?both" by simp
  have mem: "r0 \<in> set ?both" using r0 by simp
  have lo: "df_min ?both ! j \<le> r0 ! j" using mem j' by (rule df_min_le)
  have hi: "r0 ! j \<le> df_max ?both ! j" using mem j' by (rule df_max_ge)
  have "r ! j = (r0 ! j - df_min ?both ! j)
                  / (if df_max ?both ! j - df_min ?both ! j = 0 then 1
                     else df_max ?both ! j - df_min ?both ! j)
                  * (range_max - range_min) + range_min"
    using j' by (simp add: req scaled_def divisor_def)
  with scaled_entry_in_range [OF lo hi le] show ?thesis by simp
qed

end
